(* ===== verification/Prelude.thy ===== *)
theory Prelude
  imports Main "HOL-Library.Word"
begin

unbundle bit_operations_syntax

text \<open>
  The vocabulary every component shares: the C integer types of the library, the byte
  helpers behind the shifts and masks of its frame code, and the collections of rewrite
  rules the component proofs use.
\<close>

type_synonym byte = "8 word"
type_synonym u16 = "16 word"
type_synonym u32 = "32 word"
type_synonym millitime_t = "64 word"

named_theorems frame_simps \<open>field equations of the frame operations\<close>
named_theorems byte_simps \<open>arithmetic reading of shifts and masks on bytes\<close>
named_theorems queue_simps \<open>equations of the request queue\<close>
named_theorems keeps \<open>fields an operation leaves alone\<close>

section \<open>Bytes and 16-bit fields\<close>

text \<open>
  \<open>hi8\<close> and \<open>lo8\<close> are the two assignments \<open>buf[i] = v >> 8; buf[i + 1] = v & 0x00ff\<close> of
  an \<open>int\<close> into \<open>uint8_t\<close> cells; \<open>be16\<close> is \<open>(a << 8) | b\<close>, the way a 16-bit field is
  read back.
\<close>

definition hi8 :: "int \<Rightarrow> byte" where
  "hi8 v = word_of_int (drop_bit 8 v)"

definition lo8 :: "int \<Rightarrow> byte" where
  "lo8 v = word_of_int (v AND 0xff)"

definition be16 :: "byte \<Rightarrow> byte \<Rightarrow> int" where
  "be16 a b = (push_bit 8 (uint a) OR uint b)"

lemma be16_eq [byte_simps]: "be16 a b = uint a * 256 + uint b"
proof -
  have "push_bit 8 (uint a) + uint b = (push_bit 8 (uint a) OR uint b)"
    by (rule disjunctive_add_eq_or)
       (auto simp: bit_eq_iff bit_simps dest: bit_imp_le_length)
  then show ?thesis by (simp add: be16_def push_bit_eq_mult)
qed

lemma hi8_uint [byte_simps]: "uint (hi8 v) = (v div 256) mod 256"
  by (simp add: hi8_def drop_bit_eq_div uint_word_of_int)

lemma lo8_uint [byte_simps]: "uint (lo8 v) = v mod 256"
  using take_bit_eq_mask [of 8 v]
  by (simp add: lo8_def uint_word_of_int take_bit_eq_mod mask_eq_exp_minus_1)

lemma lo8_take_bit: "lo8 v = word_of_int (take_bit 8 v)"
  using take_bit_eq_mask [of 8 v] by (simp add: lo8_def mask_eq_exp_minus_1)

lemma be16_hi_lo: "be16 (hi8 v) (lo8 v) = v mod 65536"
proof -
  have "v mod 65536 = v mod (256 * 256)" by simp
  also have "\<dots> = 256 * (v div 256 mod 256) + v mod 256"
    by (rule zmod_zmult2_eq) simp
  finally show ?thesis by (simp add: byte_simps)
qed

lemma be16_inverse [simp]: "0 \<le> v \<Longrightarrow> v < 65536 \<Longrightarrow> be16 (hi8 v) (lo8 v) = v"
  by (simp add: be16_hi_lo)

lemma byte_range [simp]: "0 \<le> uint (b :: byte)" "uint (b :: byte) < 256" "uint (b :: byte) \<le> 255"
  using uint_bounded [of b] by simp_all

lemma be16_range: "0 \<le> be16 a b" "be16 a b < 65536"
proof -
  show "0 \<le> be16 a b" by (simp add: byte_simps)
  have "uint a * 256 \<le> 255 * 256" by (rule mult_right_mono) simp_all
  then show "be16 a b < 65536"
    using byte_range(2) [of b] by (simp only: byte_simps)
qed

lemma hi8_be16 [simp]: "hi8 (be16 a b) = a"
proof -
  have "uint (hi8 (be16 a b)) = uint a" by (simp add: byte_simps)
  then show ?thesis by (simp add: word_uint_eq_iff)
qed

lemma lo8_be16 [simp]: "lo8 (be16 a b) = b"
proof -
  have "uint (lo8 (be16 a b)) = uint b" by (simp add: byte_simps)
  then show ?thesis by (simp add: word_uint_eq_iff)
qed

lemma be16_inject: "be16 a b = be16 c d \<longleftrightarrow> a = c \<and> b = d"
  by (metis hi8_be16 lo8_be16)

lemma uint_byte_inject: "uint (a :: byte) = uint b \<longleftrightarrow> a = b"
  by (simp add: word_uint_eq_iff)

section \<open>Lists\<close>

lemma list_eq_nthI:
  assumes "length xs = length ys" and "\<And>i. i < length xs \<Longrightarrow> xs ! i = ys ! i"
  shows "xs = ys"
  using assms by (rule nth_equalityI)

lemma take_list_update_ge: "n \<le> i \<Longrightarrow> take n (xs[i := v]) = take n xs"
  by (rule list_eq_nthI) auto

lemma upt_Suc_map: "[0..<Suc n] = 0 # map Suc [0..<n]"
  by (simp add: upt_conv_Cons map_Suc_upt del: upt_Suc)

lemma foldl_inject:
  assumes "\<And>x a b. f a x = f b x \<Longrightarrow> a = b"
  shows "foldl f a xs = foldl f b xs \<Longrightarrow> a = b"
  by (induction xs arbitrary: a b) (auto dest: assms)

end
