(* ===== verification/Frame.thy ===== *)
theory Frame
  imports Prelude
begin

text \<open>
  Frames and messages, \<open>modbusmq_frame_t\<close> and \<open>modbusmq_msg_t\<close> of lib/modbusmq.h, with the
  byte accesses the transports and the frame builders share.

  The buffer \<open>uint8_t buf[MODBUSMQ_FRAME_MAX]\<close> is a list of 260 bytes; \<open>length\<close> and
  \<open>xmit\<close> are the C \<open>int16_t\<close> fields read as integers, and \<open>wf_frame\<close> is the bound that
  keeps them far from that type's limits.
\<close>

definition MODBUSMQ_FRAME_MAX :: int where
  "MODBUSMQ_FRAME_MAX = 260"

record modbusmq_frame_t =
  is_writer :: bool
  is_tcp :: bool
  flength :: int
  xmit :: int
  fbuf :: "byte list"

record modbusmq_msg_t =
  msg_id :: int
  req_id :: u32
  frame0 :: modbusmq_frame_t
  frame1 :: modbusmq_frame_t

text \<open>The function codes of lib/modbusmq_internal.h.\<close>

abbreviation (input) MODBUSMQ_READ_COILS :: int where "MODBUSMQ_READ_COILS \<equiv> 0x01"
abbreviation (input) MODBUSMQ_READ_DISCRETE_INPUTS :: int where "MODBUSMQ_READ_DISCRETE_INPUTS \<equiv> 0x02"
abbreviation (input) MODBUSMQ_READ_HOLDING_REGISTERS :: int where "MODBUSMQ_READ_HOLDING_REGISTERS \<equiv> 0x03"
abbreviation (input) MODBUSMQ_READ_INPUT_REGISTERS :: int where "MODBUSMQ_READ_INPUT_REGISTERS \<equiv> 0x04"
abbreviation (input) MODBUSMQ_WRITE_SINGLE_COIL :: int where "MODBUSMQ_WRITE_SINGLE_COIL \<equiv> 0x05"
abbreviation (input) MODBUSMQ_WRITE_SINGLE_REGISTER :: int where "MODBUSMQ_WRITE_SINGLE_REGISTER \<equiv> 0x06"
abbreviation (input) MODBUSMQ_WRITE_MULTIPLE_COILS :: int where "MODBUSMQ_WRITE_MULTIPLE_COILS \<equiv> 0x0F"
abbreviation (input) MODBUSMQ_WRITE_MULTIPLE_REGISTERS :: int where "MODBUSMQ_WRITE_MULTIPLE_REGISTERS \<equiv> 0x10"
abbreviation (input) MODBUSMQ_MASK_WRITE_REGISTER :: int where "MODBUSMQ_MASK_WRITE_REGISTER \<equiv> 0x16"

text \<open>The return codes of the loop, lib/modbusmq.h.\<close>

abbreviation (input) MODBUSMQ_ERR_TRANSPORT :: int where "MODBUSMQ_ERR_TRANSPORT \<equiv> - 1"
abbreviation (input) MODBUSMQ_ERR_PROTOCOL :: int where "MODBUSMQ_ERR_PROTOCOL \<equiv> - 2"
abbreviation (input) MODBUSMQ_ERR_TIMEOUT :: int where "MODBUSMQ_ERR_TIMEOUT \<equiv> - 3"
abbreviation (input) MODBUSMQ_ERR_EXCEPTION :: int where "MODBUSMQ_ERR_EXCEPTION \<equiv> - 4"

section \<open>Buffer access\<close>

definition getb :: "modbusmq_frame_t \<Rightarrow> nat \<Rightarrow> byte" where
  "getb f i = fbuf f ! i"

definition setb :: "nat \<Rightarrow> byte \<Rightarrow> modbusmq_frame_t \<Rightarrow> modbusmq_frame_t" where
  "setb i v f = f\<lparr>fbuf := (fbuf f)[i := v]\<rparr>"

text \<open>\<open>frame->buf[frame->length++] = v\<close>\<close>

definition push_byte :: "byte \<Rightarrow> modbusmq_frame_t \<Rightarrow> modbusmq_frame_t" where
  "push_byte v f = f\<lparr>fbuf := (fbuf f)[nat (flength f) := v], flength := flength f + 1\<rparr>"

text \<open>\<open>memset(frame, 0, sizeof(*frame))\<close>\<close>

definition frame_zero :: modbusmq_frame_t where
  "frame_zero = \<lparr>is_writer = False, is_tcp = False, flength = 0, xmit = 0,
                 fbuf = replicate 260 0\<rparr>"

text \<open>What is in the buffer up to the frame's length: the bytes that go on the wire.\<close>

definition wire :: "modbusmq_frame_t \<Rightarrow> byte list" where
  "wire f = take (nat (flength f)) (fbuf f)"

text \<open>The bytes of the frame that a \<open>read()\<close> has put there.\<close>

definition received :: "modbusmq_frame_t \<Rightarrow> byte list" where
  "received f = take (nat (xmit f)) (fbuf f)"

definition wf_frame :: "modbusmq_frame_t \<Rightarrow> bool" where
  "wf_frame f \<longleftrightarrow> length (fbuf f) = 260 \<and> 0 \<le> xmit f \<and> xmit f \<le> flength f
     \<and> flength f \<le> MODBUSMQ_FRAME_MAX"

lemma wf_frameD:
  assumes "wf_frame f"
  shows "length (fbuf f) = 260" "0 \<le> xmit f" "xmit f \<le> flength f" "flength f \<le> 260"
    "0 \<le> flength f"
  using assms by (auto simp: wf_frame_def MODBUSMQ_FRAME_MAX_def)

lemma frame_zero_simps [simp]:
  "is_writer frame_zero = False" "is_tcp frame_zero = False" "flength frame_zero = 0"
  "xmit frame_zero = 0" "length (fbuf frame_zero) = 260"
  by (simp_all add: frame_zero_def)

lemma wf_frame_zero [simp]: "wf_frame frame_zero"
  by (simp add: wf_frame_def MODBUSMQ_FRAME_MAX_def)

lemma setb_fields [simp, frame_simps]:
  "is_writer (setb i v f) = is_writer f" "is_tcp (setb i v f) = is_tcp f"
  "flength (setb i v f) = flength f" "xmit (setb i v f) = xmit f"
  "fbuf (setb i v f) = (fbuf f)[i := v]"
  by (simp_all add: setb_def)

lemma push_byte_fields [simp, frame_simps]:
  "is_writer (push_byte v f) = is_writer f" "is_tcp (push_byte v f) = is_tcp f"
  "flength (push_byte v f) = flength f + 1" "xmit (push_byte v f) = xmit f"
  "length (fbuf (push_byte v f)) = length (fbuf f)"
  "fbuf (push_byte v f) = (fbuf f)[nat (flength f) := v]"
  by (simp_all add: push_byte_def)

lemma length_wire: "0 \<le> flength f \<Longrightarrow> flength f \<le> int (length (fbuf f)) \<Longrightarrow>
    length (wire f) = nat (flength f)"
  by (simp add: wire_def)

text \<open>As long as there is room, pushing a byte extends what goes on the wire by it.\<close>

lemma wire_push_byte:
  assumes "0 \<le> flength f" and "flength f < int (length (fbuf f))"
  shows "wire (push_byte v f) = wire f @ [v]"
proof -
  have n: "nat (flength f) < length (fbuf f)" using assms by linarith
  have "wire (push_byte v f) = take (Suc (nat (flength f))) ((fbuf f)[nat (flength f) := v])"
    using assms(1) by (simp add: wire_def nat_add_distrib)
  also have "\<dots> = take (nat (flength f)) ((fbuf f)[nat (flength f) := v]) @ [v]"
    using n by (subst take_Suc_conv_app_nth) simp_all
  finally show ?thesis by (simp add: wire_def)
qed

definition push_bytes :: "byte list \<Rightarrow> modbusmq_frame_t \<Rightarrow> modbusmq_frame_t" where
  "push_bytes bs f = fold push_byte bs f"

lemma push_bytes_fields [simp, frame_simps]:
  "is_writer (push_bytes bs f) = is_writer f" "is_tcp (push_bytes bs f) = is_tcp f"
  "flength (push_bytes bs f) = flength f + int (length bs)" "xmit (push_bytes bs f) = xmit f"
  "length (fbuf (push_bytes bs f)) = length (fbuf f)"
  unfolding push_bytes_def by (induction bs arbitrary: f) simp_all

lemma wire_push_bytes:
  assumes "0 \<le> flength f" and "flength f + int (length bs) \<le> int (length (fbuf f))"
  shows "wire (push_bytes bs f) = wire f @ bs"
  using assms unfolding push_bytes_def
proof (induction bs arbitrary: f)
  case (Cons b bs)
  have "wire (fold push_byte bs (push_byte b f)) = wire (push_byte b f) @ bs"
    by (rule Cons.IH) (use Cons.prems in simp_all)
  then show ?case using Cons.prems by (simp add: wire_push_byte)
qed (simp add: wire_def)

text \<open>Reading below the length of a frame is reading the wire bytes.\<close>

lemma getb_wire: "i < nat (flength f) \<Longrightarrow> getb f i = wire f ! i"
  by (simp add: getb_def wire_def)

lemma getb_received: "i < nat (xmit f) \<Longrightarrow> getb f i = received f ! i"
  by (simp add: getb_def received_def)

lemma received_complete: "xmit f = flength f \<Longrightarrow> received f = wire f"
  by (simp add: received_def wire_def)

section \<open>The two halves of a message\<close>

text \<open>
  The library never assumes that \<open>frame[0]\<close> is the request. It takes the writer to be
  \<open>frame[0]\<close> when that one is marked and \<open>frame[1]\<close> otherwise, and the reader to be
  \<open>frame[1]\<close> when that one is not marked and \<open>frame[0]\<close> otherwise; the two are the same
  frame when both or neither are marked. The index is therefore part of the model.
\<close>

definition frame_at :: "modbusmq_msg_t \<Rightarrow> nat \<Rightarrow> modbusmq_frame_t" where
  "frame_at m i = (if i = 0 then frame0 m else frame1 m)"

definition put_frame :: "nat \<Rightarrow> modbusmq_frame_t \<Rightarrow> modbusmq_msg_t \<Rightarrow> modbusmq_msg_t" where
  "put_frame i f m = (if i = 0 then m\<lparr>frame0 := f\<rparr> else m\<lparr>frame1 := f\<rparr>)"

definition writer_ix :: "modbusmq_msg_t \<Rightarrow> nat" where
  "writer_ix m = (if is_writer (frame0 m) then 0 else 1)"

definition reader_ix :: "modbusmq_msg_t \<Rightarrow> nat" where
  "reader_ix m = (if \<not> is_writer (frame1 m) then 1 else 0)"

abbreviation writer_of :: "modbusmq_msg_t \<Rightarrow> modbusmq_frame_t" where
  "writer_of m \<equiv> frame_at m (writer_ix m)"

abbreviation reader_of :: "modbusmq_msg_t \<Rightarrow> modbusmq_frame_t" where
  "reader_of m \<equiv> frame_at m (reader_ix m)"

text \<open>\<open>modbusmq_msg_writer\<close>: the built request of a message, or \<open>NULL\<close>.\<close>

definition modbusmq_msg_writer :: "modbusmq_msg_t \<Rightarrow> modbusmq_frame_t option" where
  "modbusmq_msg_writer m =
     (if is_writer (frame0 m) \<and> flength (frame0 m) > 0 then Some (frame0 m)
      else if is_writer (frame1 m) \<and> flength (frame1 m) > 0 then Some (frame1 m)
      else None)"

text \<open>A request/response pair in its normal shape: the request first, the answer second.\<close>

definition paired :: "modbusmq_msg_t \<Rightarrow> bool" where
  "paired m \<longleftrightarrow> is_writer (frame0 m) \<and> \<not> is_writer (frame1 m)"

definition wf_msg :: "modbusmq_msg_t \<Rightarrow> bool" where
  "wf_msg m \<longleftrightarrow> paired m \<and> wf_frame (frame0 m) \<and> wf_frame (frame1 m)"

lemma paired_ix [simp]:
  assumes "paired m"
  shows "writer_ix m = 0" "reader_ix m = 1"
  using assms by (simp_all add: paired_def writer_ix_def reader_ix_def)

lemma frame_at_simps [simp]: "frame_at m 0 = frame0 m" "frame_at m 1 = frame1 m"
    "frame_at m (Suc 0) = frame1 m"
  by (simp_all add: frame_at_def)

lemma put_frame_simps [simp]:
  "put_frame 0 f m = m\<lparr>frame0 := f\<rparr>" "put_frame 1 f m = m\<lparr>frame1 := f\<rparr>"
  "put_frame (Suc 0) f m = m\<lparr>frame1 := f\<rparr>"
  "msg_id (put_frame i f m) = msg_id m" "req_id (put_frame i f m) = req_id m"
  by (simp_all add: put_frame_def)

lemma wf_msgD:
  assumes "wf_msg m"
  shows "paired m" "wf_frame (frame0 m)" "wf_frame (frame1 m)"
    "writer_ix m = 0" "reader_ix m = 1"
  using assms by (simp_all add: wf_msg_def)

end
