(* ===== verification/Ieee.thy ===== *)
theory Ieee
  imports Prelude Complex_Main "HOL-Library.Log_Nat"
begin

text \<open>
  The C types \<open>float\<close> and \<open>double\<close> as the sources use them: IEEE 754 binary32 and binary64
  with rounding to nearest, ties to even. A finite number is a sign and a rational magnitude;
  every operation computes the exact rational result and rounds it once.
\<close>

section \<open>Rounding\<close>

definition round_even :: "rat \<Rightarrow> int" where
  "round_even x =
     (let n = \<lfloor>x\<rfloor>; r = x - of_int n
      in if r < 1/2 then n else if 1/2 < r then n + 1 else if even n then n else n + 1)"

text \<open>The exponent of the highest bit of a positive number.\<close>

definition rat_log2 :: "rat \<Rightarrow> int" where
  "rat_log2 x =
     (let (a, b) = quotient_of x; e = int (floorlog 2 (nat a)) - int (floorlog 2 (nat b))
      in if 2 powi e \<le> x then e else e - 1)"

text \<open>
  A format: the bits of the significand, the exponent of the smallest unit, and the exponent
  of the first power of two that overflows.
\<close>

record fp_format =
  fp_prec :: int
  fp_low :: int
  fp_top :: int

definition binary32 :: fp_format where
  "binary32 = \<lparr>fp_prec = 24, fp_low = -149, fp_top = 128\<rparr>"

definition binary64 :: fp_format where
  "binary64 = \<lparr>fp_prec = 53, fp_low = -1074, fp_top = 1024\<rparr>"

text \<open>The unit in which a magnitude is counted, and the magnitude rounded to it.\<close>

definition fp_unit :: "fp_format \<Rightarrow> rat \<Rightarrow> int" where
  "fp_unit F x = max (rat_log2 x - (fp_prec F - 1)) (fp_low F)"

definition rnd :: "fp_format \<Rightarrow> rat \<Rightarrow> rat" where
  "rnd F x = (if x = 0 then 0 else of_int (round_even (x / 2 powi (fp_unit F x))) * 2 powi (fp_unit F x))"

section \<open>Numbers and operations\<close>

datatype fp = FNaN | FInf bool | FNum bool rat

definition fzero :: fp where
  "fzero = FNum False 0"

definition fval :: "fp \<Rightarrow> rat" where
  "fval x = (case x of FNum s r \<Rightarrow> (if s then - r else r) | _ \<Rightarrow> 0)"

definition fround :: "fp_format \<Rightarrow> bool \<Rightarrow> rat \<Rightarrow> fp" where
  "fround F s x = (let r = rnd F x in if 2 powi (fp_top F) \<le> r then FInf s else FNum s r)"

definition fp_of_rat :: "fp_format \<Rightarrow> rat \<Rightarrow> fp" where
  "fp_of_rat F v = fround F (v < 0) \<bar>v\<bar>"

definition fp_of_int :: "fp_format \<Rightarrow> int \<Rightarrow> fp" where
  "fp_of_int F i = fp_of_rat F (of_int i)"

text \<open>\<open>(float)x\<close> of a \<open>double\<close> and back.\<close>

definition fp_conv :: "fp_format \<Rightarrow> fp \<Rightarrow> fp" where
  "fp_conv F x = (case x of FNum s r \<Rightarrow> fround F s r | _ \<Rightarrow> x)"

definition fneg :: "fp \<Rightarrow> fp" where
  "fneg x = (case x of FNaN \<Rightarrow> FNaN | FInf s \<Rightarrow> FInf (\<not> s) | FNum s r \<Rightarrow> FNum (\<not> s) r)"

definition fabs :: "fp \<Rightarrow> fp" where
  "fabs x = (case x of FNaN \<Rightarrow> FNaN | FInf s \<Rightarrow> FInf False | FNum s r \<Rightarrow> FNum False r)"

fun fadd :: "fp_format \<Rightarrow> fp \<Rightarrow> fp \<Rightarrow> fp" where
  "fadd F (FNum s a) (FNum t b) =
     (let v = fval (FNum s a) + fval (FNum t b)
      in if v = 0 then FNum (s \<and> t) 0 else fp_of_rat F v)"
| "fadd F FNaN _ = FNaN"
| "fadd F _ FNaN = FNaN"
| "fadd F (FInf s) (FInf t) = (if s = t then FInf s else FNaN)"
| "fadd F (FInf s) _ = FInf s"
| "fadd F _ (FInf t) = FInf t"

definition fsub :: "fp_format \<Rightarrow> fp \<Rightarrow> fp \<Rightarrow> fp" where
  "fsub F x y = fadd F x (fneg y)"

fun fmul :: "fp_format \<Rightarrow> fp \<Rightarrow> fp \<Rightarrow> fp" where
  "fmul F (FNum s a) (FNum t b) = fround F (s \<noteq> t) (a * b)"
| "fmul F FNaN _ = FNaN"
| "fmul F _ FNaN = FNaN"
| "fmul F (FInf s) (FInf t) = FInf (s \<noteq> t)"
| "fmul F (FInf s) (FNum t b) = (if b = 0 then FNaN else FInf (s \<noteq> t))"
| "fmul F (FNum s a) (FInf t) = (if a = 0 then FNaN else FInf (s \<noteq> t))"

fun fdiv :: "fp_format \<Rightarrow> fp \<Rightarrow> fp \<Rightarrow> fp" where
  "fdiv F (FNum s a) (FNum t b) =
     (if b = 0 then if a = 0 then FNaN else FInf (s \<noteq> t) else fround F (s \<noteq> t) (a / b))"
| "fdiv F FNaN _ = FNaN"
| "fdiv F _ FNaN = FNaN"
| "fdiv F (FInf s) (FInf t) = FNaN"
| "fdiv F (FInf s) (FNum t b) = FInf (s \<noteq> t)"
| "fdiv F (FNum s a) (FInf t) = FNum (s \<noteq> t) 0"

fun flt :: "fp \<Rightarrow> fp \<Rightarrow> bool" where
  "flt FNaN _ = False"
| "flt _ FNaN = False"
| "flt (FInf s) (FInf t) = (s \<and> \<not> t)"
| "flt (FInf s) (FNum t b) = s"
| "flt (FNum s a) (FInf t) = (\<not> t)"
| "flt (FNum s a) (FNum t b) = (fval (FNum s a) < fval (FNum t b))"

fun fle :: "fp \<Rightarrow> fp \<Rightarrow> bool" where
  "fle FNaN _ = False"
| "fle _ FNaN = False"
| "fle (FInf s) (FInf t) = (s \<or> \<not> t)"
| "fle (FInf s) (FNum t b) = s"
| "fle (FNum s a) (FInf t) = (\<not> t)"
| "fle (FNum s a) (FNum t b) = (fval (FNum s a) \<le> fval (FNum t b))"

definition is_finite :: "fp \<Rightarrow> bool" where
  "is_finite x = (case x of FNum s r \<Rightarrow> True | _ \<Rightarrow> False)"

text \<open>The value without its fraction; \<open>None\<close> where there is none.\<close>

definition ftrunc :: "fp \<Rightarrow> int option" where
  "ftrunc x = (case x of FNum s r \<Rightarrow> Some (if s then - \<lfloor>r\<rfloor> else \<lfloor>r\<rfloor>) | _ \<Rightarrow> None)"

text \<open>The conversion to a signed integer of \<open>w\<close> bits; \<open>None\<close> where C leaves it undefined.\<close>

definition to_signed :: "nat \<Rightarrow> fp \<Rightarrow> int option" where
  "to_signed w x = (case ftrunc x of
      None \<Rightarrow> None
    | Some t \<Rightarrow> if - (2 ^ (w - 1)) \<le> t \<and> t < 2 ^ (w - 1) then Some t else None)"

section \<open>Bit patterns\<close>

text \<open>The pattern of a \<open>float\<close>, as \<open>memcpy\<close> shows it. Every NaN is taken for the quiet one.\<close>

definition float_of_bits :: "u32 \<Rightarrow> fp" where
  "float_of_bits w =
     (let n = uint w; s = (2 ^ 31 \<le> n); e = (n div 2 ^ 23) mod 256; m = n mod 2 ^ 23
      in if e = 255 then if m = 0 then FInf s else FNaN
         else if e = 0 then FNum s (of_int m * 2 powi (-149))
         else FNum s (of_int (2 ^ 23 + m) * 2 powi (e - 150)))"

definition bits_of_float :: "fp \<Rightarrow> u32" where
  "bits_of_float x = (case x of
      FNaN \<Rightarrow> 0x7fc00000
    | FInf s \<Rightarrow> word_of_int ((if s then 2 ^ 31 else 0) + 255 * 2 ^ 23)
    | FNum s r \<Rightarrow>
        word_of_int ((if s then 2 ^ 31 else 0)
          + (if r < 2 powi (-126) then \<lfloor>r / 2 powi (-149)\<rfloor>
             else (rat_log2 r + 126) * 2 ^ 23 + \<lfloor>r / 2 powi (rat_log2 r - 23)\<rfloor>)))"

section \<open>Facts about rounding\<close>

lemma round_even_of_int [simp]: "round_even (of_int n) = n"
  by (simp add: round_even_def)

lemma round_even_error: "\<bar>of_int (round_even x) - x\<bar> \<le> 1 / 2"
proof -
  have "of_int \<lfloor>x\<rfloor> \<le> x" "x < of_int \<lfloor>x\<rfloor> + 1" by linarith+
  then show ?thesis unfolding round_even_def Let_def by (simp add: abs_le_iff)
qed

lemma round_even_nonneg: "0 \<le> x \<Longrightarrow> 0 \<le> round_even x"
proof -
  assume "0 \<le> x"
  then have "- 1 < (of_int (round_even x) :: rat)" using round_even_error [of x] by linarith
  then show ?thesis by linarith
qed

lemma round_even_near:
  assumes "\<bar>x - of_int n\<bar> < 1 / 2"
  shows "round_even x = n"
proof -
  have "\<bar>of_int (round_even x) - x\<bar> \<le> 1 / 2" by (rule round_even_error)
  then have "\<bar>of_int (round_even x) - (of_int n :: rat)\<bar> < 1" using assms by linarith
  then show ?thesis by linarith
qed

lemma powi_pos: "0 < (2 :: rat) powi e"
  by simp

lemma powi_nonzero: "(2 :: rat) powi e \<noteq> 0"
  by simp

lemma powi_le_iff: "(2 :: rat) powi a \<le> 2 powi b \<longleftrightarrow> a \<le> b"
  using power_int_strict_increasing [of a b "2 :: rat"] power_int_strict_increasing [of b a "2 :: rat"]
  by (cases a b rule: linorder_cases) auto

lemma powi_less_iff: "(2 :: rat) powi a < 2 powi b \<longleftrightarrow> a < b"
  using powi_le_iff [of b a] by linarith

lemma powi_add: "(2 :: rat) powi (a + b) = 2 powi a * 2 powi b"
  by (rule power_int_add) simp

lemma rat_log2_bounds:
  assumes "0 < x"
  shows "2 powi rat_log2 x \<le> x" "x < 2 powi (rat_log2 x + 1)"
proof -
  obtain a b where q: "quotient_of x = (a, b)" by (cases "quotient_of x")
  have b: "0 < b" using quotient_of_denom_pos [OF q] .
  have x: "x = of_int a / of_int b" using quotient_of_div [OF q] .
  have a: "0 < a" using assms b by (simp add: x zero_less_divide_iff)
  let ?m = "floorlog 2 (nat a)" and ?n = "floorlog 2 (nat b)"
  define e where "e = int ?m - int ?n"
  have "2 ^ (?m - 1) \<le> nat a \<and> nat a < 2 ^ ?m" "2 ^ (?n - 1) \<le> nat b \<and> nat b < 2 ^ ?n"
    using floorlog_bounds [of "nat a" 2] floorlog_bounds [of "nat b" 2] a b by simp_all
  then have ab: "2 ^ (?m - 1) \<le> a" "a < 2 ^ ?m" "2 ^ (?n - 1) \<le> b" "b < 2 ^ ?n"
    using a b by (simp_all add: nat_le_eq_zle nat_less_iff le_nat_iff)
  have mn: "0 < ?m" "0 < ?n" using a b by (simp_all add: floorlog_def)
  have pow: "(2 :: rat) ^ k = 2 powi int k" for k by simp
  have A: "(2 :: rat) powi (int ?m - 1) \<le> of_int a" "(of_int a :: rat) < 2 powi int ?m"
    and B: "(2 :: rat) powi (int ?n - 1) \<le> of_int b" "(of_int b :: rat) < 2 powi int ?n"
    using ab mn pow [of "?m - 1"] pow [of "?n - 1"] pow [of ?m] pow [of ?n]
    by (metis of_int_le_iff of_int_less_iff of_int_numeral of_int_power of_nat_1 of_nat_diff Suc_leI One_nat_def)+
  have pb: "(0 :: rat) < of_int b" using b by simp
  have lo: "2 powi (e - 1) \<le> x"
  proof -
    have "2 powi (e - 1) * (of_int b :: rat) \<le> 2 powi (e - 1) * 2 powi int ?n"
      using B(2) by (intro mult_left_mono) simp_all
    also have "\<dots> = 2 powi (int ?m - 1)" by (simp add: powi_add [symmetric] e_def del: power_int_of_nat)
    also have "\<dots> \<le> of_int a" by (rule A(1))
    finally show ?thesis using pb by (simp add: x pos_le_divide_eq)
  qed
  have hi: "x < 2 powi (e + 1)"
  proof -
    have "of_int a < (2 :: rat) powi int ?m" by (rule A(2))
    also have "\<dots> = 2 powi (e + 1) * 2 powi (int ?n - 1)" by (simp add: powi_add [symmetric] e_def del: power_int_of_nat)
    also have "\<dots> \<le> 2 powi (e + 1) * of_int b" using B(1) by (intro mult_left_mono) simp_all
    finally show ?thesis using pb by (simp add: x pos_divide_less_eq)
  qed
  have l: "rat_log2 x = (if 2 powi e \<le> x then e else e - 1)"
    by (simp add: rat_log2_def q e_def)
  show "2 powi rat_log2 x \<le> x" "x < 2 powi (rat_log2 x + 1)"
    using lo hi by (simp_all add: l)
qed

lemma rat_log2_unique:
  assumes "2 powi e \<le> x" and "x < 2 powi (e + 1)"
  shows "rat_log2 x = e"
proof -
  have "0 < x" using assms(1) powi_pos [of e] by linarith
  note b = rat_log2_bounds [OF this]
  have "(2 :: rat) powi e < 2 powi (rat_log2 x + 1)" "(2 :: rat) powi rat_log2 x < 2 powi (e + 1)"
    using assms b by linarith+
  then show ?thesis by (simp add: powi_less_iff)
qed

text \<open>The numbers of a format round to themselves.\<close>

definition representable :: "fp_format \<Rightarrow> rat \<Rightarrow> bool" where
  "representable F r \<longleftrightarrow> (\<exists>m e. r = of_int m * 2 powi e \<and> 0 \<le> m \<and> m < 2 ^ nat (fp_prec F) \<and> fp_low F \<le> e)"

lemma rnd_representable:
  assumes "representable F r" and "0 < fp_prec F"
  shows "rnd F r = r"
proof (cases "r = 0")
  case False
  from assms(1) obtain m e where r: "r = of_int m * 2 powi e"
    and m: "0 \<le> m" "m < 2 ^ nat (fp_prec F)" and e: "fp_low F \<le> e"
    unfolding representable_def by blast
  have pos: "0 < r" using r m(1) False by (cases "m = 0") simp_all
  let ?u = "fp_unit F r"
  have "?u \<le> e"
  proof (cases "rat_log2 r - (fp_prec F - 1) \<le> fp_low F")
    case False
    have "(of_int m :: rat) < 2 powi fp_prec F"
      using m(2) assms(2) by (metis of_int_less_iff of_int_numeral of_int_power nat_0_le less_imp_le power_int_of_nat)
    then have "r < 2 powi (fp_prec F + e)" by (simp add: r powi_add)
    then have "(2 :: rat) powi rat_log2 r < 2 powi (fp_prec F + e)"
      using rat_log2_bounds(1) [OF pos] by linarith
    then show ?thesis using e by (simp add: fp_unit_def powi_less_iff)
  qed (use e in \<open>simp add: fp_unit_def\<close>)
  then have "(2 :: rat) powi e = 2 powi int (nat (e - ?u)) * 2 powi ?u"
    by (simp add: powi_add [symmetric] del: power_int_of_nat)
  then have "r = of_int (m * 2 ^ nat (e - ?u)) * 2 powi ?u" unfolding power_int_of_nat by (simp add: r)
  then have "r / 2 powi ?u = of_int (m * 2 ^ nat (e - ?u))" by (metis nonzero_eq_divide_eq powi_nonzero)
  then have "of_int (round_even (r / 2 powi ?u)) * 2 powi ?u = r" by (metis round_even_of_int nonzero_eq_divide_eq powi_nonzero)
  then show ?thesis using False by (simp add: rnd_def)
qed (simp add: rnd_def)

lemma rnd_error_unit:
  assumes "0 \<le> x"
  shows "\<bar>rnd F x - x\<bar> \<le> 2 powi (fp_unit F x) / 2"
proof (cases "x = 0")
  case False
  let ?u = "(2 :: rat) powi fp_unit F x"
  have "\<bar>of_int (round_even (x / ?u)) - x / ?u\<bar> * ?u \<le> 1 / 2 * ?u"
    by (rule mult_right_mono [OF round_even_error]) simp
  moreover have "\<bar>of_int (round_even (x / ?u)) - x / ?u\<bar> * ?u = \<bar>of_int (round_even (x / ?u)) * ?u - x\<bar>"
    by (subst abs_mult_pos) (simp_all add: left_diff_distrib)
  ultimately show ?thesis using False by (simp add: rnd_def)
qed (simp add: rnd_def)

lemma rnd_nonneg: "0 \<le> x \<Longrightarrow> 0 \<le> rnd F x"
  by (simp add: rnd_def round_even_nonneg)

text \<open>The relative error is at most half a unit in the last place.\<close>

lemma rnd_error:
  assumes "2 powi (fp_low F + fp_prec F - 1) \<le> x"
  shows "\<bar>rnd F x - x\<bar> \<le> x * 2 powi (- fp_prec F)"
proof -
  have pos: "0 < x" using assms powi_pos [of "fp_low F + fp_prec F - 1"] by linarith
  have "(2 :: rat) powi (fp_low F + fp_prec F - 1) < 2 powi (rat_log2 x + 1)"
    using assms rat_log2_bounds(2) [OF pos] by linarith
  then have u: "fp_unit F x = rat_log2 x - (fp_prec F - 1)" by (simp add: powi_less_iff fp_unit_def)
  have "(2 :: rat) powi (fp_unit F x) / 2 = 2 powi (fp_unit F x + (- 1))" unfolding powi_add by simp
  also have "\<dots> = 2 powi (rat_log2 x + (- fp_prec F))" by (simp add: u)
  also have "\<dots> = 2 powi rat_log2 x * 2 powi (- fp_prec F)" by (rule powi_add)
  also have "\<dots> \<le> x * 2 powi (- fp_prec F)"
    by (rule mult_right_mono [OF rat_log2_bounds(1) [OF pos]]) simp
  finally show ?thesis using rnd_error_unit [of x F] pos by linarith
qed

section \<open>Values that pass unchanged\<close>

text \<open>A finite number of the format: conversions leave it as it is.\<close>

definition exact :: "fp_format \<Rightarrow> fp \<Rightarrow> bool" where
  "exact F x \<longleftrightarrow> (case x of FNum s r \<Rightarrow> representable F r \<and> 0 \<le> r \<and> r < 2 powi fp_top F | _ \<Rightarrow> True)"

lemma fround_exact:
  assumes "exact F (FNum s r)" and "0 < fp_prec F"
  shows "fround F s r = FNum s r"
  using assms by (simp add: exact_def fround_def rnd_representable)

lemma fp_conv_exact: "exact F x \<Longrightarrow> 0 < fp_prec F \<Longrightarrow> fp_conv F x = x"
  by (cases x) (simp_all add: fp_conv_def fround_exact)

lemma format_simps [simp]:
  "fp_prec binary32 = 24" "fp_low binary32 = -149" "fp_top binary32 = 128"
  "fp_prec binary64 = 53" "fp_low binary64 = -1074" "fp_top binary64 = 1024"
  by (simp_all add: binary32_def binary64_def)

lemma exact_32_64:
  assumes "exact binary32 x"
  shows "exact binary64 x"
proof (cases x)
  case (FNum s r)
  then obtain m e where r: "r = of_int m * 2 powi e" and m: "0 \<le> m" "m < 2 ^ 24" "-149 \<le> e"
    and b: "0 \<le> r" "r < 2 powi 128"
    using assms by (auto simp: exact_def representable_def)
  have "representable binary64 r"
    unfolding representable_def using r m by (intro exI [of _ m] exI [of _ e]) simp
  moreover have "r < 2 powi 1024" using b(2) powi_le_iff [of 128 1024] by linarith
  ultimately show ?thesis using b(1) by (simp add: exact_def FNum)
qed (simp_all add: exact_def)

lemma representable_int:
  assumes "\<bar>i\<bar> < 2 ^ nat (fp_prec F)" and "fp_low F \<le> 0"
  shows "representable F (of_int \<bar>i\<bar>)"
  unfolding representable_def using assms by (intro exI [of _ "\<bar>i\<bar>"] exI [of _ 0]) simp

lemma fp_of_int_exact:
  assumes "\<bar>i\<bar> < 2 ^ nat (fp_prec F)" and "fp_low F \<le> 0" and "0 < fp_prec F" and "fp_prec F \<le> fp_top F"
  shows "fp_of_int F i = FNum (i < 0) (of_int \<bar>i\<bar>)"
proof -
  have "(of_int \<bar>i\<bar> :: rat) < 2 powi fp_prec F"
    using assms(1,3) by (metis of_int_less_iff of_int_numeral of_int_power nat_0_le less_imp_le power_int_of_nat)
  also have "\<dots> \<le> 2 powi fp_top F" by (simp add: powi_le_iff assms(4))
  finally have "exact F (FNum (i < 0) (of_int \<bar>i\<bar>))"
    using representable_int [OF assms(1,2)] by (simp add: exact_def)
  from fround_exact [OF this assms(3)] show ?thesis by (simp add: fp_of_int_def fp_of_rat_def)
qed

lemma fval_of_int:
  assumes "\<bar>i\<bar> < 2 ^ nat (fp_prec F)" and "fp_low F \<le> 0" and "0 < fp_prec F" and "fp_prec F \<le> fp_top F"
  shows "fval (fp_of_int F i) = of_int i"
  by (simp add: fp_of_int_exact [OF assms] fval_def)

section \<open>Patterns\<close>

lemma float_bits_parts:
  obtains s e m where "0 \<le> e" "e < 256" "0 \<le> m" "m < 2 ^ 23"
    "uint (w :: u32) = (if s then 2 ^ 31 else 0) + e * 2 ^ 23 + m"
    "float_of_bits w =
      (if e = 255 then if m = 0 then FInf s else FNaN
       else if e = 0 then FNum s (of_int m * 2 powi (-149))
       else FNum s (of_int (2 ^ 23 + m) * 2 powi (e - 150)))"
proof -
  let ?n = "uint w"
  have n: "?n < 4294967296" "0 \<le> ?n" using uint_bounded [of w] by simp_all
  have dm: "?n div 8388608 * 8388608 + ?n mod 8388608 = ?n" "0 \<le> ?n mod 8388608" "?n mod 8388608 < 8388608"
    by (rule div_mult_mod_eq) simp_all
  then have q: "0 \<le> ?n div 8388608" "?n div 8388608 < 512" using n by linarith+
  have "?n div 8388608 mod 256 = (if 256 \<le> ?n div 8388608 then ?n div 8388608 - 256 else ?n div 8388608)"
    using q mod_pos_pos_trivial [of "?n div 8388608" 256] mod_pos_pos_trivial [of "?n div 8388608 - 256" 256]
      minus_mod_self2 [of "?n div 8388608" 256] by (cases "256 \<le> ?n div 8388608") simp_all
  moreover have "2147483648 \<le> ?n \<longleftrightarrow> 256 \<le> ?n div 8388608" using dm by linarith
  ultimately have "?n = (if 2 ^ 31 \<le> ?n then 2 ^ 31 else 0) + (?n div 2 ^ 23 mod 256) * 2 ^ 23 + ?n mod 2 ^ 23"
    using dm(1) by simp
  then show thesis
    using that [of "?n div 2 ^ 23 mod 256" "?n mod 2 ^ 23" "2 ^ 31 \<le> ?n"]
    by (simp only: float_of_bits_def Let_def) simp
qed

lemma representableI:
  "0 \<le> m \<Longrightarrow> m < 2 ^ nat (fp_prec F) \<Longrightarrow> fp_low F \<le> e \<Longrightarrow> representable F (of_int m * 2 powi e)"
  unfolding representable_def by blast

lemma significand_bounds:
  assumes "0 \<le> m" and "m < 2 ^ 23"
  shows "2 powi (e - 127) \<le> (of_int (2 ^ 23 + m) * 2 powi (e - 150) :: rat)"
    and "of_int (2 ^ 23 + m) * 2 powi (e - 150) < (2 :: rat) powi (e - 127 + 1)"
proof -
  have s: "(2 :: rat) powi (e - 127) = 2 powi 23 * 2 powi (e - 150)" "(2 :: rat) powi (e - 127 + 1) = 2 powi 24 * 2 powi (e - 150)"
    by (simp_all add: powi_add [symmetric] del: power_int_numeral)
  have b: "(2 :: rat) powi 23 \<le> of_int (2 ^ 23 + m)" "of_int (2 ^ 23 + m) < (2 :: rat) powi 24"
    using assms by (simp_all flip: of_int_less_iff)
  show "2 powi (e - 127) \<le> (of_int (2 ^ 23 + m) * 2 powi (e - 150) :: rat)"
    unfolding s by (rule mult_right_mono [OF b(1)]) simp
  show "of_int (2 ^ 23 + m) * 2 powi (e - 150) < (2 :: rat) powi (e - 127 + 1)"
    unfolding s by (rule mult_strict_right_mono [OF b(2)]) simp
qed

lemma subnormal_bound:
  assumes "m < 2 ^ 23"
  shows "of_int m * 2 powi (-149) < (2 :: rat) powi (-126)"
proof -
  have s: "(2 :: rat) powi (-126) = 2 powi 23 * 2 powi (-149)"
    unfolding powi_add [symmetric] by simp
  have "(of_int m :: rat) < 2 powi 23" using assms by (simp flip: of_int_less_iff)
  then show ?thesis unfolding s by (rule mult_strict_right_mono) simp
qed

text \<open>Every pattern but those of a NaN is the pattern of the number it stands for.\<close>

lemma bits_of_float_of_bits:
  assumes "float_of_bits w \<noteq> FNaN"
  shows "bits_of_float (float_of_bits w) = w"
proof -
  obtain s e m where e: "0 \<le> e" "e < 256" and m: "0 \<le> m" "m < 2 ^ 23"
    and u: "uint w = (if s then 2 ^ 31 else 0) + e * 2 ^ 23 + m"
    and f: "float_of_bits w =
      (if e = 255 then if m = 0 then FInf s else FNaN
       else if e = 0 then FNum s (of_int m * 2 powi (-149))
       else FNum s (of_int (2 ^ 23 + m) * 2 powi (e - 150)))"
    by (rule float_bits_parts)
  have w: "w = word_of_int ((if s then 2 ^ 31 else 0) + e * 2 ^ 23 + m)" unfolding u [symmetric] by simp
  consider "e = 255" "m = 0" | "e = 0" | "0 < e" "e < 255" using assms e by (force simp: f)
  then show ?thesis
  proof cases
    case 1
    then show ?thesis unfolding f by (simp add: bits_of_float_def w)
  next
    case 2
    then show ?thesis using subnormal_bound [OF m(2)] unfolding f by (simp add: bits_of_float_def w)
  next
    case 3
    let ?r = "of_int (2 ^ 23 + m) * 2 powi (e - 150) :: rat"
    note b = significand_bounds [OF m, of e]
    have "(2 :: rat) powi (-126) \<le> 2 powi (e - 127)" using 3 by (simp only: powi_le_iff)
    then have big: "\<not> ?r < 2 powi (-126)" using b(1) by linarith
    have fl: "\<lfloor>?r / 2 powi (e - 127 - 23)\<rfloor> = 2 ^ 23 + m" by (simp del: of_int_add of_int_power)
    have "bits_of_float (float_of_bits w) = word_of_int ((if s then 2 ^ 31 else 0)
        + ((e - 127 + 126) * 2 ^ 23 + \<lfloor>?r / 2 powi (e - 127 - 23)\<rfloor>))"
    proof -
      have n: "float_of_bits w = FNum s ?r" using 3 by (simp add: f)
      show ?thesis unfolding n bits_of_float_def fp.case rat_log2_unique [OF b] using big by (simp only: if_False)
    qed
    also have "\<dots> = w" unfolding fl w by (rule arg_cong [of _ _ word_of_int]) (simp add: algebra_simps)
    finally show ?thesis .
  qed
qed

lemma float_of_bits_exact: "exact binary32 (float_of_bits w)"
proof -
  obtain s e m where e: "0 \<le> e" "e < 256" and m: "0 \<le> m" "m < 2 ^ 23"
    and f: "float_of_bits w =
      (if e = 255 then if m = 0 then FInf s else FNaN
       else if e = 0 then FNum s (of_int m * 2 powi (-149))
       else FNum s (of_int (2 ^ 23 + m) * 2 powi (e - 150)))"
    by (rule float_bits_parts)
  have top: "(2 :: rat) powi (-126) \<le> 2 powi 128" "e < 255 \<Longrightarrow> (2 :: rat) powi (e - 127 + 1) \<le> 2 powi 128"
    by (simp_all only: powi_le_iff)
  consider "e = 255" | "e = 0" | "0 < e" "e < 255" using e by linarith
  then show ?thesis
  proof cases
    case 2
    have "representable binary32 (of_int m * 2 powi (-149))" using m by (intro representableI) simp_all
    moreover have "of_int m * 2 powi (-149) < (2 :: rat) powi 128" using subnormal_bound [OF m(2)] top(1) by linarith
    moreover have "(0 :: rat) \<le> of_int m * 2 powi (-149)" using m by simp
    ultimately show ?thesis using 2 by (simp only: f exact_def fp.case format_simps) simp
  next
    case 3
    have "representable binary32 (of_int (2 ^ 23 + m) * 2 powi (e - 150))" using m 3 by (intro representableI) simp_all
    moreover have "of_int (2 ^ 23 + m) * 2 powi (e - 150) < (2 :: rat) powi 128"
      using significand_bounds(2) [OF m, of e] top(2) 3 by linarith
    moreover have "(0 :: rat) \<le> of_int (2 ^ 23 + m) * 2 powi (e - 150)" using m by simp
    ultimately show ?thesis using 3 by (simp only: f exact_def fp.case format_simps) simp
  qed (simp add: f exact_def)
qed

end
