(* ===== verification/Context.thy ===== *)
theory Context
  imports Frame Ieee
begin

text \<open>
  The data model of the library: the configuration structures of lib/modbusmq_config.h and
  the context, queue and timer structures of lib/modbusmq_internal.h.

  C \<open>float\<close> and \<open>double\<close> fields are the numbers of theory Ieee; the union of the last
  published value and the hash of the last published text is its 32-bit pattern. The linked lists of requests and of
  timers are Isabelle lists, head first. What the library gets from the operating system is
  part of the context too, so that every operation stays a function: the clock
  (\<open>clock\<close>, one reading per \<open>millitime()\<close> call), the bytes waiting in the receive buffer
  of the descriptor (\<open>line_in\<close>), the bursts that arrive while a flush waits for silence
  (\<open>line_late\<close>), the number of bytes the next write accepts (\<open>line_room\<close>), whether the
  descriptor fails (\<open>line_fault\<close>) and the bytes put on the wire (\<open>line_out\<close>). The callbacks
  are recorded in the order they are made (\<open>events\<close>). \<open>libc_strerror\<close> is the C library's text
  for an \<open>errno\<close>.
\<close>

section \<open>Configuration\<close>

datatype modbusmq_data_format_e =
    format_unknown | format_a | format_ab | format_ba | format_int8
  | format_int16_ab | format_int16_ba | format_abcd | format_badc
  | format_uint32_abcd | format_uint32_badc
  | format_float_ba | format_float_abcd | format_float_badc | format_float_dcba
  | format_float_cdab
  | format_ascii_ab | format_ascii_ba | format_bcd_ab | format_bcd_ba
  | format_version_ab | format_version_abcd | format_version_regs
  | format_date_ymd_abcd | format_datetime_regs
  | format_epoch32_abcd | format_epoch32_badc

datatype modbusmq_query_mode_e = query_mode_parallell | query_mode_series | query_mode_rounds

datatype modbusmq_tier_e = tier_fast | tier_deep

record modbusmq_channel_t =
  ch_offset :: int
  ch_length :: int
  ch_format :: modbusmq_data_format_e
  ch_add :: int
  ch_mod :: int
  ch_mul :: int
  ch_topic :: "string option"
  ch_value :: fp
  ch_value_text :: "string option"
  ch_timefmt :: "string option"
  ch_min_change :: fp
  ch_min_change_rel :: fp
  ch_min_interval :: int
  ch_max_interval :: int
  ch_last :: u32
  ch_last_publish_ms :: millitime_t
  ch_decimals :: int
  ch_has_decimals :: bool
  ch_has_length :: bool
  ch_localtime :: bool
  ch_retain :: bool
  ch_has_retain :: bool
  ch_qos :: int
  ch_has_qos :: bool
  ch_on_change :: bool
  ch_has_on_change :: bool
  ch_has_min_change :: bool
  ch_has_min_change_rel :: bool
  ch_has_min_interval :: bool
  ch_has_max_interval :: bool
  ch_published :: bool

record modbusmq_input_t =
  in_slave :: int
  in_type :: int
  in_address :: int
  in_address_offset :: int
  in_naddress :: int
  in_interval :: int
  in_tier :: modbusmq_tier_e
  in_module :: int
  in_channels :: "modbusmq_channel_t list"
  in_on_change :: bool
  in_min_change :: fp
  in_min_change_rel :: fp
  in_min_interval :: int
  in_max_interval :: int
  in_has_on_change :: bool
  in_has_min_change :: bool
  in_has_min_change_rel :: bool
  in_has_min_interval :: bool
  in_has_max_interval :: bool

record modbusmq_write_channel_t =
  wc_name :: "string option"
  wc_offset :: int
  wc_format :: modbusmq_data_format_e
  wc_length :: int
  wc_add :: int
  wc_mod :: int
  wc_mul :: int
  wc_value :: fp
  wc_has_value :: bool

record modbusmq_write_t =
  wr_name :: "string option"
  wr_slave :: int
  wr_module :: int
  wr_type :: int
  wr_function :: int
  wr_address :: int
  wr_format :: modbusmq_data_format_e
  wr_length :: int
  wr_add :: int
  wr_mod :: int
  wr_mul :: int
  wr_on_value :: int
  wr_off_value :: int
  wr_topic :: "string option"
  wr_naddress :: int
  wr_channels :: "modbusmq_write_channel_t list"
  wr_ack :: bool
  wr_ack_topic :: "string option"
  wr_has_slave :: bool
  wr_has_address :: bool
  wr_has_on_value :: bool
  wr_has_off_value :: bool
  wr_has_naddress :: bool
  wr_has_defaults :: bool
  wr_has_ack :: bool

record modbusmq_config_t =
  config_name :: "string option"
  config_version :: "string option"
  cfg_connect :: "string option"
  cfg_baudrate :: int
  cfg_parity :: char
  cfg_stopbit :: int
  cfg_databit :: int
  cfg_rts_delay_us :: int
  cfg_frame_timeout_ms :: int
  slave_retry_max_ms :: int
  na_value :: u16
  frame_delay_ms :: int
  offset_size :: int
  query_mode :: modbusmq_query_mode_e
  round_interval_ms :: int
  inputs :: "modbusmq_input_t list"
  cfg_writes :: "modbusmq_write_t list"
  module_count :: int
  module_slave_first :: int
  mqtt_name :: "string option"
  mqtt_connect :: "string option"
  mqtt_topic_prefix :: "string option"
  mqtt_retain :: bool
  mqtt_qos :: int
  mqtt_ack :: bool
  publish_on_change :: bool
  publish_min_change :: fp
  publish_min_change_rel :: fp
  publish_min_interval :: int
  publish_max_interval :: int
  has_publish_on_change :: bool
  has_publish_min_change :: bool
  has_publish_min_change_rel :: bool
  has_publish_min_interval :: bool
  has_publish_max_interval :: bool
  has_na_value :: bool
  raw_write :: bool

text \<open>What \<open>memset(..., 0, ...)\<close> leaves in each of them.\<close>

definition channel_zero :: modbusmq_channel_t where
  "channel_zero =
     \<lparr>ch_offset = 0, ch_length = 0, ch_format = format_unknown, ch_add = 0, ch_mod = 0, ch_mul = 0,
      ch_topic = None, ch_value = fzero, ch_value_text = None, ch_timefmt = None, ch_min_change = fzero,
      ch_min_change_rel = fzero, ch_min_interval = 0, ch_max_interval = 0, ch_last = 0,
      ch_last_publish_ms = 0, ch_decimals = 0, ch_has_decimals = False, ch_has_length = False,
      ch_localtime = False, ch_retain = False, ch_has_retain = False, ch_qos = 0, ch_has_qos = False,
      ch_on_change = False, ch_has_on_change = False, ch_has_min_change = False,
      ch_has_min_change_rel = False, ch_has_min_interval = False, ch_has_max_interval = False,
      ch_published = False\<rparr>"

definition input_zero :: modbusmq_input_t where
  "input_zero =
     \<lparr>in_slave = 0, in_type = 0, in_address = 0, in_address_offset = 0, in_naddress = 0, in_interval = 0,
      in_tier = tier_fast, in_module = 0, in_channels = [], in_on_change = False, in_min_change = fzero,
      in_min_change_rel = fzero, in_min_interval = 0, in_max_interval = 0, in_has_on_change = False,
      in_has_min_change = False, in_has_min_change_rel = False, in_has_min_interval = False,
      in_has_max_interval = False\<rparr>"

definition write_channel_zero :: modbusmq_write_channel_t where
  "write_channel_zero =
     \<lparr>wc_name = None, wc_offset = 0, wc_format = format_unknown, wc_length = 0, wc_add = 0, wc_mod = 0,
      wc_mul = 0, wc_value = fzero, wc_has_value = False\<rparr>"

definition write_zero :: modbusmq_write_t where
  "write_zero =
     \<lparr>wr_name = None, wr_slave = 0, wr_module = 0, wr_type = 0, wr_function = 0, wr_address = 0,
      wr_format = format_unknown, wr_length = 0, wr_add = 0, wr_mod = 0, wr_mul = 0, wr_on_value = 0,
      wr_off_value = 0, wr_topic = None, wr_naddress = 0, wr_channels = [], wr_ack = False,
      wr_ack_topic = None, wr_has_slave = False, wr_has_address = False, wr_has_on_value = False,
      wr_has_off_value = False, wr_has_naddress = False, wr_has_defaults = False, wr_has_ack = False\<rparr>"

definition config_zero :: modbusmq_config_t where
  "config_zero =
     \<lparr>config_name = None, config_version = None, cfg_connect = None, cfg_baudrate = 0, cfg_parity = CHR 0x00,
      cfg_stopbit = 0, cfg_databit = 0, cfg_rts_delay_us = 0, cfg_frame_timeout_ms = 0,
      slave_retry_max_ms = 0, na_value = 0, frame_delay_ms = 0, offset_size = 0,
      query_mode = query_mode_parallell, round_interval_ms = 0, inputs = [], cfg_writes = [],
      module_count = 0, module_slave_first = 0, mqtt_name = None, mqtt_connect = None,
      mqtt_topic_prefix = None, mqtt_retain = False, mqtt_qos = 0, mqtt_ack = False,
      publish_on_change = False, publish_min_change = fzero, publish_min_change_rel = fzero,
      publish_min_interval = 0, publish_max_interval = 0, has_publish_on_change = False,
      has_publish_min_change = False, has_publish_min_change_rel = False,
      has_publish_min_interval = False, has_publish_max_interval = False, has_na_value = False,
      raw_write = False\<rparr>"

section \<open>Transports, queue and timers\<close>

record modbusmq_tcp_context_t =
  tcp_hostname :: string
  tcp_port :: int
  transaction_id :: int

record modbusmq_rtu_context_t =
  rtu_device :: string
  rtu_baud :: int
  rtu_parity :: char
  rtu_databit :: int
  rtu_stopbit :: int
  onebyte_delay_us :: "64 word"
  frame_delay_us :: "64 word"

datatype transport = Tcp modbusmq_tcp_context_t | Rtu modbusmq_rtu_context_t

abbreviation (input) MODBUSMQ_MSG_POST :: int where "MODBUSMQ_MSG_POST \<equiv> 1"
abbreviation (input) MODBUSMQ_MSG_SUBSCRIBE :: int where "MODBUSMQ_MSG_SUBSCRIBE \<equiv> 2"

record modbusmq_msg_wrapper_t =
  flags :: int
  head_since_ms :: millitime_t
  wmsg :: modbusmq_msg_t

record modbusmq_timer_t =
  timer_id :: int
  timer_start :: millitime_t
  timer_next_time :: millitime_t
  timer_interval :: millitime_t
  orig_interval :: millitime_t
  timer_tier :: modbusmq_tier_e
  timer_slave :: int
  is_once :: bool
  misses :: byte
  unresponsive :: bool
  retry_ms :: u32
  retry_at :: millitime_t
  tmsg :: modbusmq_msg_t

text \<open>What the library hands to its caller, in order.\<close>

datatype event =
    Ev_Message modbusmq_msg_t
  | Ev_Subscribe modbusmq_msg_t nat
  | Ev_Error modbusmq_msg_t int
  | Ev_Raw_Reply string

record modbusmq_context_t =
  slave_id :: int
  fd :: int
  rts_delay_us :: "64 word"
  last_write_ms :: millitime_t
  last_read_ms :: millitime_t
  frame_timeout_ms :: millitime_t
  msg_queue :: "modbusmq_msg_wrapper_t list"
  timers :: "modbusmq_timer_t list"
  round_active :: bool
  round_start_ms :: millitime_t
  round_count :: u32
  round_last_ms :: millitime_t
  round_deep_slave :: int
  round_focus :: int
  req_header_min :: int
  res_header_min :: int
  resync_pending :: bool
  has_message_cb :: bool
  has_subscribe_cb :: bool
  has_error_cb :: bool
  raw_cb :: bool
  raw_text :: string
  raw_req_id :: u32
  raw_count :: u16
  raw_fc :: byte
  req_id_next :: u32
  config :: "modbusmq_config_t option"
  link :: transport
  header_length :: int
  tx :: u32
  rx :: u32
  err :: u32
  timer_id_next :: int
  libc_strerror :: "int \<Rightarrow> string"
  clock :: "nat \<Rightarrow> millitime_t"
  ticks :: nat
  line_in :: "byte list"
  line_late :: "byte list list"
  line_room :: nat
  line_fault :: bool
  line_out :: "byte list"
  events :: "event list"

section \<open>Clock and callbacks\<close>

text \<open>\<open>millitime()\<close>: the next reading of the clock.\<close>

definition millitime :: "modbusmq_context_t \<Rightarrow> millitime_t \<times> modbusmq_context_t" where
  "millitime c = (clock c (ticks c), c\<lparr>ticks := Suc (ticks c)\<rparr>)"

definition emit :: "event \<Rightarrow> modbusmq_context_t \<Rightarrow> modbusmq_context_t" where
  "emit e c = c\<lparr>events := events c @ [e]\<rparr>"

text \<open>\<open>modbusmq_next_req_id\<close>: request ids count up and skip 0 when they wrap.\<close>

definition modbusmq_next_req_id :: "modbusmq_context_t \<Rightarrow> u32 \<times> modbusmq_context_t" where
  "modbusmq_next_req_id c =
     (let n = req_id_next c + 1; n' = (if n = 0 then 1 else n)
      in (n', c\<lparr>req_id_next := n'\<rparr>))"

text \<open>\<open>modbusmq_timer_id\<close>: the static counter behind the subscription ids.\<close>

definition modbusmq_timer_id :: "modbusmq_context_t \<Rightarrow> int \<times> modbusmq_context_t" where
  "modbusmq_timer_id c = (timer_id_next c + 1, c\<lparr>timer_id_next := timer_id_next c + 1\<rparr>)"

lemma millitime_simps [simp]:
  "fst (millitime c) = clock c (ticks c)" "snd (millitime c) = c\<lparr>ticks := Suc (ticks c)\<rparr>"
  by (simp_all add: millitime_def)

lemma next_req_id_nonzero: "fst (modbusmq_next_req_id c) \<noteq> 0"
  by (simp add: modbusmq_next_req_id_def Let_def)

lemma next_req_id_state [simp]:
  "snd (modbusmq_next_req_id c) = c\<lparr>req_id_next := fst (modbusmq_next_req_id c)\<rparr>"
  by (simp add: modbusmq_next_req_id_def Let_def)

section \<open>Plain setters and getters of lib/modbusmq.c\<close>

text \<open>
  The \<open>NULL\<close> context guards of the C entry points have no counterpart: a context is a value
  here. The guards on the other arguments are kept; \<open>-1\<close> is the C return code.
\<close>

definition modbusmq_set_slave :: "int \<Rightarrow> modbusmq_context_t \<Rightarrow> modbusmq_context_t" where
  "modbusmq_set_slave s c = c\<lparr>slave_id := s\<rparr>"

definition modbusmq_get_slave :: "modbusmq_context_t \<Rightarrow> int" where
  "modbusmq_get_slave c = slave_id c"

definition modbusmq_set_config ::
    "modbusmq_config_t option \<Rightarrow> modbusmq_context_t \<Rightarrow> modbusmq_context_t" where
  "modbusmq_set_config cfg c = c\<lparr>config := cfg\<rparr>"

definition modbusmq_frame_timeout :: "int \<Rightarrow> modbusmq_context_t \<Rightarrow> int \<times> modbusmq_context_t" where
  "modbusmq_frame_timeout timeout_ms c =
     (if timeout_ms < 0 then (-1, c)
      else (0, c\<lparr>frame_timeout_ms := word_of_int timeout_ms\<rparr>))"

end
