(* ===== verification/Crc.thy ===== *)
theory Crc
  imports Prelude
begin

text \<open>
  The CRC-16 of RTU frames, \<open>modbusmq_rtu_crc16\<close> of lib/modbusmq_rtu.c: the bit step, the
  byte step and the loop over the buffer, with the algebra behind the error detection of the
  acceptance check: the steps are linear and injective, a message followed by its own CRC
  has residue 0, and two messages that differ in at most two neighbouring bytes have
  different CRCs.
\<close>

section \<open>CRC-16\<close>

definition crc16_bit :: "u16 \<Rightarrow> u16" where
  "crc16_bit crc =
     (if (crc AND 0x0001) \<noteq> 0 then (drop_bit 1 crc) XOR 0xA001 else drop_bit 1 crc)"

definition crc16_byte :: "u16 \<Rightarrow> byte \<Rightarrow> u16" where
  "crc16_byte crc b = (crc16_bit ^^ 8) (crc XOR ucast b)"

fun crc16_loop :: "u16 \<Rightarrow> byte list \<Rightarrow> u16" where
  "crc16_loop crc [] = crc"
| "crc16_loop crc (b # bs) = crc16_loop (crc16_byte crc b) bs"

definition modbusmq_rtu_crc16 :: "byte list \<Rightarrow> int \<Rightarrow> u16" where
  "modbusmq_rtu_crc16 bs buflen = crc16_loop 0xFFFF (take (nat buflen) bs)"


section \<open>Linearity and injectivity of the steps\<close>

lemma bit_drop_one: "bit (drop_bit (Suc 0) (c :: u16)) i = bit c (Suc i)"
  by (simp add: bit_simps)

lemma crc16_bit_odd: "crc16_bit c = (if bit c 0 then (drop_bit 1 c) XOR 0xA001 else drop_bit 1 c)"
  by (simp add: crc16_bit_def and_one_eq even_word_iff bit_0 flip: even_iff_mod_2_eq_zero)

lemma crc16_bit_xor: "crc16_bit (a XOR b) = crc16_bit a XOR crc16_bit b"
  by (rule bit_word_eqI) (auto simp: crc16_bit_odd bit_simps)

lemma top_bit_poly: "bit (0xA001 :: u16) 15"
  by simp

text \<open>The top bit after a step tells whether the polynomial was folded in.\<close>

lemma crc16_bit_top: "bit (crc16_bit c) 15 = bit c 0"
  using top_bit_poly by (auto simp: crc16_bit_odd bit_simps dest: bit_imp_le_length)

lemma crc16_bit_undo:
  assumes "\<not> bit (crc16_bit c) 15"
  shows "c = push_bit 1 (crc16_bit c)"
proof -
  have c0: "\<not> bit c 0" using assms by (simp add: crc16_bit_top)
  have "c = push_bit 1 (drop_bit 1 c)"
  proof (rule bit_word_eqI)
    fix i assume "i < LENGTH(16)"
    then show "bit c i = bit (push_bit 1 (drop_bit 1 c)) i"
      using c0 by (cases i) (auto simp: bit_simps simp del: push_bit_Suc)
  qed
  then show ?thesis using c0 by (simp add: crc16_bit_odd)
qed

lemma crc16_bit_zero [simp]: "crc16_bit 0 = 0"
  by (simp add: crc16_bit_def)

lemma crc16_bit_eq_zero: "crc16_bit c = 0 \<Longrightarrow> c = 0"
  using crc16_bit_undo [of c] by simp

lemma crc16_bits_xor: "(crc16_bit ^^ n) (a XOR b) = (crc16_bit ^^ n) a XOR (crc16_bit ^^ n) b"
  by (induction n) (simp_all add: crc16_bit_xor)

lemma crc16_bits_zero [simp]: "(crc16_bit ^^ n) 0 = 0"
  by (induction n) simp_all

lemma crc16_bits_eq_zero: "(crc16_bit ^^ n) c = 0 \<Longrightarrow> c = 0"
  by (induction n) (simp_all add: crc16_bit_eq_zero)

lemma word_xor_eq_zero: "a XOR b = 0 \<longleftrightarrow> a = b" for a b :: "'a::len word"
  by (metis xor.assoc xor.left_neutral xor.right_neutral xor_self_eq)

lemma crc16_bits_inject: "(crc16_bit ^^ n) a = (crc16_bit ^^ n) b \<longleftrightarrow> a = b"
proof
  assume "(crc16_bit ^^ n) a = (crc16_bit ^^ n) b"
  then have "(crc16_bit ^^ n) (a XOR b) = 0" by (simp add: crc16_bits_xor)
  then have "a XOR b = 0" by (rule crc16_bits_eq_zero)
  then show "a = b" by (simp add: word_xor_eq_zero)
qed simp

lemma xor_right_cancel: "a XOR c = b XOR c \<longleftrightarrow> a = b" for a b c :: "'a::len word"
  by (metis xor.assoc xor.right_neutral xor_self_eq)

lemma xor_left_cancel: "c XOR a = c XOR b \<longleftrightarrow> a = b" for a b c :: "'a::len word"
  by (metis xor.assoc xor.left_neutral xor_self_eq)

lemma xor_swap: "a XOR b = a' XOR b' \<Longrightarrow> a XOR a' = b XOR b'" for a b :: "'a::len word"
  by (simp add: bit_eq_iff bit_xor_iff) blast

lemma uint_ucast_byte: "uint (ucast b :: u16) = uint b" for b :: byte
  by (simp add: uint_up_ucast is_up)

lemma ucast_byte_inject: "(ucast a :: u16) = ucast b \<longleftrightarrow> a = b" for a b :: byte
  by (simp add: word_uint_eq_iff uint_ucast_byte)

lemma crc16_byte_inject_crc: "crc16_byte c b = crc16_byte d b \<longleftrightarrow> c = d"
  by (simp add: crc16_byte_def crc16_bits_inject xor_right_cancel)

lemma crc16_byte_inject_byte: "crc16_byte c a = crc16_byte c b \<longleftrightarrow> a = b"
  by (simp add: crc16_byte_def crc16_bits_inject xor_left_cancel ucast_byte_inject)

section \<open>The loop\<close>

lemma crc16_loop_append: "crc16_loop c (xs @ ys) = crc16_loop (crc16_loop c xs) ys"
  by (induction xs arbitrary: c) simp_all

lemma crc16_loop_inject: "crc16_loop c xs = crc16_loop d xs \<longleftrightarrow> c = d"
  by (induction xs arbitrary: c d) (simp_all add: crc16_byte_inject_crc)

lemma modbusmq_rtu_crc16_all: "n = int (length bs) \<Longrightarrow> modbusmq_rtu_crc16 bs n = crc16_loop 0xFFFF bs"
  by (simp add: modbusmq_rtu_crc16_def)

section \<open>The residue of a message with its CRC\<close>

text \<open>
  While the low bits of the register are 0 a step only shifts. A register XORed with its own
  low byte therefore moves its high byte down in eight steps.
\<close>

lemma crc16_bits_shift:
  assumes "\<And>i. i < n \<Longrightarrow> \<not> bit c i"
  shows "(crc16_bit ^^ n) c = drop_bit n c"
  using assms
proof (induction n)
  case (Suc n)
  then have "(crc16_bit ^^ n) c = drop_bit n c" by simp
  moreover have "\<not> bit (drop_bit n c) 0" using Suc.prems [of n] by (simp add: bit_simps)
  then have "crc16_bit (drop_bit n c) = drop_bit 1 (drop_bit n c)" by (simp add: crc16_bit_odd)
  ultimately show ?case by simp
qed simp

lemma crc16_byte_low:
  assumes "\<And>i. i < 8 \<Longrightarrow> bit c i = bit b i"
  shows "crc16_byte c b = drop_bit 8 c"
proof -
  have "(crc16_bit ^^ 8) (c XOR ucast b) = drop_bit 8 (c XOR ucast b)"
    by (rule crc16_bits_shift) (use assms in \<open>auto simp: bit_simps\<close>)
  also have "\<dots> = drop_bit 8 c"
    by (rule bit_word_eqI) (auto simp: bit_simps dest: bit_imp_le_length)
  finally show ?thesis by (simp add: crc16_byte_def)
qed

lemma bit_lo8: "i < 8 \<Longrightarrow> bit (lo8 (uint c)) i = bit c i" for c :: u16
  by (simp add: lo8_take_bit bit_simps)

lemma bit_hi8: "i < 8 \<Longrightarrow> bit (hi8 (uint c)) i = bit c (8 + i)" for c :: u16
  by (auto simp: hi8_def bit_simps ac_simps)

text \<open>A message followed by its CRC, low byte first, has the CRC 0.\<close>

lemma crc16_residue: "crc16_loop c [lo8 (uint c), hi8 (uint c)] = 0"
proof -
  have lo: "crc16_byte c (lo8 (uint c)) = drop_bit 8 c"
    by (rule crc16_byte_low) (simp add: bit_lo8)
  have "crc16_byte (drop_bit 8 c) (hi8 (uint c)) = drop_bit 8 (drop_bit 8 c)"
    by (rule crc16_byte_low) (simp add: bit_hi8 bit_simps)
  also have "\<dots> = 0"
    by (rule bit_word_eqI) (auto simp: bit_simps dest: bit_imp_le_length)
  finally show ?thesis by (simp add: lo)
qed

section \<open>Error detection\<close>

text \<open>A zero high byte after eight steps means that nothing was folded in on the way.\<close>

lemma crc16_bits_undo:
  assumes "\<And>i. 16 - n \<le> i \<Longrightarrow> \<not> bit ((crc16_bit ^^ n) c) i" and "n \<le> 16"
  shows "c = push_bit n ((crc16_bit ^^ n) c)"
  using assms
proof (induction n arbitrary: c)
  case (Suc n)
  let ?d = "(crc16_bit ^^ n) c"
  have "\<not> bit (crc16_bit ?d) 15" using Suc.prems by simp
  then have d: "?d = push_bit 1 (crc16_bit ?d)" by (rule crc16_bit_undo)
  have "\<not> bit ?d i" if "16 - n \<le> i" for i
  proof
    assume b: "bit ?d i"
    then have "i < 16" by (auto dest: bit_imp_le_length)
    from b have "bit (push_bit 1 (crc16_bit ?d)) i" using d by simp
    then have "bit (crc16_bit ?d) (i - 1)" by (simp add: bit_push_bit_iff del: push_bit_Suc)
    moreover have "16 - Suc n \<le> i - 1" using that \<open>i < 16\<close> Suc.prems(2) by linarith
    ultimately show False using Suc.prems(1) by simp
  qed
  then have "c = push_bit n ?d" using Suc.IH Suc.prems(2) by simp
  also have "\<dots> = push_bit n (push_bit 1 (crc16_bit ?d))" using d by simp
  also have "\<dots> = push_bit (Suc n) ((crc16_bit ^^ Suc n) c)"
    by (simp add: ac_simps del: push_bit_Suc)
  finally show ?case .
qed simp

lemma ucast_xor_byte: "(ucast (a XOR b) :: u16) = ucast a XOR ucast b" for a b :: byte
  by (rule bit_word_eqI) (auto simp: bit_simps)

lemma crc16_bits_byte_overlap:
  assumes "(crc16_bit ^^ 8) (ucast x :: u16) = ucast (y :: byte)"
  shows "x = (0 :: byte)"
proof -
  have "(ucast x :: u16) = push_bit 8 ((crc16_bit ^^ 8) (ucast x))"
    by (rule crc16_bits_undo) (auto simp: assms bit_simps dest: bit_imp_le_length [of y])
  then have x: "(ucast x :: u16) = push_bit 8 (ucast y)" by (simp add: assms)
  have "\<not> bit x i" for i
  proof
    assume b: "bit x i"
    then have "i < 8" by (auto dest: bit_imp_le_length)
    moreover have "bit (ucast x :: u16) i" using b \<open>i < 8\<close> by (simp add: bit_simps)
    ultimately show False using x by (simp add: bit_simps)
  qed
  then show ?thesis by (intro bit_word_eqI) simp
qed

text \<open>The CRC register after two bytes determines both.\<close>

lemma crc16_two_bytes_inject:
  assumes "crc16_loop c [a, b] = crc16_loop c [a', b']"
  shows "a = a' \<and> b = b'"
proof -
  let ?F = "crc16_bit ^^ 8"
  have "?F (c XOR ucast a) XOR ucast b = ?F (c XOR ucast a') XOR ucast b'"
    using assms by (simp add: crc16_byte_def crc16_bits_inject)
  then have "?F (ucast a) XOR ucast b = ?F (ucast a') XOR (ucast b' :: u16)"
    by (simp add: crc16_bits_xor xor.assoc xor_left_cancel)
  then have "?F (ucast a) XOR ?F (ucast a') = ucast b XOR (ucast b' :: u16)"
    by (rule xor_swap)
  then have "?F (ucast a XOR ucast a') = ucast b XOR (ucast b' :: u16)"
    by (simp add: crc16_bits_xor)
  then have "?F (ucast (a XOR a')) = (ucast (b XOR b') :: u16)"
    by (simp add: ucast_xor_byte)
  then have "a XOR a' = 0" by (rule crc16_bits_byte_overlap)
  then have "a = a'" by (simp add: word_xor_eq_zero)
  then show ?thesis using assms by (simp add: crc16_byte_inject_byte)
qed

lemma crc16_detects_burst:
  assumes "(a, b) \<noteq> (a', b')"
  shows "crc16_loop c (pre @ [a, b] @ post) \<noteq> crc16_loop c (pre @ [a', b'] @ post)"
proof
  assume "crc16_loop c (pre @ [a, b] @ post) = crc16_loop c (pre @ [a', b'] @ post)"
  then have "crc16_loop (crc16_loop c pre) [a, b] = crc16_loop (crc16_loop c pre) [a', b']"
    by (simp only: crc16_loop_append crc16_loop_inject)
  then have "a = a' \<and> b = b'" by (rule crc16_two_bytes_inject)
  then show False using assms by simp
qed

end
