(* ===== verification/Rtu.thy ===== *)
theory Rtu
  imports Context Crc
begin

text \<open>
  The RTU transport, lib/modbusmq_rtu.c: the frame getters and builders, sizing and
  matching of a response against its request, recognising a stale frame, and the acceptance
  check. The descriptor operations are in \<open>Line\<close>.

  A function of the C file that changes a frame or message returns the changed one next to
  its return code.
\<close>

section \<open>Reading a frame\<close>

definition modbusmq_rtu_frame_slave :: "modbusmq_frame_t \<Rightarrow> int" where
  "modbusmq_rtu_frame_slave f = uint (getb f 0)"

definition modbusmq_rtu_frame_function :: "modbusmq_frame_t \<Rightarrow> int" where
  "modbusmq_rtu_frame_function f = uint (getb f 1)"

definition modbusmq_rtu_frame_addr :: "modbusmq_frame_t \<Rightarrow> int" where
  "modbusmq_rtu_frame_addr f = be16 (getb f 2) (getb f 3)"

definition modbusmq_rtu_frame_naddr :: "modbusmq_frame_t \<Rightarrow> int" where
  "modbusmq_rtu_frame_naddr f = be16 (getb f 4) (getb f 5)"

definition modbusmq_rtu_frame_nbytes :: "modbusmq_frame_t \<Rightarrow> int" where
  "modbusmq_rtu_frame_nbytes f =
     (if is_writer f then -1
      else if uint (getb f 1) \<in> {MODBUSMQ_READ_COILS, MODBUSMQ_READ_DISCRETE_INPUTS,
              MODBUSMQ_READ_HOLDING_REGISTERS, MODBUSMQ_READ_INPUT_REGISTERS}
      then uint (getb f 2) else -1)"

definition modbusmq_rtu_frame_exception :: "modbusmq_frame_t \<Rightarrow> int" where
  "modbusmq_rtu_frame_exception f =
     (if is_writer f \<or> xmit f < 3 then 0
      else if (getb f 1 AND 0x80) = 0 then 0
      else uint (getb f 2))"

text \<open>Request and answer are taken as \<open>frame[0]\<close> and \<open>frame[1]\<close> here, as the C does.\<close>

definition modbusmq_rtu_msg_exception :: "modbusmq_msg_t \<Rightarrow> int" where
  "modbusmq_rtu_msg_exception m =
     (let writer = frame0 m; reader = frame1 m;
          code = modbusmq_rtu_frame_exception reader
      in if code \<le> 0 then 0
         else if getb reader 0 \<noteq> getb writer 0 then 0
         else if (getb reader 1 AND 0x7f) \<noteq> getb writer 1 then 0
         else code)"

definition modbusmq_rtu_frame_error_code :: "modbusmq_frame_t \<Rightarrow> int" where
  "modbusmq_rtu_frame_error_code f = uint (getb f 2)"

text \<open>\<open>frame->buf + 6\<close> or \<open>frame->buf + 3\<close>: the buffer from that index on.\<close>

definition modbusmq_rtu_frame_data :: "modbusmq_frame_t \<Rightarrow> byte list" where
  "modbusmq_rtu_frame_data f = (if is_writer f then drop 6 (fbuf f) else drop 3 (fbuf f))"

section \<open>Building a request\<close>

definition modbusmq_rtu_frame_init ::
    "modbusmq_context_t \<Rightarrow> int \<Rightarrow> int \<Rightarrow> int \<Rightarrow> modbusmq_frame_t" where
  "modbusmq_rtu_frame_init c function addr naddr =
     (let f = frame_zero\<lparr>is_writer := True\<rparr>;
          f = setb 0 (word_of_int (slave_id c)) f;
          f = setb 1 (word_of_int function) f;
          f = setb 2 (hi8 addr) f;
          f = setb 3 (lo8 addr) f;
          f = setb 4 (hi8 naddr) f;
          f = setb 5 (lo8 naddr) f
      in f\<lparr>flength := 6\<rparr>)"

definition modbusmq_rtu_read_coil_bits :: "modbusmq_context_t \<Rightarrow> int \<Rightarrow> int \<Rightarrow> modbusmq_frame_t" where
  "modbusmq_rtu_read_coil_bits c addr nbits =
     modbusmq_rtu_frame_init c MODBUSMQ_READ_COILS addr nbits"

definition modbusmq_rtu_read_input_bits :: "modbusmq_context_t \<Rightarrow> int \<Rightarrow> int \<Rightarrow> modbusmq_frame_t" where
  "modbusmq_rtu_read_input_bits c addr nbits =
     modbusmq_rtu_frame_init c MODBUSMQ_READ_DISCRETE_INPUTS addr nbits"

definition modbusmq_rtu_read_holding_registers ::
    "modbusmq_context_t \<Rightarrow> int \<Rightarrow> int \<Rightarrow> modbusmq_frame_t" where
  "modbusmq_rtu_read_holding_registers c addr naddr =
     modbusmq_rtu_frame_init c MODBUSMQ_READ_HOLDING_REGISTERS addr naddr"

definition modbusmq_rtu_read_input_registers ::
    "modbusmq_context_t \<Rightarrow> int \<Rightarrow> int \<Rightarrow> modbusmq_frame_t" where
  "modbusmq_rtu_read_input_registers c addr naddr =
     modbusmq_rtu_frame_init c MODBUSMQ_READ_INPUT_REGISTERS addr naddr"

definition modbusmq_rtu_write_coil_bit :: "modbusmq_context_t \<Rightarrow> int \<Rightarrow> int \<Rightarrow> modbusmq_frame_t" where
  "modbusmq_rtu_write_coil_bit c addr value =
     modbusmq_rtu_frame_init c MODBUSMQ_WRITE_SINGLE_COIL addr (if value \<noteq> 0 then 0xff00 else 0)"

definition modbusmq_rtu_write_register :: "modbusmq_context_t \<Rightarrow> int \<Rightarrow> int \<Rightarrow> modbusmq_frame_t" where
  "modbusmq_rtu_write_register c addr value =
     modbusmq_rtu_frame_init c MODBUSMQ_WRITE_SINGLE_REGISTER addr value"

definition modbusmq_rtu_write_coil_bits :: "modbusmq_context_t \<Rightarrow> int \<Rightarrow> int \<Rightarrow> modbusmq_frame_t" where
  "modbusmq_rtu_write_coil_bits c addr nbits =
     modbusmq_rtu_frame_init c MODBUSMQ_WRITE_MULTIPLE_COILS addr nbits"

definition modbusmq_rtu_write_registers :: "modbusmq_context_t \<Rightarrow> int \<Rightarrow> int \<Rightarrow> modbusmq_frame_t" where
  "modbusmq_rtu_write_registers c addr naddr =
     modbusmq_rtu_frame_init c MODBUSMQ_WRITE_MULTIPLE_REGISTERS addr naddr"

definition modbusmq_rtu_write_mask_registers ::
    "modbusmq_context_t \<Rightarrow> int \<Rightarrow> int \<Rightarrow> modbusmq_frame_t" where
  "modbusmq_rtu_write_mask_registers c addr and_mask =
     modbusmq_rtu_frame_init c MODBUSMQ_MASK_WRITE_REGISTER addr and_mask"

text \<open>The CRC goes behind the request, low byte first, and the reader starts at 3 bytes.\<close>

definition modbusmq_rtu_msg_prepare :: "modbusmq_msg_t \<Rightarrow> int \<times> modbusmq_msg_t" where
  "modbusmq_rtu_msg_prepare m =
     (let wi = writer_ix m; ri = reader_ix m;
          writer = frame_at m wi;
          crc = uint (modbusmq_rtu_crc16 (fbuf writer) (flength writer));
          writer = push_byte (lo8 crc) writer;
          writer = push_byte (hi8 crc) writer;
          m = put_frame wi writer m;
          m = put_frame ri ((frame_at m ri)\<lparr>flength := 3\<rparr>) m
      in (flength (frame_at m wi), m))"

section \<open>Matching a response\<close>

definition modbusmq_rtu_expected_nbytes :: "modbusmq_frame_t \<Rightarrow> int" where
  "modbusmq_rtu_expected_nbytes writer =
     (let naddr = modbusmq_rtu_frame_naddr writer; fn = modbusmq_rtu_frame_function writer
      in if fn = MODBUSMQ_READ_COILS \<or> fn = MODBUSMQ_READ_DISCRETE_INPUTS then (naddr + 7) div 8
         else if fn = MODBUSMQ_READ_HOLDING_REGISTERS \<or> fn = MODBUSMQ_READ_INPUT_REGISTERS
         then naddr * 2
         else -1)"

definition modbusmq_rtu_msg_check_header ::
    "modbusmq_context_t \<Rightarrow> modbusmq_msg_t \<Rightarrow> int \<times> modbusmq_msg_t" where
  "modbusmq_rtu_msg_check_header c m =
     (let ri = reader_ix m; writer = writer_of m; reader = reader_of m
      in if xmit reader < 3 then (1, m)
         else if \<not> (xmit reader \<ge> 1 \<and> getb writer 0 = getb reader 0) then (-2, m)
         else if xmit reader \<ge> 2 \<and> getb writer 1 = getb reader 1 then
           (let expected_nbytes = modbusmq_rtu_expected_nbytes writer
            in if expected_nbytes \<ge> 0 \<and> uint (getb reader 2) \<noteq> expected_nbytes then (-4, m)
               else
                 (let newlen =
                        (if expected_nbytes < 0
                         then (if modbusmq_rtu_frame_function writer = MODBUSMQ_MASK_WRITE_REGISTER
                               then 10 else 8)
                         else expected_nbytes + header_length c + 2)
                  in if newlen < 0 \<or> newlen > MODBUSMQ_FRAME_MAX then (-5, m)
                     else (newlen - xmit reader, put_frame ri (reader\<lparr>flength := newlen\<rparr>) m)))
         else if xmit reader \<ge> 2 \<and> getb reader 1 = (getb writer 1 OR 0x80) then
           (let reader' = (if flength reader \<noteq> 5 then reader\<lparr>flength := 5\<rparr> else reader)
            in (flength reader' - xmit reader', put_frame ri reader' m))
         else (-3, m))"

definition modbusmq_rtu_frame_drain ::
    "modbusmq_context_t \<Rightarrow> modbusmq_frame_t \<Rightarrow> int \<times> modbusmq_frame_t" where
  "modbusmq_rtu_frame_drain c f =
     (if xmit f < 2 then (0, f)
      else
        (let function = uint (getb f 1);
             is_read = (function = MODBUSMQ_READ_COILS \<or> function = MODBUSMQ_READ_DISCRETE_INPUTS \<or>
                        function = MODBUSMQ_READ_HOLDING_REGISTERS \<or>
                        function = MODBUSMQ_READ_INPUT_REGISTERS)
         in if (function AND 0x80) = 0 \<and> is_read \<and> xmit f < 3 then (0, f)
            else
              (let len = (if (function AND 0x80) \<noteq> 0 then 5
                          else if is_read then header_length c + uint (getb f 2) + 2
                          else if function = MODBUSMQ_MASK_WRITE_REGISTER then 10 else 8)
               in if len < 4 \<or> len > MODBUSMQ_FRAME_MAX \<or> len < xmit f then (-1, f)
                  else if xmit f < len then (0, f\<lparr>flength := len\<rparr>)
                  else
                    (let crc_res = be16 (getb f (nat (len - 1))) (getb f (nat (len - 2)));
                         crc_compute = uint (modbusmq_rtu_crc16 (fbuf f) (len - 2))
                     in if crc_res \<noteq> crc_compute then (-1, f) else (1, f)))))"

definition modbusmq_rtu_msg_broadcast :: "modbusmq_msg_t \<Rightarrow> bool" where
  "modbusmq_rtu_msg_broadcast m =
     (let writer = writer_of m
      in if flength writer < 2 \<or> getb writer 0 \<noteq> 0 then False
         else uint (getb writer 1) \<in> {MODBUSMQ_WRITE_SINGLE_COIL, MODBUSMQ_WRITE_SINGLE_REGISTER,
                MODBUSMQ_WRITE_MULTIPLE_COILS, MODBUSMQ_WRITE_MULTIPLE_REGISTERS,
                MODBUSMQ_MASK_WRITE_REGISTER})"

definition modbusmq_rtu_msg_check ::
    "modbusmq_context_t \<Rightarrow> modbusmq_msg_t \<Rightarrow> int \<times> modbusmq_msg_t" where
  "modbusmq_rtu_msg_check c m =
     (let (rc, m) = modbusmq_rtu_msg_check_header c m;
          writer = writer_of m; reader = reader_of m
      in if rc < 0 then (rc, m)
         else if xmit writer \<noteq> flength writer then (1, m)
         else if modbusmq_rtu_msg_broadcast m then (0, m)
         else if xmit reader \<noteq> flength reader then (2, m)
         else if flength reader < 4 then (-3, m)
         else if (getb reader 1 AND 0x80) \<noteq> 0 then (-4, m)
         else
           (let crc_res = be16 (getb reader (nat (flength reader - 1)))
                               (getb reader (nat (flength reader - 2)));
                crc_compute = uint (modbusmq_rtu_crc16 (fbuf reader) (flength reader - 2))
            in if crc_res \<noteq> crc_compute then (-2, m) else (0, m)))"

end
