(* ===== verification/Rtu_Facts.thy ===== *)
theory Rtu_Facts
  imports Rtu
begin

text \<open>
  Correctness of the RTU frame operations: what a built and prepared request puts on the wire,
  when a response is accepted, what the two sizing functions do to the reader, and which
  corruptions the acceptance check cannot miss.
\<close>

section \<open>Requests\<close>

lemma rtu_frame_init_fields [simp]:
  "is_writer (modbusmq_rtu_frame_init c fn a n)" "flength (modbusmq_rtu_frame_init c fn a n) = 6"
  "xmit (modbusmq_rtu_frame_init c fn a n) = 0" "\<not> is_tcp (modbusmq_rtu_frame_init c fn a n)"
  "length (fbuf (modbusmq_rtu_frame_init c fn a n)) = 260"
  by (simp_all add: modbusmq_rtu_frame_init_def Let_def)

lemma rtu_frame_init_wf [simp]: "wf_frame (modbusmq_rtu_frame_init c fn a n)"
  by (simp add: wf_frame_def MODBUSMQ_FRAME_MAX_def)

lemma rtu_frame_init_getb [simp]:
  "getb (modbusmq_rtu_frame_init c fn a n) 0 = word_of_int (slave_id c)"
  "getb (modbusmq_rtu_frame_init c fn a n) 1 = word_of_int fn"
  "getb (modbusmq_rtu_frame_init c fn a n) (Suc 0) = word_of_int fn"
  "getb (modbusmq_rtu_frame_init c fn a n) 2 = hi8 a"
  "getb (modbusmq_rtu_frame_init c fn a n) 3 = lo8 a"
  "getb (modbusmq_rtu_frame_init c fn a n) 4 = hi8 n"
  "getb (modbusmq_rtu_frame_init c fn a n) 5 = lo8 n"
  by (simp_all add: modbusmq_rtu_frame_init_def Let_def getb_def)

lemma wire_six:
  assumes "flength f = 6" and "length (fbuf f) = 260"
  shows "wire f = [getb f 0, getb f 1, getb f 2, getb f 3, getb f 4, getb f 5]"
proof (rule list_eq_nthI)
  show "length (wire f) = length [getb f 0, getb f 1, getb f 2, getb f 3, getb f 4, getb f 5]"
    using assms by (simp add: wire_def)
next
  fix i assume "i < length (wire f)"
  then have "i < 6" using assms by (simp add: wire_def)
  then have "i = 0 \<or> i = 1 \<or> i = 2 \<or> i = 3 \<or> i = 4 \<or> i = 5" by linarith
  then show "wire f ! i = [getb f 0, getb f 1, getb f 2, getb f 3, getb f 4, getb f 5] ! i"
    using assms by (auto simp: wire_def getb_def)
qed

lemma wire_rtu_frame_init:
  "wire (modbusmq_rtu_frame_init c fn a n)
     = [word_of_int (slave_id c), word_of_int fn, hi8 a, lo8 a, hi8 n, lo8 n]"
  by (subst wire_six) simp_all

text \<open>The getters read back what the builder was given, as 16-bit fields.\<close>

lemma rtu_frame_init_getters:
  "modbusmq_rtu_frame_slave (modbusmq_rtu_frame_init c fn a n) = slave_id c mod 256"
  "modbusmq_rtu_frame_function (modbusmq_rtu_frame_init c fn a n) = fn mod 256"
  "modbusmq_rtu_frame_addr (modbusmq_rtu_frame_init c fn a n) = a mod 65536"
  "modbusmq_rtu_frame_naddr (modbusmq_rtu_frame_init c fn a n) = n mod 65536"
  by (simp_all add: modbusmq_rtu_frame_slave_def modbusmq_rtu_frame_function_def
      modbusmq_rtu_frame_addr_def modbusmq_rtu_frame_naddr_def be16_hi_lo uint_word_of_int)

lemma rtu_msg_prepare_paired:
  assumes "paired m"
  shows "modbusmq_rtu_msg_prepare m =
    (let w = frame0 m; crc = uint (modbusmq_rtu_crc16 (fbuf w) (flength w))
     in (flength w + 2, m\<lparr>frame0 := push_bytes [lo8 crc, hi8 crc] w,
                          frame1 := (frame1 m)\<lparr>flength := 3\<rparr>\<rparr>))"
  using assms by (simp add: modbusmq_rtu_msg_prepare_def Let_def push_bytes_def)

lemma crc16_own_residue:
  "crc16_loop 0xFFFF (bs @ [lo8 (uint (crc16_loop 0xFFFF bs)), hi8 (uint (crc16_loop 0xFFFF bs))]) = 0"
  by (simp only: crc16_loop_append crc16_residue)

text \<open>
  A prepared request is the built one followed by its CRC, low byte first, and has residue 0.
\<close>

lemma rtu_msg_prepare_wire:
  assumes "wf_msg m" and room: "flength (frame0 m) \<le> 258" and "xmit (frame1 m) \<le> 3"
  defines "m' \<equiv> snd (modbusmq_rtu_msg_prepare m)"
  shows "wire (frame0 m') = wire (frame0 m)
           @ [lo8 (uint (crc16_loop 0xFFFF (wire (frame0 m)))),
              hi8 (uint (crc16_loop 0xFFFF (wire (frame0 m))))]"
    and "crc16_loop 0xFFFF (wire (frame0 m')) = 0"
    and "flength (frame1 m') = 3"
    and "wf_msg m'"
proof -
  let ?w = "frame0 m" and ?crc = "uint (crc16_loop 0xFFFF (wire (frame0 m)))"
  note wf = wf_msgD [OF assms(1)] and w = wf_frameD [OF wf_msgD(2) [OF assms(1)]]
    and r = wf_frameD [OF wf_msgD(3) [OF assms(1)]]
  have c: "modbusmq_rtu_crc16 (fbuf ?w) (flength ?w) = crc16_loop 0xFFFF (wire ?w)"
    by (simp add: modbusmq_rtu_crc16_def wire_def)
  have m': "m' = m\<lparr>frame0 := push_bytes [lo8 ?crc, hi8 ?crc] ?w,
                   frame1 := (frame1 m)\<lparr>flength := 3\<rparr>\<rparr>"
    using wf(1) by (simp add: m'_def rtu_msg_prepare_paired Let_def c)
  show wire: "wire (frame0 m') = wire ?w @ [lo8 ?crc, hi8 ?crc]"
    using w room by (simp add: m' wire_push_bytes)
  show "crc16_loop 0xFFFF (wire (frame0 m')) = 0"
    by (simp only: wire crc16_own_residue)
  show "flength (frame1 m') = 3" by (simp add: m')
  show "wf_msg m'"
    using wf w r room assms(3)
    by (simp add: m' wf_msg_def paired_def wf_frame_def MODBUSMQ_FRAME_MAX_def)
qed

section \<open>The CRC comparison\<close>

lemma crc_fields_residue:
  assumes "2 \<le> n" and "n \<le> length bs"
  shows "be16 (bs ! (n - 1)) (bs ! (n - 2)) = uint (crc16_loop 0xFFFF (take (n - 2) bs))
     \<longleftrightarrow> crc16_loop 0xFFFF (take n bs) = 0"
proof -
  let ?c = "crc16_loop 0xFFFF (take (n - 2) bs)"
  obtain k where n: "n = Suc (Suc k)" using assms(1) by (metis Suc_le_D numeral_2_eq_2 Suc_le_mono)
  have "take n bs = take (n - 2) bs @ [bs ! (n - 2), bs ! (n - 1)]"
    using assms(2) by (simp add: n take_Suc_conv_app_nth)
  then have eq: "crc16_loop 0xFFFF (take n bs) = crc16_loop ?c [bs ! (n - 2), bs ! (n - 1)]"
    by (simp only: crc16_loop_append)
  have field: "be16 (hi8 (uint ?c)) (lo8 (uint ?c)) = uint ?c"
    using uint_bounded [of ?c] by (intro be16_inverse) simp_all
  show ?thesis
  proof
    assume "be16 (bs ! (n - 1)) (bs ! (n - 2)) = uint ?c"
    then have "be16 (bs ! (n - 1)) (bs ! (n - 2)) = be16 (hi8 (uint ?c)) (lo8 (uint ?c))"
      by (simp add: field)
    then have "bs ! (n - 1) = hi8 (uint ?c)" "bs ! (n - 2) = lo8 (uint ?c)"
      by (simp_all only: be16_inject)
    then show "crc16_loop 0xFFFF (take n bs) = 0"
      using eq crc16_residue [of ?c] by simp
  next
    assume "crc16_loop 0xFFFF (take n bs) = 0"
    then have "crc16_loop ?c [bs ! (n - 2), bs ! (n - 1)] = crc16_loop ?c [lo8 (uint ?c), hi8 (uint ?c)]"
      using eq by (simp only: crc16_residue)
    then have "bs ! (n - 2) = lo8 (uint ?c) \<and> bs ! (n - 1) = hi8 (uint ?c)"
      by (rule crc16_two_bytes_inject)
    then show "be16 (bs ! (n - 1)) (bs ! (n - 2)) = uint ?c" by (simp only: field)
  qed
qed

lemma frame_crc_residue:
  assumes "length (fbuf f) = 260" and "2 \<le> len" and "len \<le> 260"
  shows "be16 (getb f (nat (len - 1))) (getb f (nat (len - 2)))
           = uint (modbusmq_rtu_crc16 (fbuf f) (len - 2))
     \<longleftrightarrow> crc16_loop 0xFFFF (take (nat len) (fbuf f)) = 0"
proof -
  have "nat (len - 1) = nat len - 1" "nat (len - 2) = nat len - 2"
    using assms(2) by (simp_all add: nat_diff_distrib)
  then show ?thesis
    using crc_fields_residue [of "nat len" "fbuf f"] assms
    by (simp add: getb_def modbusmq_rtu_crc16_def)
qed

section \<open>Sizing the response from the request\<close>

text \<open>How long the response to a request is, from the request alone.\<close>

definition rtu_response_length :: "modbusmq_context_t \<Rightarrow> modbusmq_frame_t \<Rightarrow> int" where
  "rtu_response_length c w =
     (let e = modbusmq_rtu_expected_nbytes w
      in if e < 0
         then (if modbusmq_rtu_frame_function w = MODBUSMQ_MASK_WRITE_REGISTER then 10 else 8)
         else e + header_length c + 2)"

text \<open>The declared byte count is the one the request asked for, where there is one.\<close>

definition rtu_count_ok :: "modbusmq_frame_t \<Rightarrow> modbusmq_frame_t \<Rightarrow> bool" where
  "rtu_count_ok w r \<longleftrightarrow>
     (modbusmq_rtu_expected_nbytes w \<ge> 0 \<longrightarrow> uint (getb r 2) = modbusmq_rtu_expected_nbytes w)"

lemma rtu_check_header_paired:
  assumes "paired m"
  shows "modbusmq_rtu_msg_check_header c m =
    (let w = frame0 m; r = frame1 m
     in if xmit r < 3 then (1, m)
        else if getb w 0 \<noteq> getb r 0 then (-2, m)
        else if getb w 1 = getb r 1 then
          (if \<not> rtu_count_ok w r then (-4, m)
           else if rtu_response_length c w < 0 \<or> rtu_response_length c w > 260 then (-5, m)
           else (rtu_response_length c w - xmit r,
                 m\<lparr>frame1 := r\<lparr>flength := rtu_response_length c w\<rparr>\<rparr>))
        else if getb r 1 = (getb w 1 OR 0x80)
        then (5 - xmit r, m\<lparr>frame1 := r\<lparr>flength := 5\<rparr>\<rparr>)
        else (-3, m))"
  using assms
  by (simp add: modbusmq_rtu_msg_check_header_def Let_def rtu_count_ok_def
      rtu_response_length_def MODBUSMQ_FRAME_MAX_def)

lemma rtu_check_header_shape:
  assumes "paired m"
  shows "\<exists>L. snd (modbusmq_rtu_msg_check_header c m) = m\<lparr>frame1 := (frame1 m)\<lparr>flength := L\<rparr>\<rparr>"
proof -
  have keep: "\<exists>L. m = m\<lparr>frame1 := (frame1 m)\<lparr>flength := L\<rparr>\<rparr>"
    by (rule exI [of _ "flength (frame1 m)"]) simp
  show ?thesis
    using keep by (auto simp: rtu_check_header_paired [OF assms] Let_def split: if_split)
qed

lemma reader_len_inject:
  "m\<lparr>frame1 := r\<lparr>flength := a\<rparr>\<rparr> = m\<lparr>frame1 := r\<lparr>flength := b\<rparr>\<rparr> \<longleftrightarrow> a = b"
  by (auto dest: arg_cong [where f = "\<lambda>m. flength (frame1 m)"])

lemma rtu_check_header_matched:
  assumes "paired m" and "modbusmq_rtu_msg_check_header c m = (rc, m')" and "0 \<le> rc"
    and "3 \<le> xmit (frame1 m)" and "getb (frame1 m) 1 AND 0x80 = 0"
  shows "getb (frame1 m) 0 = getb (frame0 m) 0" "getb (frame1 m) 1 = getb (frame0 m) 1"
    "rtu_count_ok (frame0 m) (frame1 m)" "rtu_response_length c (frame0 m) \<le> 260"
    "0 \<le> rtu_response_length c (frame0 m)"
    "m' = m\<lparr>frame1 := (frame1 m)\<lparr>flength := rtu_response_length c (frame0 m)\<rparr>\<rparr>"
    "rc = rtu_response_length c (frame0 m) - xmit (frame1 m)"
proof -
  have bit: "getb (frame1 m) 1 \<noteq> (getb (frame0 m) 1 OR 0x80)"
  proof
    assume "getb (frame1 m) 1 = (getb (frame0 m) 1 OR 0x80)"
    then have "getb (frame1 m) 1 AND 0x80 = (0x80 :: byte)" by simp
    then show False using assms(5) by simp
  qed
  show "getb (frame1 m) 0 = getb (frame0 m) 0" "getb (frame1 m) 1 = getb (frame0 m) 1"
    "rtu_count_ok (frame0 m) (frame1 m)" "rtu_response_length c (frame0 m) \<le> 260"
    "0 \<le> rtu_response_length c (frame0 m)"
    "m' = m\<lparr>frame1 := (frame1 m)\<lparr>flength := rtu_response_length c (frame0 m)\<rparr>\<rparr>"
    "rc = rtu_response_length c (frame0 m) - xmit (frame1 m)"
    using assms bit by (auto simp: rtu_check_header_paired Let_def split: if_splits)
qed

text \<open>The window the sizing leaves is inside the buffer.\<close>

lemma rtu_check_header_wf:
  assumes "wf_msg m" and "modbusmq_rtu_msg_check_header c m = (rc, m')"
    and "0 \<le> rc" and "3 \<le> xmit (frame1 m)"
  shows "wf_msg m'" "rc = flength (frame1 m') - xmit (frame1 m')"
  using assms wf_msgD [OF assms(1)] wf_frameD [OF wf_msgD(3) [OF assms(1)]]
  by (auto simp: rtu_check_header_paired Let_def wf_msg_def wf_frame_def MODBUSMQ_FRAME_MAX_def
      paired_def split: if_splits)

section \<open>Acceptance\<close>

definition rtu_crc_ok :: "modbusmq_frame_t \<Rightarrow> bool" where
  "rtu_crc_ok r \<longleftrightarrow> crc16_loop 0xFFFF (wire r) = 0"

lemma rtu_msg_broadcast_reader [simp]:
  "paired m \<Longrightarrow> \<not> is_writer r \<Longrightarrow> modbusmq_rtu_msg_broadcast (m\<lparr>frame1 := r\<rparr>) = modbusmq_rtu_msg_broadcast m"
  by (simp add: modbusmq_rtu_msg_broadcast_def Let_def writer_ix_def paired_def frame_at_def)

text \<open>
  The acceptance check without its plumbing: what it says for a request that is no broadcast.
\<close>

lemma rtu_msg_check_accepts:
  assumes wf: "wf_msg m" and hl: "header_length c = 3"
    and nb: "\<not> modbusmq_rtu_msg_broadcast m"
  shows "fst (modbusmq_rtu_msg_check c m) = 0 \<longleftrightarrow>
      xmit (frame0 m) = flength (frame0 m)
    \<and> getb (frame1 m) 0 = getb (frame0 m) 0
    \<and> getb (frame1 m) 1 = getb (frame0 m) 1
    \<and> (getb (frame1 m) 1 AND 0x80) = 0
    \<and> rtu_count_ok (frame0 m) (frame1 m)
    \<and> xmit (frame1 m) = rtu_response_length c (frame0 m)
    \<and> rtu_crc_ok ((frame1 m)\<lparr>flength := rtu_response_length c (frame0 m)\<rparr>)"
    (is "?lhs \<longleftrightarrow> ?rhs")
proof -
  let ?w = "frame0 m" and ?r = "frame1 m"
  let ?L = "rtu_response_length c ?w"
  note p = wf_msgD(1) [OF wf] and r = wf_frameD [OF wf_msgD(3) [OF wf]]
  obtain rc m1 where h: "modbusmq_rtu_msg_check_header c m = (rc, m1)" by fastforce
  from rtu_check_header_shape [OF p, of c] h obtain L where
    m1: "m1 = m\<lparr>frame1 := ?r\<lparr>flength := L\<rparr>\<rparr>" by auto
  have p1: "paired m1" using p by (simp add: m1 paired_def)
  have nb1: "\<not> modbusmq_rtu_msg_broadcast m1"
    using nb p by (simp add: m1 paired_def)
  have L5: "5 \<le> ?L \<or> ?L = 3 + 2" if "0 \<le> modbusmq_rtu_expected_nbytes ?w"
    using that hl by (simp add: rtu_response_length_def Let_def)
  then have L5: "5 \<le> ?L" by (auto simp: rtu_response_length_def Let_def hl)
  have check: "fst (modbusmq_rtu_msg_check c m) = 0 \<longleftrightarrow>
      rc \<ge> 0 \<and> xmit ?w = flength ?w \<and> xmit ?r = L \<and> 4 \<le> L \<and> (getb ?r 1 AND 0x80) = 0
      \<and> be16 (getb ?r (nat (L - 1))) (getb ?r (nat (L - 2)))
          = uint (modbusmq_rtu_crc16 (fbuf ?r) (L - 2))"
    using p1 nb1 by (auto simp: modbusmq_rtu_msg_check_def h m1 Let_def getb_def)
  have crc: "be16 (getb ?r (nat (?L - 1))) (getb ?r (nat (?L - 2)))
          = uint (modbusmq_rtu_crc16 (fbuf ?r) (?L - 2)) \<longleftrightarrow> rtu_crc_ok (?r\<lparr>flength := ?L\<rparr>)"
    if "?L \<le> 260"
    using frame_crc_residue [of ?r ?L] r(1) L5 that by (simp add: rtu_crc_ok_def wire_def)
  show ?thesis
  proof
    assume ?lhs
    with check have c: "rc \<ge> 0" "xmit ?w = flength ?w" "xmit ?r = L" "4 \<le> L"
      "(getb ?r 1 AND 0x80) = 0"
      "be16 (getb ?r (nat (L - 1))) (getb ?r (nat (L - 2)))
          = uint (modbusmq_rtu_crc16 (fbuf ?r) (L - 2))" by blast+
    then have "3 \<le> xmit ?r" by linarith
    note mt = rtu_check_header_matched [OF p h c(1) this c(5)]
    then have "L = ?L" using m1 by (simp add: reader_len_inject)
    then show ?rhs using c mt crc by simp
  next
    assume R: ?rhs
    then have "xmit ?r = ?L" by blast
    then have len: "3 \<le> xmit ?r" "?L \<le> 260" using L5 r by linarith+
    have "modbusmq_rtu_msg_check_header c m = (0, m\<lparr>frame1 := ?r\<lparr>flength := ?L\<rparr>\<rparr>)"
      using R len L5 by (simp add: rtu_check_header_paired [OF p] Let_def)
    then have "rc = 0" and "m1 = m\<lparr>frame1 := ?r\<lparr>flength := ?L\<rparr>\<rparr>" using h by simp_all
    moreover from this(2) m1 have "L = ?L" by (simp add: reader_len_inject)
    ultimately show ?lhs using check R crc len L5 by auto
  qed
qed

text \<open>
  Any damage confined to two neighbouring bytes of an accepted response makes the check refuse
  it, wherever in the frame it lies.
\<close>

definition rtu_damage :: "nat \<Rightarrow> byte \<Rightarrow> byte \<Rightarrow> modbusmq_msg_t \<Rightarrow> modbusmq_msg_t" where
  "rtu_damage i a b m = m\<lparr>frame1 := (frame1 m)\<lparr>fbuf := (fbuf (frame1 m))[i := a, Suc i := b]\<rparr>\<rparr>"

lemma take_damage:
  assumes "Suc i < n" and "n \<le> length xs"
  shows "take n (xs[i := a, Suc i := b]) = take i xs @ [a, b] @ take (n - Suc (Suc i)) (drop (Suc (Suc i)) xs)"
    and "take n xs = take i xs @ [xs ! i, xs ! Suc i] @ take (n - Suc (Suc i)) (drop (Suc (Suc i)) xs)"
proof -
  let ?rest = "take (n - Suc (Suc i)) (drop (Suc (Suc i)) xs)"
  obtain k where n: "n = i + Suc (Suc k)" using assms(1) by (metis less_iff_Suc_add add_Suc_right add_Suc)
  have "drop i xs = xs ! i # xs ! Suc i # drop (Suc (Suc i)) xs"
    using assms by (simp add: Cons_nth_drop_Suc)
  then show keep: "take n xs = take i xs @ [xs ! i, xs ! Suc i] @ ?rest"
    unfolding n take_add by simp
  have len: "length (take i xs) = i" using assms by simp
  show "take n (xs[i := a, Suc i := b]) = take i xs @ [a, b] @ ?rest"
    unfolding take_update_swap keep using assms by (simp add: list_update_append)
qed

lemma crc16_damage:
  assumes "Suc i < n" and "n \<le> length xs" and "(a, b) \<noteq> (xs ! i, xs ! Suc i)"
    and "crc16_loop c (take n xs) = 0"
  shows "crc16_loop c (take n (xs[i := a, Suc i := b])) \<noteq> 0"
  using crc16_detects_burst [OF assms(3), of c "take i xs" "take (n - Suc (Suc i)) (drop (Suc (Suc i)) xs)"]
    assms(4) unfolding take_damage [OF assms(1,2)] by simp

section \<open>Recognising a frame on its own terms\<close>

text \<open>How long a frame says it is.\<close>

definition rtu_frame_size :: "modbusmq_context_t \<Rightarrow> modbusmq_frame_t \<Rightarrow> int" where
  "rtu_frame_size c f =
     (let fn = uint (getb f 1)
      in if (fn AND 0x80) \<noteq> 0 then 5
         else if fn = 1 \<or> fn = 2 \<or> fn = 3 \<or> fn = 4 then header_length c + uint (getb f 2) + 2
         else if fn = 0x16 then 10 else 8)"

lemma rtu_frame_drain_sized:
  assumes "3 \<le> xmit f"
  shows "modbusmq_rtu_frame_drain c f =
    (let len = rtu_frame_size c f
     in if len < 4 \<or> len > 260 \<or> len < xmit f then (-1, f)
        else if xmit f < len then (0, f\<lparr>flength := len\<rparr>)
        else if be16 (getb f (nat (len - 1))) (getb f (nat (len - 2)))
               \<noteq> uint (modbusmq_rtu_crc16 (fbuf f) (len - 2)) then (-1, f) else (1, f))"
proof -
  have n: "\<not> xmit f < 2" "\<not> xmit f < 3" using assms by simp_all
  show ?thesis
    unfolding modbusmq_rtu_frame_drain_def rtu_frame_size_def Let_def MODBUSMQ_FRAME_MAX_def
    by (simp only: n simp_thms if_False)
qed

lemma rtu_frame_drain_flength:
  assumes "modbusmq_rtu_frame_drain c f = (rc, f')"
  shows "f' = f \<or> (rc = 0 \<and> (\<exists>L. f' = f\<lparr>flength := L\<rparr> \<and> xmit f < L \<and> L \<le> 260))"
  using assms
  by (auto simp: modbusmq_rtu_frame_drain_def Let_def MODBUSMQ_FRAME_MAX_def split: if_splits)

lemma rtu_frame_drain_rc:
  "modbusmq_rtu_frame_drain c f = (rc, f') \<Longrightarrow> rc \<in> {-1, 0, 1}"
  by (auto simp: modbusmq_rtu_frame_drain_def Let_def split: if_splits)

text \<open>
  A frame that is stepped over is whole and carries a correct CRC: nothing of what follows it
  has been read.
\<close>

lemma rtu_frame_drain_whole:
  assumes "wf_frame f" and "modbusmq_rtu_frame_drain c f = (1, f')"
  shows "f' = f" and "4 \<le> xmit f" and "crc16_loop 0xFFFF (received f) = 0"
proof -
  note w = wf_frameD [OF assms(1)]
  obtain len where len: "4 \<le> len" "len \<le> 260" "len = xmit f"
    "be16 (getb f (nat (len - 1))) (getb f (nat (len - 2))) = uint (modbusmq_rtu_crc16 (fbuf f) (len - 2))"
    and f: "f' = f"
    using assms(2)
    by (auto simp: modbusmq_rtu_frame_drain_def Let_def MODBUSMQ_FRAME_MAX_def split: if_splits)
  show "f' = f" by (rule f)
  show "4 \<le> xmit f" using len by simp
  show "crc16_loop 0xFFFF (received f) = 0"
    using frame_crc_residue [of f len] w len by (simp add: received_def)
qed

lemma and_low_bits_uint: "uint (b AND 0x80) = (uint b AND 0x80)" for b :: byte
  by (simp add: unsigned_and_eq)

lemma byte_flag_uint: "(b AND 0x80) = 0 \<longleftrightarrow> (uint b AND 0x80) = 0" for b :: byte
  by (metis and_low_bits_uint uint_0_iff)

text \<open>
  A response that its own request accepts is recognised as a whole frame on its own bytes, so
  if it comes late it is stepped over whatever request is then outstanding.
\<close>

lemma rtu_accepted_drains:
  assumes wf: "wf_msg m" and hl: "header_length c = 3"
    and nb: "\<not> modbusmq_rtu_msg_broadcast m" and ok: "fst (modbusmq_rtu_msg_check c m) = 0"
  shows "modbusmq_rtu_frame_drain c (frame1 m) = (1, frame1 m)"
proof -
  let ?w = "frame0 m" and ?r = "frame1 m"
  let ?L = "rtu_response_length c ?w"
  note r = wf_frameD [OF wf_msgD(3) [OF wf]]
  have a: "getb ?r 1 = getb ?w 1" "(getb ?r 1 AND 0x80) = 0" "rtu_count_ok ?w ?r"
    "xmit ?r = ?L" "rtu_crc_ok (?r\<lparr>flength := ?L\<rparr>)"
    using ok rtu_msg_check_accepts [OF wf hl nb] by blast+
  let ?fn = "uint (getb ?r 1)"
  let ?read = "?fn = 1 \<or> ?fn = 2 \<or> ?fn = 3 \<or> ?fn = 4"
  have flag: "(?fn AND 0x80) = 0" using a(2) by (simp add: byte_flag_uint)
  have naddr: "0 \<le> modbusmq_rtu_frame_naddr ?w"
    by (simp add: modbusmq_rtu_frame_naddr_def be16_range)
  have fn: "modbusmq_rtu_frame_function ?w = ?fn"
    using a(1) by (simp add: modbusmq_rtu_frame_function_def)
  have len: "?L = (if ?read then 3 + uint (getb ?r 2) + 2 else if ?fn = 0x16 then 10 else 8)"
    using a(3) naddr fn hl
    by (auto simp: rtu_response_length_def rtu_count_ok_def modbusmq_rtu_expected_nbytes_def Let_def)
  have size: "rtu_frame_size c ?r = ?L"
    using flag hl by (simp add: rtu_frame_size_def Let_def len)
  from len have "5 \<le> ?L" by (auto split: if_splits)
  moreover have "?L \<le> 260" using a(4) r by simp
  ultimately have crc: "be16 (getb ?r (nat (?L - 1))) (getb ?r (nat (?L - 2)))
      = uint (modbusmq_rtu_crc16 (fbuf ?r) (?L - 2))"
    using frame_crc_residue [of ?r ?L] r a(5) by (simp add: rtu_crc_ok_def wire_def)
  show ?thesis
    using \<open>5 \<le> ?L\<close> \<open>?L \<le> 260\<close> crc a(4) size
    by (simp add: rtu_frame_drain_sized Let_def)
qed

end
