(* ===== verification/Tcp.thy ===== *)
theory Tcp
  imports Context
begin

text \<open>
  The TCP transport, lib/modbusmq_tcp.c: the MBAP header getters and builders, transaction
  ids, sizing and matching of a response against its request, recognising a stale frame, and
  the acceptance check.

  Two getters end in \<open>assert(0); return 0\<close> on a frame of the wrong kind; the model is the
  release build's \<open>0\<close>. The library hands them requests only.
\<close>

section \<open>Reading a frame\<close>

definition modbusmq_tcp_frame_transaction_id :: "modbusmq_frame_t \<Rightarrow> int" where
  "modbusmq_tcp_frame_transaction_id f = be16 (getb f 0) (getb f 1)"

definition modbusmq_tcp_frame_slave :: "modbusmq_frame_t \<Rightarrow> int" where
  "modbusmq_tcp_frame_slave f = uint (getb f 6)"

definition modbusmq_tcp_frame_data :: "modbusmq_frame_t \<Rightarrow> byte list" where
  "modbusmq_tcp_frame_data f = (if is_writer f then drop 12 (fbuf f) else drop 9 (fbuf f))"

definition modbusmq_tcp_frame_function :: "modbusmq_frame_t \<Rightarrow> int" where
  "modbusmq_tcp_frame_function f = uint (getb f 7)"

definition modbusmq_tcp_frame_addr :: "modbusmq_frame_t \<Rightarrow> int" where
  "modbusmq_tcp_frame_addr f = (if is_writer f then be16 (getb f 8) (getb f 9) else 0)"

definition modbusmq_tcp_frame_naddr :: "modbusmq_frame_t \<Rightarrow> int" where
  "modbusmq_tcp_frame_naddr f = (if is_writer f then be16 (getb f 10) (getb f 11) else 0)"

definition modbusmq_tcp_frame_nbytes :: "modbusmq_frame_t \<Rightarrow> int" where
  "modbusmq_tcp_frame_nbytes f =
     (if is_writer f then -1
      else if uint (getb f 7) \<in> {MODBUSMQ_READ_COILS, MODBUSMQ_READ_DISCRETE_INPUTS,
              MODBUSMQ_READ_HOLDING_REGISTERS, MODBUSMQ_READ_INPUT_REGISTERS}
      then uint (getb f 8) else -1)"

definition modbusmq_tcp_frame_exception :: "modbusmq_frame_t \<Rightarrow> int" where
  "modbusmq_tcp_frame_exception f =
     (if is_writer f \<or> xmit f < 9 then 0
      else if (getb f 7 AND 0x80) = 0 then 0
      else uint (getb f 8))"

definition modbusmq_tcp_msg_broadcast :: "modbusmq_msg_t \<Rightarrow> bool" where
  "modbusmq_tcp_msg_broadcast m = False"

definition modbusmq_tcp_msg_exception :: "modbusmq_msg_t \<Rightarrow> int" where
  "modbusmq_tcp_msg_exception m =
     (let writer = frame0 m; reader = frame1 m;
          code = modbusmq_tcp_frame_exception reader
      in if code \<le> 0 then 0
         else if getb reader 0 \<noteq> getb writer 0 \<or> getb reader 1 \<noteq> getb writer 1 then 0
         else if getb reader 6 \<noteq> getb writer 6 then 0
         else if (getb reader 7 AND 0x7f) \<noteq> getb writer 7 then 0
         else code)"

definition modbusmq_tcp_frame_error_code :: "modbusmq_frame_t \<Rightarrow> int" where
  "modbusmq_tcp_frame_error_code f = (if \<not> is_writer f then uint (getb f 8) else 0)"

section \<open>Building a request\<close>

definition modbusmq_tcp_frame_init ::
    "modbusmq_context_t \<Rightarrow> int \<Rightarrow> int \<Rightarrow> int \<Rightarrow> modbusmq_frame_t" where
  "modbusmq_tcp_frame_init c function addr nb =
     (let f = frame_zero\<lparr>is_writer := True, is_tcp := True\<rparr>;
          f = setb 6 (word_of_int (slave_id c)) f;
          f = setb 7 (word_of_int function) f;
          f = setb 8 (hi8 addr) f;
          f = setb 9 (lo8 addr) f;
          f = setb 10 (hi8 nb) f;
          f = setb 11 (lo8 nb) f
      in f\<lparr>flength := 12\<rparr>)"

definition modbusmq_tcp_read_coil_bits :: "modbusmq_context_t \<Rightarrow> int \<Rightarrow> int \<Rightarrow> modbusmq_frame_t" where
  "modbusmq_tcp_read_coil_bits c addr nbits =
     modbusmq_tcp_frame_init c MODBUSMQ_READ_COILS addr nbits"

definition modbusmq_tcp_read_input_bits :: "modbusmq_context_t \<Rightarrow> int \<Rightarrow> int \<Rightarrow> modbusmq_frame_t" where
  "modbusmq_tcp_read_input_bits c addr nbits =
     modbusmq_tcp_frame_init c MODBUSMQ_READ_DISCRETE_INPUTS addr nbits"

definition modbusmq_tcp_read_holding_registers ::
    "modbusmq_context_t \<Rightarrow> int \<Rightarrow> int \<Rightarrow> modbusmq_frame_t" where
  "modbusmq_tcp_read_holding_registers c addr nb =
     modbusmq_tcp_frame_init c MODBUSMQ_READ_HOLDING_REGISTERS addr nb"

definition modbusmq_tcp_read_input_registers ::
    "modbusmq_context_t \<Rightarrow> int \<Rightarrow> int \<Rightarrow> modbusmq_frame_t" where
  "modbusmq_tcp_read_input_registers c addr nb =
     modbusmq_tcp_frame_init c MODBUSMQ_READ_INPUT_REGISTERS addr nb"

definition modbusmq_tcp_write_coil_bit :: "modbusmq_context_t \<Rightarrow> int \<Rightarrow> int \<Rightarrow> modbusmq_frame_t" where
  "modbusmq_tcp_write_coil_bit c addr value =
     modbusmq_tcp_frame_init c MODBUSMQ_WRITE_SINGLE_COIL addr (if value \<noteq> 0 then 0xff00 else 0)"

definition modbusmq_tcp_write_register :: "modbusmq_context_t \<Rightarrow> int \<Rightarrow> int \<Rightarrow> modbusmq_frame_t" where
  "modbusmq_tcp_write_register c addr value =
     modbusmq_tcp_frame_init c MODBUSMQ_WRITE_SINGLE_REGISTER addr value"

definition modbusmq_tcp_write_coil_bits :: "modbusmq_context_t \<Rightarrow> int \<Rightarrow> int \<Rightarrow> modbusmq_frame_t" where
  "modbusmq_tcp_write_coil_bits c addr nbits =
     modbusmq_tcp_frame_init c MODBUSMQ_WRITE_MULTIPLE_COILS addr nbits"

definition modbusmq_tcp_write_registers :: "modbusmq_context_t \<Rightarrow> int \<Rightarrow> int \<Rightarrow> modbusmq_frame_t" where
  "modbusmq_tcp_write_registers c addr nb =
     modbusmq_tcp_frame_init c MODBUSMQ_WRITE_MULTIPLE_REGISTERS addr nb"

definition modbusmq_tcp_write_mask_registers ::
    "modbusmq_context_t \<Rightarrow> int \<Rightarrow> int \<Rightarrow> modbusmq_frame_t" where
  "modbusmq_tcp_write_mask_registers c addr and_mask =
     modbusmq_tcp_frame_init c MODBUSMQ_MASK_WRITE_REGISTER addr and_mask"

text \<open>
  Preparing a request takes the next transaction id and fills in the MBAP length; the reader
  gets the header fields its answer has to repeat.
\<close>

definition modbusmq_tcp_msg_prepare ::
    "modbusmq_tcp_context_t \<Rightarrow> modbusmq_msg_t \<Rightarrow> int \<times> modbusmq_tcp_context_t \<times> modbusmq_msg_t" where
  "modbusmq_tcp_msg_prepare tcp m =
     (let tid = (transaction_id tcp + 1) mod 0xffff;
          tcp = tcp\<lparr>transaction_id := tid\<rparr>;
          wi = writer_ix m; ri = reader_ix m;
          w = frame_at m wi;
          w = setb 0 (hi8 tid) w;
          w = setb 1 (lo8 tid) w;
          w = setb 4 (hi8 (flength w - 6)) w;
          w = setb 5 (lo8 (flength w - 6)) w;
          m = put_frame wi w m;
          r = frame_at m ri;
          r = setb 0 (getb w 0) r;
          r = setb 1 (getb w 1) r;
          r = setb 2 0 r;
          r = setb 3 0 r;
          r = setb 6 (getb w 6) r;
          r = setb 7 (getb w 7) r;
          m = put_frame ri r m
      in (flength (frame_at m wi), tcp, m))"

section \<open>Matching a response\<close>

definition modbusmq_tcp_frame_drain :: "modbusmq_frame_t \<Rightarrow> int \<times> modbusmq_frame_t" where
  "modbusmq_tcp_frame_drain f =
     (if xmit f < 6 then (0, f)
      else
        (let len = be16 (getb f 4) (getb f 5) + 6
         in if len \<le> 6 \<or> len > MODBUSMQ_FRAME_MAX \<or> len < xmit f then (-1, f)
            else if xmit f < len then (0, f\<lparr>flength := len\<rparr>)
            else (1, f)))"

text \<open>The last two checks of the header, once the response has been sized.\<close>

definition tcp_check_unit_function :: "modbusmq_msg_t \<Rightarrow> int" where
  "tcp_check_unit_function m =
     (let writer = writer_of m; reader = reader_of m
      in if xmit reader \<ge> 7 \<and> getb writer 6 \<noteq> getb reader 6 then -5
         else if xmit reader \<ge> 8 \<and> getb writer 7 \<noteq> getb reader 7 then
           (if (getb reader 7 AND 0x80) \<noteq> 0 \<and> xmit reader < 9 then 0 else -6)
         else 0)"

definition modbusmq_tcp_msg_check_header :: "modbusmq_msg_t \<Rightarrow> int \<times> modbusmq_msg_t" where
  "modbusmq_tcp_msg_check_header m =
     (let ri = reader_ix m; writer = writer_of m; reader = reader_of m
      in if xmit reader \<ge> 2
            \<and> \<not> (getb writer 0 = getb reader 0 \<and> getb writer 1 = getb reader 1) then (-2, m)
         else if xmit reader \<ge> 4
            \<and> \<not> (getb reader 2 = 0 \<and> getb reader 3 = 0 \<and> getb writer 2 = 0 \<and> getb writer 3 = 0)
         then (-3, m)
         else
           (let msg_length = be16 (getb reader 4) (getb reader 5) + 6
            in if xmit reader \<ge> 6 \<and> msg_length \<noteq> xmit reader
                  \<and> \<not> (msg_length > 6 \<and> msg_length \<le> MODBUSMQ_FRAME_MAX)
               then (-4, m)
               else
                 (let m = (if xmit reader \<ge> 6 \<and> msg_length \<noteq> xmit reader \<and> msg_length \<noteq> flength reader
                           then put_frame ri (reader\<lparr>flength := msg_length\<rparr>) m else m)
                  in (tcp_check_unit_function m, m))))"

definition modbusmq_tcp_msg_check :: "modbusmq_msg_t \<Rightarrow> int \<times> modbusmq_msg_t" where
  "modbusmq_tcp_msg_check m =
     (let (rc, m) = modbusmq_tcp_msg_check_header m;
          writer = writer_of m; reader = reader_of m
      in if rc < 0 then (rc, m)
         else if xmit writer \<noteq> flength writer then (1, m)
         else if xmit reader \<noteq> flength reader then (2, m)
         else (0, m))"

end
