(* ===== verification/Tcp_Facts.thy ===== *)
theory Tcp_Facts
  imports Tcp
begin

text \<open>
  Correctness of the TCP frame operations: what a prepared request puts on the wire, that
  transaction ids keep requests apart, and when a response is accepted.
\<close>

section \<open>Requests\<close>

lemma tcp_frame_init_fields [simp]:
  "is_writer (modbusmq_tcp_frame_init c fn a n)" "flength (modbusmq_tcp_frame_init c fn a n) = 12"
  "xmit (modbusmq_tcp_frame_init c fn a n) = 0" "is_tcp (modbusmq_tcp_frame_init c fn a n)"
  "length (fbuf (modbusmq_tcp_frame_init c fn a n)) = 260"
  by (simp_all add: modbusmq_tcp_frame_init_def Let_def)

lemma tcp_frame_init_wf [simp]: "wf_frame (modbusmq_tcp_frame_init c fn a n)"
  by (simp add: wf_frame_def MODBUSMQ_FRAME_MAX_def)

lemma tcp_frame_init_buf:
  "fbuf (modbusmq_tcp_frame_init c fn a n)
     = [0, 0, 0, 0, 0, 0, word_of_int (slave_id c), word_of_int fn, hi8 a, lo8 a, hi8 n, lo8 n]
         @ replicate 248 0"
proof -
  have "replicate 260 (0 :: byte) = replicate 12 0 @ replicate 248 0"
    by (simp flip: replicate_add)
  also have "\<dots> = [0, 0, 0, 0, 0, 0, 0, 0, 0, 0, 0, 0] @ replicate 248 0"
    by (simp add: numeral_eq_Suc)
  finally show ?thesis
    by (simp add: modbusmq_tcp_frame_init_def Let_def frame_zero_def)
qed

lemma wire_tcp_frame_init:
  "wire (modbusmq_tcp_frame_init c fn a n)
     = [0, 0, 0, 0, 0, 0, word_of_int (slave_id c), word_of_int fn, hi8 a, lo8 a, hi8 n, lo8 n]"
  by (simp add: wire_def tcp_frame_init_buf)

lemma tcp_frame_init_getters:
  "modbusmq_tcp_frame_slave (modbusmq_tcp_frame_init c fn a n) = slave_id c mod 256"
  "modbusmq_tcp_frame_function (modbusmq_tcp_frame_init c fn a n) = fn mod 256"
  "modbusmq_tcp_frame_addr (modbusmq_tcp_frame_init c fn a n) = a mod 65536"
  "modbusmq_tcp_frame_naddr (modbusmq_tcp_frame_init c fn a n) = n mod 65536"
  by (simp_all add: modbusmq_tcp_frame_slave_def modbusmq_tcp_frame_function_def getb_def
      modbusmq_tcp_frame_addr_def modbusmq_tcp_frame_naddr_def be16_hi_lo uint_word_of_int
      tcp_frame_init_buf)

text \<open>The transaction counter stays a 16-bit value and steps through 65535 different ids.\<close>

definition wf_tcp :: "modbusmq_tcp_context_t \<Rightarrow> bool" where
  "wf_tcp t \<longleftrightarrow> 0 \<le> transaction_id t \<and> transaction_id t < 0xffff"

lemma tcp_msg_prepare_paired:
  assumes "paired m"
  shows "modbusmq_tcp_msg_prepare tcp m =
    (let tid = (transaction_id tcp + 1) mod 0xffff; n = flength (frame0 m) - 6;
         w = setb 5 (lo8 n) (setb 4 (hi8 n) (setb 1 (lo8 tid) (setb 0 (hi8 tid) (frame0 m))))
     in (flength (frame0 m), tcp\<lparr>transaction_id := tid\<rparr>,
         m\<lparr>frame0 := w,
           frame1 := setb 7 (getb w 7) (setb 6 (getb w 6) (setb 3 0 (setb 2 0
                       (setb 1 (getb w 1) (setb 0 (getb w 0) (frame1 m))))))\<rparr>))"
  using assms by (simp add: modbusmq_tcp_msg_prepare_def Let_def)

lemma tcp_prepare_wf:
  assumes "wf_msg m" and "modbusmq_tcp_msg_prepare tcp m = (rc, tcp', m')"
  shows "wf_msg m'" "wf_tcp tcp'" "rc = flength (frame0 m)" "flength (frame0 m') = flength (frame0 m)"
    "xmit (frame0 m') = xmit (frame0 m)" "flength (frame1 m') = flength (frame1 m)"
    "msg_id m' = msg_id m" "req_id m' = req_id m"
  using assms(2) wf_msgD [OF assms(1)]
  by (auto simp: tcp_msg_prepare_paired Let_def wf_msg_def paired_def wf_frame_def wf_tcp_def)

text \<open>
  The prepared request on the wire: transaction id, protocol 0, the length of what follows,
  then the frame as it was built.
\<close>

lemma wire_setb: "wire (setb i v f) = (wire f)[i := v]"
  by (simp add: wire_def take_update_swap)

lemma tcp_msg_prepare_wire:
  assumes "wf_msg m" and "modbusmq_tcp_msg_prepare tcp m = (rc, tcp', m')"
    and "wire (frame0 m) = [0, 0, 0, 0, 0, 0] @ pdu"
  shows "wire (frame0 m') = [hi8 (transaction_id tcp'), lo8 (transaction_id tcp'), 0, 0,
            hi8 (int (length pdu)), lo8 (int (length pdu))] @ pdu"
proof -
  have "flength (frame0 m) - 6 = int (length pdu)"
    using length_wire [of "frame0 m"] wf_frameD [OF wf_msgD(2) [OF assms(1)]] assms(3) by simp
  then show ?thesis
    using assms(2,3) wf_msgD [OF assms(1)]
    by (auto simp: tcp_msg_prepare_paired Let_def wire_setb)
qed

lemma tcp_prepare_transaction:
  assumes "wf_msg m" and "modbusmq_tcp_msg_prepare tcp m = (rc, tcp', m')" and "wf_tcp tcp"
  shows "modbusmq_tcp_frame_transaction_id (frame0 m') = transaction_id tcp'"
    and "transaction_id tcp' = (transaction_id tcp + 1) mod 65535"
proof -
  show t: "transaction_id tcp' = (transaction_id tcp + 1) mod 65535"
    using assms(2) wf_msgD [OF assms(1)] by (auto simp: tcp_msg_prepare_paired Let_def)
  have "0 \<le> transaction_id tcp'" "transaction_id tcp' < 65536" unfolding t by simp_all
  then show "modbusmq_tcp_frame_transaction_id (frame0 m') = transaction_id tcp'"
    using assms(2) wf_msgD [OF assms(1)] wf_frameD [OF wf_msgD(2) [OF assms(1)]] t
    by (auto simp: tcp_msg_prepare_paired Let_def modbusmq_tcp_frame_transaction_id_def getb_def)
qed

section \<open>Acceptance\<close>

lemma tcp_check_header_shape:
  assumes "paired m"
  shows "\<exists>L. snd (modbusmq_tcp_msg_check_header m) = m\<lparr>frame1 := (frame1 m)\<lparr>flength := L\<rparr>\<rparr>"
proof -
  have keep: "\<exists>L. m = m\<lparr>frame1 := (frame1 m)\<lparr>flength := L\<rparr>\<rparr>"
    by (rule exI [of _ "flength (frame1 m)"]) simp
  show ?thesis
    using keep assms by (auto simp: modbusmq_tcp_msg_check_header_def Let_def split: if_split)
qed

lemma tcp_check_header_wf:
  assumes "wf_msg m" and "modbusmq_tcp_msg_check_header m = (rc, m')" and "0 \<le> rc"
    and "be16 (getb (frame1 m) 4) (getb (frame1 m) 5) + 6 \<ge> xmit (frame1 m)"
  shows "wf_msg m'" "xmit (frame1 m') = xmit (frame1 m)"
  using assms wf_msgD [OF assms(1)] wf_frameD [OF wf_msgD(3) [OF assms(1)]]
  by (auto simp: modbusmq_tcp_msg_check_header_def Let_def wf_msg_def wf_frame_def
      MODBUSMQ_FRAME_MAX_def paired_def split: if_splits)

text \<open>What a complete response of at least 8 bytes needs to be accepted.\<close>

lemma tcp_msg_check_accepts:
  assumes wf: "wf_msg m" and len: "8 \<le> xmit (frame1 m)"
  shows "fst (modbusmq_tcp_msg_check m) = 0 \<longleftrightarrow>
      xmit (frame0 m) = flength (frame0 m)
    \<and> getb (frame1 m) 0 = getb (frame0 m) 0 \<and> getb (frame1 m) 1 = getb (frame0 m) 1
    \<and> getb (frame1 m) 2 = 0 \<and> getb (frame1 m) 3 = 0
    \<and> getb (frame0 m) 2 = 0 \<and> getb (frame0 m) 3 = 0
    \<and> be16 (getb (frame1 m) 4) (getb (frame1 m) 5) + 6 = xmit (frame1 m)
    \<and> xmit (frame1 m) = flength (frame1 m)
    \<and> getb (frame1 m) 6 = getb (frame0 m) 6
    \<and> (getb (frame1 m) 7 = getb (frame0 m) 7
       \<or> ((getb (frame1 m) 7 AND 0x80) \<noteq> 0 \<and> xmit (frame1 m) = 8))"
proof -
  have nz: "\<not> (-5 :: int) \<ge> 0" by simp
  show ?thesis
    using len wf_msgD [OF wf] wf_frameD [OF wf_msgD(3) [OF wf]]
    by (auto simp: modbusmq_tcp_msg_check_def modbusmq_tcp_msg_check_header_def Let_def
        tcp_check_unit_function_def MODBUSMQ_FRAME_MAX_def getb_def frame_at_def
        writer_ix_def reader_ix_def paired_def split: if_splits)
qed

section \<open>Recognising a frame on its own terms\<close>

lemma tcp_frame_drain_flength:
  assumes "modbusmq_tcp_frame_drain f = (rc, f')"
  shows "f' = f \<or> (rc = 0 \<and> (\<exists>L. f' = f\<lparr>flength := L\<rparr> \<and> xmit f < L \<and> L \<le> 260))"
  using assms
  by (auto simp: modbusmq_tcp_frame_drain_def Let_def MODBUSMQ_FRAME_MAX_def split: if_splits)

lemma tcp_frame_drain_rc: "modbusmq_tcp_frame_drain f = (rc, f') \<Longrightarrow> rc \<in> {-1, 0, 1}"
  by (auto simp: modbusmq_tcp_frame_drain_def Let_def split: if_splits)

lemma tcp_frame_drain_whole:
  assumes "modbusmq_tcp_frame_drain f = (1, f')"
  shows "f' = f" and "be16 (getb f 4) (getb f 5) + 6 = xmit f"
  using assms by (auto simp: modbusmq_tcp_frame_drain_def Let_def split: if_splits)

lemma tcp_accepted_drains:
  assumes "wf_msg m" and "8 \<le> xmit (frame1 m)" and "fst (modbusmq_tcp_msg_check m) = 0"
  shows "modbusmq_tcp_frame_drain (frame1 m) = (1, frame1 m)"
  using assms tcp_msg_check_accepts [OF assms(1,2)] wf_frameD [OF wf_msgD(3) [OF assms(1)]]
  by (simp add: modbusmq_tcp_frame_drain_def Let_def MODBUSMQ_FRAME_MAX_def)

end
