(* ===== verification/Line.thy ===== *)
theory Line
  imports Rtu_Facts Tcp_Facts
begin

text \<open>
  The descriptor operations of both transports and their dispatch in lib/modbusmq.c: writing
  a request, reading towards the length of the reader, and discarding what is on the line.

  A system call is its effect on the line part of the context. \<open>read(fd, p, n)\<close> hands over the
  first \<open>n\<close> bytes that wait in \<open>line_in\<close>, none when nothing waits (\<open>EAGAIN\<close> and a
  0-byte read both end as 0), and \<open>-1\<close> on a failed descriptor; \<open>write\<close> takes up to
  \<open>line_room\<close> bytes. Toggling RTS, \<open>tcdrain\<close> and \<open>usleep\<close> change nothing the library
  reads back.
\<close>

section \<open>System calls\<close>

definition sys_read :: "int \<Rightarrow> modbusmq_context_t \<Rightarrow> int \<times> byte list \<times> modbusmq_context_t" where
  "sys_read n c =
     (if line_fault c then (-1, [], c)
      else (let got = take (nat n) (line_in c)
            in (int (length got), got, c\<lparr>line_in := drop (nat n) (line_in c)\<rparr>)))"

definition sys_write :: "byte list \<Rightarrow> modbusmq_context_t \<Rightarrow> int \<times> modbusmq_context_t" where
  "sys_write bs c =
     (if line_fault c then (-1, c)
      else (let sent = take (line_room c) bs
            in (int (length sent), c\<lparr>line_out := line_out c @ sent\<rparr>)))"

text \<open>The bytes a read puts into the buffer, from \<open>xmit\<close> on.\<close>

definition copy_in :: "byte list \<Rightarrow> modbusmq_frame_t \<Rightarrow> modbusmq_frame_t" where
  "copy_in bs f =
     f\<lparr>fbuf := take (nat (xmit f)) (fbuf f) @ bs @ drop (nat (xmit f) + length bs) (fbuf f)\<rparr>"

section \<open>TCP\<close>

text \<open>The drain loop reads 256 bytes at a time until nothing is left.\<close>

function tcp_flush_loop :: "int \<Rightarrow> modbusmq_context_t \<Rightarrow> int \<times> modbusmq_context_t" where
  "tcp_flush_loop drained c =
     (let (rc, got, c') = sys_read 256 c
      in if rc > 0 then tcp_flush_loop (drained + rc) c' else (drained, c'))"
  by pat_completeness auto
termination
  by (relation "measure (\<lambda>(n, c). length (line_in c))")
     (auto simp: sys_read_def Let_def split: if_splits)

definition modbusmq_tcp_flush :: "modbusmq_context_t \<Rightarrow> int \<times> modbusmq_context_t" where
  "modbusmq_tcp_flush c = (if fd c < 0 then (0, c) else tcp_flush_loop 0 c)"

definition modbusmq_tcp_write ::
    "modbusmq_context_t \<Rightarrow> modbusmq_frame_t \<Rightarrow> int \<times> modbusmq_context_t \<times> modbusmq_frame_t" where
  "modbusmq_tcp_write c f =
     (let (rc, c) = sys_write (take (nat (flength f - xmit f)) (drop (nat (xmit f)) (fbuf f))) c
      in if rc < 0 then (rc, c, f) else (rc, c, f\<lparr>xmit := xmit f + rc\<rparr>))"

definition modbusmq_tcp_frame_check :: "modbusmq_frame_t \<Rightarrow> modbusmq_frame_t" where
  "modbusmq_tcp_frame_check f =
     (if \<not> is_writer f then f
      else if xmit f \<ge> 6 then
        (let msg_length = be16 (getb f 4) (getb f 5) + 6
         in if msg_length > 6 \<and> msg_length \<le> MODBUSMQ_FRAME_MAX \<and> flength f \<noteq> msg_length
            then f\<lparr>flength := msg_length\<rparr> else f)
      else f)"

definition modbusmq_tcp_read ::
    "modbusmq_context_t \<Rightarrow> modbusmq_frame_t \<Rightarrow> int \<times> modbusmq_context_t \<times> modbusmq_frame_t" where
  "modbusmq_tcp_read c f =
     (let f = (if flength f = 0 then f\<lparr>flength := 6\<rparr> else f)
      in if flength f \<le> xmit f \<or> flength f > MODBUSMQ_FRAME_MAX then (-1, c, f)
         else
           (let (rc, got, c) = sys_read (flength f - xmit f) c
            in if rc < 0 then (rc, c, modbusmq_tcp_frame_check f)
               else
                 (let f = (copy_in got f)\<lparr>xmit := xmit f + rc\<rparr>
                  in if xmit f \<ge> 6 then
                       (let declared = 6 + be16 (getb f 4) (getb f 5)
                        in if declared < 8 \<or> declared > MODBUSMQ_FRAME_MAX then (-1, c, f)
                           else (rc, c, modbusmq_tcp_frame_check (f\<lparr>flength := declared\<rparr>)))
                     else (rc, c, modbusmq_tcp_frame_check f))))"

section \<open>RTU\<close>

definition MODBUSMQ_RTU_QUIET_MIN_US :: "64 word" where
  "MODBUSMQ_RTU_QUIET_MIN_US = 1750"

definition modbusmq_rtu_quiet_us :: "modbusmq_rtu_context_t \<Rightarrow> 64 word" where
  "modbusmq_rtu_quiet_us rtu =
     (let quiet_us = (onebyte_delay_us rtu * 7) div 2
      in if quiet_us < MODBUSMQ_RTU_QUIET_MIN_US then MODBUSMQ_RTU_QUIET_MIN_US else quiet_us)"

definition rtu_quiet_ms :: "modbusmq_rtu_context_t \<Rightarrow> int" where
  "rtu_quiet_ms rtu =
     (let quiet_ms = sint (ucast ((modbusmq_rtu_quiet_us rtu + 999) div 1000) :: u32)
      in if quiet_ms < 1 then 1 else quiet_ms)"

definition rtu_max_drain_ms :: "modbusmq_rtu_context_t \<Rightarrow> millitime_t" where
  "rtu_max_drain_ms rtu =
     (word_of_int MODBUSMQ_FRAME_MAX * onebyte_delay_us rtu) div 1000
       + word_of_int (4 * rtu_quiet_ms rtu) + 10"

text \<open>
  One pass of the drain: \<open>poll\<close> for one quiet period, which ends early when bytes are waiting
  or a late burst comes in; \<open>None\<close> when the line stayed silent.
\<close>

definition rtu_poll :: "modbusmq_context_t \<Rightarrow> modbusmq_context_t option" where
  "rtu_poll c =
     (if line_in c \<noteq> [] then Some c
      else (case line_late c of
              [] \<Rightarrow> None
            | b # bs \<Rightarrow> Some (c\<lparr>line_in := b, line_late := bs\<rparr>)))"

lemma rtu_poll_measure:
  assumes "rtu_poll c = Some c'" and "sys_read 64 c' = (rc, got, c'')"
    and "\<not> line_fault c"
  shows "length (line_in c'') + sum_list (map (Suc \<circ> length) (line_late c''))
       < length (line_in c) + sum_list (map (Suc \<circ> length) (line_late c))"
  using assms by (auto simp: rtu_poll_def sys_read_def Let_def split: if_splits list.splits)

function rtu_flush_loop ::
    "millitime_t \<Rightarrow> int \<Rightarrow> modbusmq_context_t \<Rightarrow> int \<times> modbusmq_context_t" where
  "rtu_flush_loop deadline_ms ntotal c =
     (if line_fault c then (-1, c)
      else case rtu_poll c of
             None \<Rightarrow> (ntotal, c)
           | Some c1 \<Rightarrow>
               (let (rc, got, c2) = sys_read 64 c1;
                    ntotal = (if rc > 0 then ntotal + rc else ntotal);
                    (now, c3) = millitime c2
                in if now \<ge> deadline_ms then (ntotal, c3)
                   else rtu_flush_loop deadline_ms ntotal c3))"
  by pat_completeness auto
termination
proof (relation "measure (\<lambda>(d, n, c). length (line_in c) + sum_list (map (Suc \<circ> length) (line_late c)))",
    goal_cases)
  case (2 d n c c1 x rc y got c2 n' z now c3)
  then have "rtu_poll c = Some c1" "sys_read 64 c1 = (rc, got, c2)" "\<not> line_fault c"
    and c3: "c3 = c2\<lparr>ticks := Suc (ticks c2)\<rparr>"
    by (simp_all add: millitime_def)
  from rtu_poll_measure [OF this(1-3)] show ?case by (simp add: c3)
qed simp

declare tcp_flush_loop.simps [simp del] rtu_flush_loop.simps [simp del]

definition modbusmq_rtu_flush ::
    "modbusmq_rtu_context_t \<Rightarrow> modbusmq_context_t \<Rightarrow> int \<times> modbusmq_context_t" where
  "modbusmq_rtu_flush rtu c =
     (if fd c < 0 then (0, c)
      else (let (now, c) = millitime c
            in rtu_flush_loop (now + rtu_max_drain_ms rtu) 0 c))"

definition modbusmq_rtu_write ::
    "modbusmq_context_t \<Rightarrow> modbusmq_frame_t \<Rightarrow> int \<times> modbusmq_context_t \<times> modbusmq_frame_t" where
  "modbusmq_rtu_write c f =
     (let (rc, c) = sys_write (take (nat (flength f - xmit f)) (drop (nat (xmit f)) (fbuf f))) c
      in if rc < 0 then (rc, c, f) else (rc, c, f\<lparr>xmit := xmit f + rc\<rparr>))"

definition modbusmq_rtu_frame_check :: "modbusmq_frame_t \<Rightarrow> int \<times> modbusmq_frame_t" where
  "modbusmq_rtu_frame_check f =
     (if \<not> is_writer f then (0, f)
      else if xmit f \<ge> 3 then
        (let new_length = 3 + uint (getb f 2) + 2
         in if new_length < 0 \<or> new_length > 256 then (-1, f)
            else (0, if flength f \<noteq> new_length then f\<lparr>flength := new_length\<rparr> else f))
      else (0, f))"

definition modbusmq_rtu_read ::
    "modbusmq_rtu_context_t \<Rightarrow> modbusmq_context_t \<Rightarrow> modbusmq_frame_t
       \<Rightarrow> int \<times> modbusmq_context_t \<times> modbusmq_frame_t" where
  "modbusmq_rtu_read rtu c f =
     (let f = (if flength f = 0 then f\<lparr>flength := 8, xmit := 0\<rparr> else f);
          (rc, got, c) = sys_read (flength f - xmit f) c;
          f = (if rc > 0 then (copy_in got f)\<lparr>xmit := xmit f + rc\<rparr> else f);
          (ok, f) = modbusmq_rtu_frame_check f
      in if ok < 0 then (-1, snd (modbusmq_rtu_flush rtu c), f) else (rc, c, f))"

section \<open>Dispatch\<close>

definition modbusmq_write ::
    "modbusmq_context_t \<Rightarrow> modbusmq_frame_t \<Rightarrow> int \<times> modbusmq_context_t \<times> modbusmq_frame_t" where
  "modbusmq_write c f =
     (case link c of Tcp _ \<Rightarrow> modbusmq_tcp_write c f | Rtu _ \<Rightarrow> modbusmq_rtu_write c f)"

definition modbusmq_read ::
    "modbusmq_context_t \<Rightarrow> modbusmq_frame_t \<Rightarrow> int \<times> modbusmq_context_t \<times> modbusmq_frame_t" where
  "modbusmq_read c f =
     (case link c of Tcp _ \<Rightarrow> modbusmq_tcp_read c f | Rtu rtu \<Rightarrow> modbusmq_rtu_read rtu c f)"

definition modbusmq_flush :: "modbusmq_context_t \<Rightarrow> int \<times> modbusmq_context_t" where
  "modbusmq_flush c =
     (case link c of Tcp _ \<Rightarrow> modbusmq_tcp_flush c | Rtu rtu \<Rightarrow> modbusmq_rtu_flush rtu c)"

definition modbusmq_resync :: "modbusmq_context_t \<Rightarrow> modbusmq_context_t" where
  "modbusmq_resync c = snd (modbusmq_flush (c\<lparr>resync_pending := False\<rparr>))"

end
