(* ===== verification/Line_Facts.thy ===== *)
theory Line_Facts
  imports Line
begin

text \<open>
  What the descriptor operations do to the line and to the frames: a read appends the bytes it
  takes from the head of the line, never past the end of the buffer, and a flush leaves the
  rest of the context alone.
\<close>

section \<open>System calls\<close>

lemma sys_read_split:
  assumes "sys_read n c = (rc, got, c')" and "0 \<le> rc"
  shows "got @ line_in c' = line_in c" "rc = int (length got)" "int (length got) \<le> max 0 n"
    "c' = c\<lparr>line_in := line_in c'\<rparr>"
  using assms by (auto simp: sys_read_def Let_def split: if_splits)

lemma sys_read_shape: "sys_read n c = (rc, got, c') \<Longrightarrow> \<exists>l. c' = c\<lparr>line_in := l\<rparr>"
  by (cases "line_fault c") (auto simp: sys_read_def Let_def intro: exI [of _ "line_in c"])

lemma sys_write_shape: "sys_write bs c = (rc, c') \<Longrightarrow> \<exists>l. c' = c\<lparr>line_out := l\<rparr>"
  by (cases "line_fault c") (auto simp: sys_write_def Let_def intro: exI [of _ "line_out c"])

section \<open>Reading into a frame\<close>

lemma copy_in_fields [simp]:
  "is_writer (copy_in bs f) = is_writer f" "is_tcp (copy_in bs f) = is_tcp f"
  "flength (copy_in bs f) = flength f" "xmit (copy_in bs f) = xmit f"
  by (simp_all add: copy_in_def)

lemma length_copy_in:
  assumes "0 \<le> xmit f" and "nat (xmit f) + length bs \<le> length (fbuf f)"
  shows "length (fbuf (copy_in bs f)) = length (fbuf f)"
  using assms by (simp add: copy_in_def)

lemma received_copy_in:
  assumes "0 \<le> xmit f" and "nat (xmit f) + length bs \<le> length (fbuf f)"
  shows "received ((copy_in bs f)\<lparr>xmit := xmit f + int (length bs)\<rparr>) = received f @ bs"
proof -
  have "nat (xmit f + int (length bs)) = nat (xmit f) + length bs"
    using assms(1) by (simp add: nat_add_distrib)
  then show ?thesis using assms by (simp add: received_def copy_in_def)
qed

text \<open>The effect of a successful read on a reader: the next bytes of the line, nothing else.\<close>

definition read_effect ::
    "modbusmq_context_t \<Rightarrow> modbusmq_frame_t \<Rightarrow> int \<Rightarrow> modbusmq_context_t \<Rightarrow> modbusmq_frame_t \<Rightarrow> bool" where
  "read_effect c f rc c' f' \<longleftrightarrow>
     (\<exists>got. got @ line_in c' = line_in c \<and> rc = int (length got)
        \<and> received f' = received f @ got \<and> xmit f' = xmit f + rc
        \<and> length (fbuf f') = length (fbuf f)
        \<and> is_writer f' = is_writer f \<and> is_tcp f' = is_tcp f
        \<and> c' = c\<lparr>line_in := line_in c'\<rparr>)"

lemma read_effect_sys_read:
  assumes "sys_read (flength f - xmit f) c = (rc, got, c')" and "0 \<le> rc"
    and "wf_frame f" and "xmit f \<le> flength f"
  shows "read_effect c f rc c' ((copy_in got f)\<lparr>xmit := xmit f + rc\<rparr>)"
    and "xmit f + rc \<le> flength f"
proof -
  note s = sys_read_split [OF assms(1,2)] and w = wf_frameD [OF assms(3)]
  show le: "xmit f + rc \<le> flength f" using s assms(4) by simp
  then have fits: "nat (xmit f) + length got \<le> length (fbuf f)" using s(2) w by linarith
  then show "read_effect c f rc c' ((copy_in got f)\<lparr>xmit := xmit f + rc\<rparr>)"
    using s w received_copy_in [OF w(2) fits] length_copy_in [OF w(2) fits]
    by (auto simp: read_effect_def)
qed

lemma read_effect_flength [simp]:
  "read_effect c f rc c' (f'\<lparr>flength := L\<rparr>) = read_effect c f rc c' f'"
  by (simp add: read_effect_def received_def)

lemma getb_same_received:
  assumes "received f' = received f @ got" and "i < nat (xmit f)"
    and "length (fbuf f) = 260" and "xmit f \<le> 260" and "xmit f \<le> xmit f'"
  shows "getb f' i = getb f i"
proof -
  have "i < nat (xmit f')" using assms(2,5) by linarith
  then have "getb f' i = received f' ! i" by (rule getb_received)
  also have "\<dots> = received f ! i" using assms by (simp add: nth_append received_def)
  also have "\<dots> = getb f i" using assms(2) by (simp add: getb_received)
  finally show ?thesis .
qed

section \<open>RTU reads\<close>

lemma rtu_read_effect:
  assumes "wf_frame f" and "\<not> is_writer f" and "flength f \<noteq> 0"
    and "modbusmq_rtu_read rtu c f = (rc, c', f')" and "0 \<le> rc"
  shows "read_effect c f rc c' f'" "wf_frame f'" "flength f' = flength f"
proof -
  obtain got c1 where r: "sys_read (flength f - xmit f) c = (rc, got, c1)"
    and c': "c' = c1" and f': "f' = (if rc > 0 then (copy_in got f)\<lparr>xmit := xmit f + rc\<rparr> else f)"
    using assms(2-5)
    by (auto simp: modbusmq_rtu_read_def modbusmq_rtu_frame_check_def split: prod.splits if_splits)
  note w = wf_frameD [OF assms(1)]
  note e = read_effect_sys_read [OF r assms(5,1) w(3)]
  note s = sys_read_split [OF r assms(5)]
  have "read_effect c f rc c' f'"
  proof (cases "rc > 0")
    case True
    then show ?thesis using e(1) by (simp add: f' c')
  next
    case False
    then have "rc = 0" "got = []" using assms(5) s(2) by simp_all
    then show ?thesis using s by (auto simp: f' c' read_effect_def)
  qed
  then show "read_effect c f rc c' f'" .
  show "flength f' = flength f" by (simp add: f')
  show "wf_frame f'"
    using \<open>read_effect c f rc c' f'\<close> e(2) w assms(5) \<open>flength f' = flength f\<close>
    by (auto simp: read_effect_def wf_frame_def MODBUSMQ_FRAME_MAX_def)
qed

section \<open>TCP reads\<close>

text \<open>
  While the MBAP header is incomplete the window is the 8 header bytes; from then on it is
  what the header declares.
\<close>

definition tcp_window :: "modbusmq_frame_t \<Rightarrow> bool" where
  "tcp_window f \<longleftrightarrow>
     (if xmit f < 6 then 6 \<le> flength f \<and> flength f \<le> 8
      else flength f = be16 (getb f 4) (getb f 5) + 6)"

lemma tcp_read_effect:
  assumes wf: "wf_frame f" and rd: "\<not> is_writer f" and win: "tcp_window f"
    and more: "xmit f < flength f"
    and read: "modbusmq_tcp_read c f = (rc, c', f')" and ok: "0 \<le> rc"
  shows "read_effect c f rc c' f'" "wf_frame f'" "tcp_window f'"
proof -
  note w = wf_frameD [OF wf]
  have nz: "flength f \<noteq> 0" using more w(2) by linarith
  obtain got c1 where r: "sys_read (flength f - xmit f) c = (rc, got, c1)"
    using read ok more w nz
    by (auto simp: modbusmq_tcp_read_def MODBUSMQ_FRAME_MAX_def Let_def split: prod.splits if_splits)
  let ?g = "(copy_in got f)\<lparr>xmit := xmit f + rc\<rparr>"
  let ?d = "6 + be16 (getb ?g 4) (getb ?g 5)"
  note e = read_effect_sys_read [OF r ok wf w(3)]
  have c': "c' = c1"
    and f': "f' = (if xmit f + rc \<ge> 6 then ?g\<lparr>flength := ?d\<rparr> else ?g)"
    and d: "xmit f + rc \<ge> 6 \<longrightarrow> 8 \<le> ?d \<and> ?d \<le> 260"
    using read ok more w nz rd
    by (auto simp: modbusmq_tcp_read_def r MODBUSMQ_FRAME_MAX_def Let_def modbusmq_tcp_frame_check_def
        getb_def split: if_splits)
  show eff: "read_effect c f rc c' f'" using e(1) by (simp add: f' c')
  have same: "getb ?g i = getb f i" if "i < nat (xmit f)" for i
    using e(1) that w ok
    by (auto simp: read_effect_def intro!: getb_same_received)
  have le: "xmit f + rc \<le> ?d" if "xmit f + rc \<ge> 6"
  proof (cases "xmit f < 6")
    case True
    then have "flength f \<le> 8" using win by (simp add: tcp_window_def)
    then show ?thesis using e(2) d that by linarith
  next
    case False
    then have "flength f = ?d" using win same by (simp add: tcp_window_def)
    then show ?thesis using e(2) by simp
  qed
  have size: "length (fbuf f') = 260" "xmit f' = xmit f + rc"
    using eff w by (auto simp: read_effect_def)
  have len: "flength f' = (if xmit f + rc \<ge> 6 then ?d else flength f)" by (simp add: f')
  show "wf_frame f'"
    unfolding wf_frame_def MODBUSMQ_FRAME_MAX_def
    using size w ok d le e(2) len by (auto split: if_splits)
  show "tcp_window f'"
    using win w ok by (auto simp: tcp_window_def f' getb_def)
qed

section \<open>Flushing\<close>

lemma tcp_flush_loop_shape: "\<exists>l. snd (tcp_flush_loop n c) = c\<lparr>line_in := l\<rparr>"
proof (induction n c rule: tcp_flush_loop.induct)
  case (1 n c)
  obtain rc got c' where r: "sys_read 256 c = (rc, got, c')" by (cases "sys_read 256 c") auto
  obtain l where c': "c' = c\<lparr>line_in := l\<rparr>" using sys_read_shape [OF r] by blast
  show ?case
  proof (cases "rc > 0")
    case True
    have "\<exists>l'. snd (tcp_flush_loop (n + rc) c') = c'\<lparr>line_in := l'\<rparr>"
      by (rule 1 [OF r [symmetric] refl refl True])
    then show ?thesis using True r by (simp add: tcp_flush_loop.simps [of n c] c')
  next
    case False
    then show ?thesis using r by (simp add: tcp_flush_loop.simps [of n c] c') blast
  qed
qed

text \<open>A flush of a working TCP descriptor empties the receive buffer and counts it.\<close>

lemma tcp_flush_loop_empties:
  assumes "\<not> line_fault c"
  shows "tcp_flush_loop n c = (n + int (length (line_in c)), c\<lparr>line_in := []\<rparr>)"
  using assms
proof (induction n c rule: tcp_flush_loop.induct)
  case (1 n c)
  let ?got = "take 256 (line_in c)" and ?c = "c\<lparr>line_in := drop 256 (line_in c)\<rparr>"
  have r: "sys_read 256 c = (int (length ?got), ?got, ?c)"
    using 1 by (simp add: sys_read_def Let_def)
  show ?case
  proof (cases "line_in c = []")
    case True
    then show ?thesis using r by (simp add: tcp_flush_loop.simps [of n c])
  next
    case False
    then have "int (length ?got) > 0" by simp
    then have "tcp_flush_loop n c = tcp_flush_loop (n + int (length ?got)) ?c"
      using r by (simp add: tcp_flush_loop.simps [of n c])
    also have "\<dots> = (n + int (length ?got) + int (length (line_in ?c)), ?c\<lparr>line_in := []\<rparr>)"
      using 1 r \<open>int (length ?got) > 0\<close> by simp
    finally show ?thesis by (simp add: min_def)
  qed
qed

lemma rtu_poll_shape: "rtu_poll c = Some c' \<Longrightarrow> \<exists>a b. c' = c\<lparr>line_in := a, line_late := b\<rparr>"
proof (cases "line_in c = []")
  case False
  assume "rtu_poll c = Some c'"
  then have "c' = c\<lparr>line_in := line_in c, line_late := line_late c\<rparr>"
    using False by (simp add: rtu_poll_def)
  then show ?thesis by blast
qed (auto simp: rtu_poll_def split: list.splits)

text \<open>Whatever an RTU flush does, it does to the line and to the clock.\<close>

definition line_only :: "modbusmq_context_t \<Rightarrow> modbusmq_context_t \<Rightarrow> bool" where
  "line_only c c' \<longleftrightarrow> (\<exists>a b t. c' = c\<lparr>line_in := a, line_late := b, ticks := t\<rparr>)"

lemma line_only_refl [simp]: "line_only c c"
proof -
  have "c = c\<lparr>line_in := line_in c, line_late := line_late c, ticks := ticks c\<rparr>" by simp
  then show ?thesis unfolding line_only_def by blast
qed

lemma line_only_trans: "line_only a b \<Longrightarrow> line_only b c \<Longrightarrow> line_only a c"
  unfolding line_only_def by fastforce

lemma line_only_intros:
  "line_only c (c\<lparr>line_in := a\<rparr>)" "line_only c (c\<lparr>ticks := t\<rparr>)"
  "line_only c (c\<lparr>line_in := a, line_late := b\<rparr>)"
proof -
  have "c\<lparr>line_in := a\<rparr> = c\<lparr>line_in := a, line_late := line_late c, ticks := ticks c\<rparr>"
    "c\<lparr>ticks := t\<rparr> = c\<lparr>line_in := line_in c, line_late := line_late c, ticks := t\<rparr>"
    "c\<lparr>line_in := a, line_late := b\<rparr> = c\<lparr>line_in := a, line_late := b, ticks := ticks c\<rparr>"
    by simp_all
  then show "line_only c (c\<lparr>line_in := a\<rparr>)" "line_only c (c\<lparr>ticks := t\<rparr>)"
    "line_only c (c\<lparr>line_in := a, line_late := b\<rparr>)"
    unfolding line_only_def by blast+
qed

lemma rtu_flush_loop_line_only: "line_only c (snd (rtu_flush_loop d n c))"
proof (induction d n c rule: rtu_flush_loop.induct)
  case (1 d n c)
  show ?case
  proof (cases "line_fault c \<or> rtu_poll c = None")
    case True
    then show ?thesis by (auto simp: rtu_flush_loop.simps [of d n c])
  next
    case False
    then obtain c1 where f: "\<not> line_fault c" and p: "rtu_poll c = Some c1" by auto
    obtain rc got c2 where r: "sys_read 64 c1 = (rc, got, c2)" by (cases "sys_read 64 c1") auto
    obtain now c3 where t: "millitime c2 = (now, c3)" by (cases "millitime c2") auto
    let ?n = "if rc > 0 then n + rc else n"
    have "line_only c c1" using rtu_poll_shape [OF p] by (auto intro: line_only_intros)
    moreover have "line_only c1 c2" using sys_read_shape [OF r] by (auto intro: line_only_intros)
    moreover have "line_only c2 c3" using t by (auto simp: millitime_def intro: line_only_intros)
    ultimately have to: "line_only c c3" by (blast intro: line_only_trans)
    show ?thesis
    proof (cases "now \<ge> d")
      case True
      then show ?thesis using f p r t to by (simp add: rtu_flush_loop.simps [of d n c] Let_def)
    next
      case False
      have "line_only c3 (snd (rtu_flush_loop d ?n c3))"
        using 1 [OF f p r [symmetric] refl refl refl t [symmetric] refl False] by simp
      then show ?thesis
        using f p r t to False
        by (auto simp: rtu_flush_loop.simps [of d n c] Let_def intro: line_only_trans)
    qed
  qed
qed

lemma tcp_flush_line_only: "line_only c (snd (modbusmq_tcp_flush c))"
proof -
  obtain l where "snd (tcp_flush_loop 0 c) = c\<lparr>line_in := l\<rparr>"
    using tcp_flush_loop_shape by blast
  then show ?thesis by (simp add: modbusmq_tcp_flush_def line_only_intros)
qed

lemma rtu_flush_line_only: "line_only c (snd (modbusmq_rtu_flush rtu c))"
proof -
  let ?c = "c\<lparr>ticks := Suc (ticks c)\<rparr>"
  have "line_only c ?c" by (rule line_only_intros)
  then show ?thesis
    using line_only_trans [OF _ rtu_flush_loop_line_only]
    by (simp add: modbusmq_rtu_flush_def millitime_def Let_def)
qed

lemma flush_line_only: "line_only c (snd (modbusmq_flush c))"
  by (simp add: modbusmq_flush_def tcp_flush_line_only rtu_flush_line_only split: transport.split)

lemma read_line_only: "modbusmq_read c f = (rc, c', f') \<Longrightarrow> line_only c c'"
proof -
  have sr: "line_only c c'" if "sys_read n c = (rc, got, c')" for n rc got c'
    using sys_read_shape [OF that] by (auto intro: line_only_intros)
  have tcp: "line_only c c'" if "modbusmq_tcp_read c f = (rc, c', f')"
    using that sr
    by (auto simp: modbusmq_tcp_read_def Let_def split: prod.splits if_splits)
  have rtu: "line_only c c'" if "modbusmq_rtu_read rtu c f = (rc, c', f')" for rtu
  proof -
    from that obtain rc1 got c1 where r: "\<exists>n. sys_read n c = (rc1, got, c1)"
      and "c' = c1 \<or> c' = snd (modbusmq_rtu_flush rtu c1)"
      by (auto simp: modbusmq_rtu_read_def Let_def split: prod.splits if_splits)
    then show ?thesis using sr rtu_flush_line_only line_only_trans by blast
  qed
  show "modbusmq_read c f = (rc, c', f') \<Longrightarrow> line_only c c'"
    using tcp rtu by (auto simp: modbusmq_read_def split: transport.splits)
qed

text \<open>What a flush or a read cannot change.\<close>

lemma line_only_fields [keeps]:
  assumes "line_only c c'"
  shows "slave_id c' = slave_id c" "fd c' = fd c" "msg_queue c' = msg_queue c" "timers c' = timers c"
    "config c' = config c" "link c' = link c" "header_length c' = header_length c"
    "req_header_min c' = req_header_min c" "res_header_min c' = res_header_min c"
    "events c' = events c" "line_out c' = line_out c" "line_fault c' = line_fault c"
    "line_room c' = line_room c" "err c' = err c" "tx c' = tx c" "rx c' = rx c"
    "req_id_next c' = req_id_next c" "resync_pending c' = resync_pending c" "raw_cb c' = raw_cb c"
    "last_write_ms c' = last_write_ms c" "last_read_ms c' = last_read_ms c" "clock c' = clock c"
    "frame_timeout_ms c' = frame_timeout_ms c" "has_error_cb c' = has_error_cb c"
  using assms by (auto simp: line_only_def)

end
