(* ===== verification/Transport.thy ===== *)
theory Transport
  imports Line_Facts
begin

text \<open>
  The table of transport operations, \<open>modbusmq_cb_t\<close>, its two instances, the entry points of
  lib/modbusmq.c that go through it, and the request builders on top of it.

  The contract the event loop relies on is the locale \<open>transport\<close>; both instances are shown
  to keep it.
\<close>

section \<open>The operation table\<close>

record modbusmq_cb_t =
  cb_frame_init :: "modbusmq_context_t \<Rightarrow> int \<Rightarrow> int \<Rightarrow> int \<Rightarrow> modbusmq_frame_t"
  cb_msg_prepare :: "modbusmq_context_t \<Rightarrow> modbusmq_msg_t \<Rightarrow> int \<times> modbusmq_context_t \<times> modbusmq_msg_t"
  cb_msg_check :: "modbusmq_context_t \<Rightarrow> modbusmq_msg_t \<Rightarrow> int \<times> modbusmq_msg_t"
  cb_msg_check_header :: "modbusmq_context_t \<Rightarrow> modbusmq_msg_t \<Rightarrow> int \<times> modbusmq_msg_t"
  cb_frame_drain :: "modbusmq_context_t \<Rightarrow> modbusmq_frame_t \<Rightarrow> int \<times> modbusmq_frame_t"
  cb_frame_slave :: "modbusmq_frame_t \<Rightarrow> int"
  cb_frame_function :: "modbusmq_frame_t \<Rightarrow> int"
  cb_frame_error_code :: "modbusmq_frame_t \<Rightarrow> int"
  cb_frame_exception :: "modbusmq_frame_t \<Rightarrow> int"
  cb_msg_exception :: "modbusmq_msg_t \<Rightarrow> int"
  cb_msg_broadcast :: "modbusmq_msg_t \<Rightarrow> bool"
  cb_frame_addr :: "modbusmq_frame_t \<Rightarrow> int"
  cb_frame_naddr :: "modbusmq_frame_t \<Rightarrow> int"
  cb_frame_nbytes :: "modbusmq_frame_t \<Rightarrow> int"
  cb_frame_data :: "modbusmq_frame_t \<Rightarrow> byte list"
  cb_read_coil_bits :: "modbusmq_context_t \<Rightarrow> int \<Rightarrow> int \<Rightarrow> modbusmq_frame_t"
  cb_read_input_bits :: "modbusmq_context_t \<Rightarrow> int \<Rightarrow> int \<Rightarrow> modbusmq_frame_t"
  cb_read_holding_registers :: "modbusmq_context_t \<Rightarrow> int \<Rightarrow> int \<Rightarrow> modbusmq_frame_t"
  cb_read_input_registers :: "modbusmq_context_t \<Rightarrow> int \<Rightarrow> int \<Rightarrow> modbusmq_frame_t"
  cb_write_coil_bit :: "modbusmq_context_t \<Rightarrow> int \<Rightarrow> int \<Rightarrow> modbusmq_frame_t"
  cb_write_register :: "modbusmq_context_t \<Rightarrow> int \<Rightarrow> int \<Rightarrow> modbusmq_frame_t"
  cb_write_coil_bits :: "modbusmq_context_t \<Rightarrow> int \<Rightarrow> int \<Rightarrow> modbusmq_frame_t"
  cb_write_registers :: "modbusmq_context_t \<Rightarrow> int \<Rightarrow> int \<Rightarrow> modbusmq_frame_t"
  cb_write_mask_registers :: "modbusmq_context_t \<Rightarrow> int \<Rightarrow> int \<Rightarrow> modbusmq_frame_t"

definition tcp_prepare_in_context ::
    "modbusmq_context_t \<Rightarrow> modbusmq_msg_t \<Rightarrow> int \<times> modbusmq_context_t \<times> modbusmq_msg_t" where
  "tcp_prepare_in_context c m =
     (case link c of
        Tcp tcp \<Rightarrow> (let (rc, tcp, m) = modbusmq_tcp_msg_prepare tcp m in (rc, c\<lparr>link := Tcp tcp\<rparr>, m))
      | Rtu _ \<Rightarrow> (-1, c, m))"

definition modbusmq_tcp_cb :: modbusmq_cb_t where
  "modbusmq_tcp_cb = \<lparr>
     cb_frame_init = modbusmq_tcp_frame_init,
     cb_msg_prepare = tcp_prepare_in_context,
     cb_msg_check = (\<lambda>c. modbusmq_tcp_msg_check),
     cb_msg_check_header = (\<lambda>c. modbusmq_tcp_msg_check_header),
     cb_frame_drain = (\<lambda>c. modbusmq_tcp_frame_drain),
     cb_frame_slave = modbusmq_tcp_frame_slave,
     cb_frame_function = modbusmq_tcp_frame_function,
     cb_frame_error_code = modbusmq_tcp_frame_error_code,
     cb_frame_exception = modbusmq_tcp_frame_exception,
     cb_msg_exception = modbusmq_tcp_msg_exception,
     cb_msg_broadcast = modbusmq_tcp_msg_broadcast,
     cb_frame_addr = modbusmq_tcp_frame_addr,
     cb_frame_naddr = modbusmq_tcp_frame_naddr,
     cb_frame_nbytes = modbusmq_tcp_frame_nbytes,
     cb_frame_data = modbusmq_tcp_frame_data,
     cb_read_coil_bits = modbusmq_tcp_read_coil_bits,
     cb_read_input_bits = modbusmq_tcp_read_input_bits,
     cb_read_holding_registers = modbusmq_tcp_read_holding_registers,
     cb_read_input_registers = modbusmq_tcp_read_input_registers,
     cb_write_coil_bit = modbusmq_tcp_write_coil_bit,
     cb_write_register = modbusmq_tcp_write_register,
     cb_write_coil_bits = modbusmq_tcp_write_coil_bits,
     cb_write_registers = modbusmq_tcp_write_registers,
     cb_write_mask_registers = modbusmq_tcp_write_mask_registers\<rparr>"

definition modbusmq_rtu_cb :: modbusmq_cb_t where
  "modbusmq_rtu_cb = \<lparr>
     cb_frame_init = modbusmq_rtu_frame_init,
     cb_msg_prepare = (\<lambda>c m. let (rc, m) = modbusmq_rtu_msg_prepare m in (rc, c, m)),
     cb_msg_check = modbusmq_rtu_msg_check,
     cb_msg_check_header = modbusmq_rtu_msg_check_header,
     cb_frame_drain = modbusmq_rtu_frame_drain,
     cb_frame_slave = modbusmq_rtu_frame_slave,
     cb_frame_function = modbusmq_rtu_frame_function,
     cb_frame_error_code = modbusmq_rtu_frame_error_code,
     cb_frame_exception = modbusmq_rtu_frame_exception,
     cb_msg_exception = modbusmq_rtu_msg_exception,
     cb_msg_broadcast = modbusmq_rtu_msg_broadcast,
     cb_frame_addr = modbusmq_rtu_frame_addr,
     cb_frame_naddr = modbusmq_rtu_frame_naddr,
     cb_frame_nbytes = modbusmq_rtu_frame_nbytes,
     cb_frame_data = modbusmq_rtu_frame_data,
     cb_read_coil_bits = modbusmq_rtu_read_coil_bits,
     cb_read_input_bits = modbusmq_rtu_read_input_bits,
     cb_read_holding_registers = modbusmq_rtu_read_holding_registers,
     cb_read_input_registers = modbusmq_rtu_read_input_registers,
     cb_write_coil_bit = modbusmq_rtu_write_coil_bit,
     cb_write_register = modbusmq_rtu_write_register,
     cb_write_coil_bits = modbusmq_rtu_write_coil_bits,
     cb_write_registers = modbusmq_rtu_write_registers,
     cb_write_mask_registers = modbusmq_rtu_write_mask_registers\<rparr>"

text \<open>\<open>context->cb\<close>\<close>

definition cb :: "modbusmq_context_t \<Rightarrow> modbusmq_cb_t" where
  "cb c = (case link c of Tcp _ \<Rightarrow> modbusmq_tcp_cb | Rtu _ \<Rightarrow> modbusmq_rtu_cb)"

lemma cb_simps [simp]:
  "link c = Tcp t \<Longrightarrow> cb c = modbusmq_tcp_cb" "link c = Rtu r \<Longrightarrow> cb c = modbusmq_rtu_cb"
  by (simp_all add: cb_def)

section \<open>Entry points\<close>

definition modbusmq_frame_init ::
    "modbusmq_context_t \<Rightarrow> int \<Rightarrow> int \<Rightarrow> int \<Rightarrow> int \<times> modbusmq_frame_t" where
  "modbusmq_frame_init c function addr naddr =
     (let f = cb_frame_init (cb c) c function addr naddr in (flength f, f))"

definition modbusmq_msg_prepare ::
    "modbusmq_context_t \<Rightarrow> modbusmq_msg_t \<Rightarrow> int \<times> modbusmq_context_t \<times> modbusmq_msg_t" where
  "modbusmq_msg_prepare c m = cb_msg_prepare (cb c) c m"

definition modbusmq_msg_broadcast :: "modbusmq_context_t \<Rightarrow> modbusmq_msg_t \<Rightarrow> bool" where
  "modbusmq_msg_broadcast c m = cb_msg_broadcast (cb c) m"

definition modbusmq_frame_slave :: "modbusmq_context_t \<Rightarrow> modbusmq_frame_t \<Rightarrow> int" where
  "modbusmq_frame_slave c f = cb_frame_slave (cb c) f"

definition modbusmq_frame_transaction_id :: "modbusmq_context_t \<Rightarrow> modbusmq_frame_t \<Rightarrow> int" where
  "modbusmq_frame_transaction_id c f =
     (case link c of Tcp _ \<Rightarrow> modbusmq_tcp_frame_transaction_id f | Rtu _ \<Rightarrow> -1)"

definition modbusmq_frame_function :: "modbusmq_context_t \<Rightarrow> modbusmq_frame_t \<Rightarrow> int" where
  "modbusmq_frame_function c f = cb_frame_function (cb c) f"

definition modbusmq_frame_error_code :: "modbusmq_context_t \<Rightarrow> modbusmq_frame_t \<Rightarrow> int" where
  "modbusmq_frame_error_code c f = cb_frame_error_code (cb c) f"

definition modbusmq_frame_exception_code :: "modbusmq_context_t \<Rightarrow> modbusmq_frame_t \<Rightarrow> int" where
  "modbusmq_frame_exception_code c f = cb_frame_exception (cb c) f"

definition modbusmq_frame_addr :: "modbusmq_context_t \<Rightarrow> modbusmq_frame_t \<Rightarrow> int" where
  "modbusmq_frame_addr c f = cb_frame_addr (cb c) f"

definition modbusmq_naddr :: "modbusmq_context_t \<Rightarrow> modbusmq_frame_t \<Rightarrow> int" where
  "modbusmq_naddr c f = cb_frame_naddr (cb c) f"

definition modbusmq_frame_nbytes :: "modbusmq_context_t \<Rightarrow> modbusmq_frame_t \<Rightarrow> int" where
  "modbusmq_frame_nbytes c f = cb_frame_nbytes (cb c) f"

definition modbusmq_frame_data :: "modbusmq_context_t \<Rightarrow> modbusmq_frame_t \<Rightarrow> byte list" where
  "modbusmq_frame_data c f = cb_frame_data (cb c) f"

definition modbusmq_check :: "modbusmq_context_t \<Rightarrow> modbusmq_msg_t \<Rightarrow> int \<times> modbusmq_msg_t" where
  "modbusmq_check c m = cb_msg_check (cb c) c m"

definition modbusmq_check_header :: "modbusmq_context_t \<Rightarrow> modbusmq_msg_t \<Rightarrow> int \<times> modbusmq_msg_t" where
  "modbusmq_check_header c m = cb_msg_check_header (cb c) c m"

definition modbusmq_frame_drain :: "modbusmq_context_t \<Rightarrow> modbusmq_frame_t \<Rightarrow> int \<times> modbusmq_frame_t" where
  "modbusmq_frame_drain c f = cb_frame_drain (cb c) c f"

text \<open>\<open>modbusmq_exception_string\<close>\<close>

definition modbusmq_exception_string :: "int \<Rightarrow> string" where
  "modbusmq_exception_string code =
     (if code = 0x01 then ''illegal function''
      else if code = 0x02 then ''illegal data address''
      else if code = 0x03 then ''illegal data value''
      else if code = 0x04 then ''slave device failure''
      else if code = 0x05 then ''acknowledge, command accepted but not complete''
      else if code = 0x06 then ''slave device busy''
      else if code = 0x08 then ''memory parity error''
      else if code = 0x0A then ''gateway path unavailable''
      else if code = 0x0B then ''gateway target device failed to respond''
      else ''unknown exception'')"

section \<open>Request builders\<close>

definition modbusmq_frame_read_coil_bits ::
    "modbusmq_context_t \<Rightarrow> int \<Rightarrow> int \<Rightarrow> int \<times> modbusmq_frame_t" where
  "modbusmq_frame_read_coil_bits c addr nbits =
     (let f = cb_read_coil_bits (cb c) c addr nbits in (flength f, f))"

definition modbusmq_frame_read_input_bits ::
    "modbusmq_context_t \<Rightarrow> int \<Rightarrow> int \<Rightarrow> int \<times> modbusmq_frame_t" where
  "modbusmq_frame_read_input_bits c addr nbits =
     (let f = cb_read_input_bits (cb c) c addr nbits in (flength f, f))"

definition modbusmq_frame_read_holding_registers ::
    "modbusmq_context_t \<Rightarrow> int \<Rightarrow> int \<Rightarrow> int \<times> modbusmq_frame_t" where
  "modbusmq_frame_read_holding_registers c addr naddr =
     (let f = cb_read_holding_registers (cb c) c addr naddr in (flength f, f))"

definition modbusmq_frame_read_input_registers ::
    "modbusmq_context_t \<Rightarrow> int \<Rightarrow> int \<Rightarrow> int \<times> modbusmq_frame_t" where
  "modbusmq_frame_read_input_registers c addr naddr =
     (let f = cb_read_input_registers (cb c) c addr naddr in (flength f, f))"

definition modbusmq_frame_write_coil_bit ::
    "modbusmq_context_t \<Rightarrow> int \<Rightarrow> int \<Rightarrow> int \<times> modbusmq_frame_t" where
  "modbusmq_frame_write_coil_bit c addr value =
     (let f = cb_write_coil_bit (cb c) c addr value in (flength f, f))"

definition modbusmq_frame_write_register ::
    "modbusmq_context_t \<Rightarrow> int \<Rightarrow> int \<Rightarrow> int \<times> modbusmq_frame_t" where
  "modbusmq_frame_write_register c addr value =
     (let f = cb_write_register (cb c) c addr value in (flength f, f))"

text \<open>
  One payload byte of a coil write: the inner loop of \<open>modbusmq_frame_write_coil_bits\<close>,
  which stops at the last coil, and the outer loop over the bytes.
\<close>

fun coil_bit_loop :: "byte list \<Rightarrow> nat \<Rightarrow> nat \<Rightarrow> nat list \<Rightarrow> byte \<Rightarrow> byte" where
  "coil_bit_loop bits nbits ibyte [] b = b"
| "coil_bit_loop bits nbits ibyte (ibit # is) b =
     (let icoil = ibyte * 8 + ibit
      in if icoil \<ge> nbits then b
         else coil_bit_loop bits nbits ibyte is (b OR push_bit ibit (if bits ! icoil \<noteq> 0 then 1 else 0)))"

definition coil_byte :: "byte list \<Rightarrow> nat \<Rightarrow> nat \<Rightarrow> byte" where
  "coil_byte bits nbits ibyte = coil_bit_loop bits nbits ibyte [0..<8] 0"

text \<open>\<open>None\<close> is a read past the end of the caller's array, which C leaves undefined.\<close>

definition modbusmq_frame_write_coil_bits ::
    "modbusmq_context_t \<Rightarrow> modbusmq_frame_t \<Rightarrow> int \<Rightarrow> int \<Rightarrow> byte list
       \<Rightarrow> (int \<times> modbusmq_frame_t) option" where
  "modbusmq_frame_write_coil_bits c f addr nbits bits =
     (if nbits \<le> 0 \<or> nbits > 1968 then Some (-1, f)
      else
        (let nb = nbits div 8 + (if nbits mod 8 \<noteq> 0 then 1 else 0);
             f = cb_write_coil_bits (cb c) c addr nbits
         in if flength f + 1 + nb > MODBUSMQ_FRAME_MAX then Some (-1, f)
            else if int (length bits) < nbits then None
            else
              (let f = push_byte (word_of_int nb) f;
                   f = push_bytes (map (coil_byte bits (nat nbits)) [0..<nat nb]) f
               in Some (flength f, f))))"

definition modbusmq_frame_write_registers ::
    "modbusmq_context_t \<Rightarrow> modbusmq_frame_t \<Rightarrow> int \<Rightarrow> int \<Rightarrow> u16 list
       \<Rightarrow> (int \<times> modbusmq_frame_t) option" where
  "modbusmq_frame_write_registers c f addr naddr values =
     (if naddr \<le> 0 \<or> naddr > 123 then Some (-1, f)
      else
        (let f = cb_write_registers (cb c) c addr naddr
         in if flength f + 1 + naddr * 2 > MODBUSMQ_FRAME_MAX then Some (-1, f)
            else if int (length values) < naddr then None
            else
              (let f = push_byte (word_of_int (naddr * 2)) f;
                   f = push_bytes
                         (concat (map (\<lambda>v. [ucast (drop_bit 8 v), ucast (v AND 0x00ff)])
                                      (take (nat naddr) values))) f
               in Some (flength f, f))))"

definition modbusmq_frame_write_mask_registers ::
    "modbusmq_context_t \<Rightarrow> int \<Rightarrow> int \<Rightarrow> int \<Rightarrow> int \<times> modbusmq_frame_t" where
  "modbusmq_frame_write_mask_registers c addr and_mask or_mask =
     (let f = cb_write_mask_registers (cb c) c addr and_mask;
          f = push_byte (hi8 or_mask) f;
          f = push_byte (lo8 or_mask) f
      in (flength f, f))"

end
