(* ===== verification/Transport_Facts.thy ===== *)
theory Transport_Facts
  imports Transport
begin

text \<open>
  The contract between the event loop and a transport, kept by both; and what the request
  builders put into a frame.
\<close>

section \<open>The contract\<close>

text \<open>
  \<open>ok\<close> describes the contexts of the transport and \<open>window\<close> the readers it works with. A
  reader starts as an empty window of the header's length; reading appends bytes of the line
  inside the window, and matching or draining resizes the window without touching the bytes.
\<close>

locale transport =
  fixes ops :: modbusmq_cb_t
    and rd :: "modbusmq_context_t \<Rightarrow> modbusmq_frame_t \<Rightarrow> int \<times> modbusmq_context_t \<times> modbusmq_frame_t"
    and ok :: "modbusmq_context_t \<Rightarrow> bool"
    and window :: "modbusmq_frame_t \<Rightarrow> bool"
  assumes ok_cong: "ok c \<Longrightarrow> link c' = link c \<Longrightarrow> header_length c' = header_length c
                  \<Longrightarrow> req_header_min c' = req_header_min c \<Longrightarrow> res_header_min c' = res_header_min c \<Longrightarrow> ok c'"
    and window_min: "ok c \<Longrightarrow> window f \<Longrightarrow> 0 < res_header_min c \<and> res_header_min c \<le> flength f"
    and fresh: "ok c \<Longrightarrow> 0 < header_length c \<and> header_length c \<le> 260
                  \<and> window (frame_zero\<lparr>flength := header_length c\<rparr>)"
    and read_law: "ok c \<Longrightarrow> wf_frame f \<Longrightarrow> \<not> is_writer f \<Longrightarrow> window f \<Longrightarrow> xmit f < flength f
                  \<Longrightarrow> rd c f = (rc, c', f') \<Longrightarrow> 0 \<le> rc
                  \<Longrightarrow> read_effect c f rc c' f' \<and> wf_frame f' \<and> window f'"
    and header_shape: "paired m
                  \<Longrightarrow> \<exists>L. snd (cb_msg_check_header ops c m) = m\<lparr>frame1 := (frame1 m)\<lparr>flength := L\<rparr>\<rparr>"
    and header_window: "ok c \<Longrightarrow> wf_msg m \<Longrightarrow> window (frame1 m)
                  \<Longrightarrow> cb_msg_check_header ops c m = (rc, m') \<Longrightarrow> 0 \<le> rc
                  \<Longrightarrow> wf_msg m' \<and> window (frame1 m')"
    and header_mismatch: "ok c \<Longrightarrow> wf_msg m \<Longrightarrow> window (frame1 m)
                  \<Longrightarrow> cb_msg_check_header ops c m = (hrc, m') \<Longrightarrow> hrc < 0
                  \<Longrightarrow> cb_frame_drain ops c (frame1 m') = (rc, f') \<Longrightarrow> 0 \<le> rc \<Longrightarrow> m' = m"
    and drain_rc: "cb_frame_drain ops c f = (rc, f') \<Longrightarrow> rc \<in> {-1, 0, 1}"
    and drain_shape: "cb_frame_drain ops c f = (rc, f')
                  \<Longrightarrow> f' = f \<or> (rc = 0 \<and> (\<exists>L. f' = f\<lparr>flength := L\<rparr> \<and> xmit f < L \<and> L \<le> 260))"
    and drain_window: "ok c \<Longrightarrow> window f \<Longrightarrow> cb_frame_drain ops c f = (rc, f') \<Longrightarrow> window f'"
    and drain_more: "ok c \<Longrightarrow> window f \<Longrightarrow> cb_frame_drain ops c f = (0, f') \<Longrightarrow> xmit f' < flength f'"
begin

lemma ok_line: "line_only c c' \<Longrightarrow> ok c \<Longrightarrow> ok c'"
  by (rule ok_cong) (simp_all add: keeps)

text \<open>A reader that the loop re-arms is a well-formed empty window.\<close>

lemma fresh_reader:
  assumes "ok c"
  shows "wf_frame (frame_zero\<lparr>flength := header_length c\<rparr>)"
    and "window (frame_zero\<lparr>flength := header_length c\<rparr>)"
    and "xmit (frame_zero\<lparr>flength := header_length c\<rparr>) < flength (frame_zero\<lparr>flength := header_length c\<rparr>)"
  using fresh [OF assms] by (simp_all add: wf_frame_def MODBUSMQ_FRAME_MAX_def)

lemma drain_wf:
  assumes "wf_frame f" and "cb_frame_drain ops c f = (rc, f')"
  shows "wf_frame f'" "xmit f' = xmit f" "fbuf f' = fbuf f" "is_writer f' = is_writer f"
  using drain_shape [OF assms(2)] wf_frameD [OF assms(1)]
  by (auto simp: wf_frame_def MODBUSMQ_FRAME_MAX_def)

lemma header_fields:
  assumes "paired m" and "cb_msg_check_header ops c m = (rc, m')"
  shows "frame0 m' = frame0 m" "msg_id m' = msg_id m" "req_id m' = req_id m"
    "xmit (frame1 m') = xmit (frame1 m)" "fbuf (frame1 m') = fbuf (frame1 m)"
    "is_writer (frame1 m') = is_writer (frame1 m)" "paired m'"
  using header_shape [OF assms(1), of c] assms by (auto simp: paired_def)

lemma received_header:
  assumes "paired m" and "cb_msg_check_header ops c m = (rc, m')"
  shows "received (frame1 m') = received (frame1 m)"
  using header_fields [OF assms] by (simp add: received_def)

end

section \<open>RTU keeps it\<close>

definition rtu_ok :: "modbusmq_context_t \<Rightarrow> bool" where
  "rtu_ok c \<longleftrightarrow> (\<exists>r. link c = Rtu r) \<and> header_length c = 3 \<and> req_header_min c = 8 \<and> res_header_min c = 3"

definition tcp_ok :: "modbusmq_context_t \<Rightarrow> bool" where
  "tcp_ok c \<longleftrightarrow> (\<exists>t. link c = Tcp t \<and> wf_tcp t) \<and> header_length c = 8 \<and> req_header_min c = 6
     \<and> res_header_min c = 6"

definition rtu_window :: "modbusmq_frame_t \<Rightarrow> bool" where
  "rtu_window f \<longleftrightarrow> 3 \<le> flength f"

lemma rtu_header_window:
  assumes "rtu_ok c" and "wf_msg m" and "rtu_window (frame1 m)"
    and "modbusmq_rtu_msg_check_header c m = (rc, m')" and "0 \<le> rc"
  shows "wf_msg m' \<and> rtu_window (frame1 m')"
proof (cases "3 \<le> xmit (frame1 m)")
  case True
  note h = rtu_check_header_wf [OF assms(2,4,5) True]
  have "xmit (frame1 m') = xmit (frame1 m)"
    using rtu_check_header_shape [OF wf_msgD(1) [OF assms(2)], of c] assms(4) by auto
  then show ?thesis using h assms(5) True by (simp add: rtu_window_def)
next
  case False
  then have "m' = m" using assms(4) wf_msgD(1) [OF assms(2)] by (simp add: rtu_check_header_paired Let_def)
  then show ?thesis using assms by simp
qed

text \<open>
  A window that the header check shrinks below what has been read is one the drain refuses:
  the declared size is then the frame's own.
\<close>

lemma rtu_own_size:
  assumes "header_length c = 3" and "getb (frame1 m) 1 = getb (frame0 m) 1"
    and "rtu_count_ok (frame0 m) (frame1 m)"
  shows "rtu_frame_size c (frame1 m) \<le> rtu_response_length c (frame0 m)"
proof -
  let ?fn = "uint (getb (frame0 m) 1)"
  have n: "0 \<le> modbusmq_rtu_frame_naddr (frame0 m)"
    using be16_range(1) by (simp add: modbusmq_rtu_frame_naddr_def)
  have b: "uint (getb (frame1 m) 2) \<ge> 0" by simp
  show ?thesis
    using assms n b
    by (auto simp: rtu_frame_size_def rtu_response_length_def rtu_count_ok_def Let_def
        modbusmq_rtu_expected_nbytes_def modbusmq_rtu_frame_function_def)
qed

lemma rtu_frame_size_flength: "rtu_frame_size c (f\<lparr>flength := l\<rparr>) = rtu_frame_size c f"
proof -
  have g: "getb (f\<lparr>flength := l\<rparr>) i = getb f i" for i by (simp add: getb_def)
  show ?thesis unfolding rtu_frame_size_def g ..
qed

lemma rtu_header_mismatch:
  assumes "rtu_ok c" and "wf_msg m" and "modbusmq_rtu_msg_check_header c m = (hrc, m')" and "hrc < 0"
    and "modbusmq_rtu_frame_drain c (frame1 m') = (rc, f')" and "0 \<le> rc"
  shows "m' = m"
proof (rule ccontr)
  assume ne: "m' \<noteq> m"
  have hl: "header_length c = 3" using assms(1) by (simp add: rtu_ok_def)
  note p = rtu_check_header_paired [OF wf_msgD(1) [OF assms(2)], of c]
  have x: "3 \<le> xmit (frame1 m)" using ne assms(3) by (auto simp: p Let_def split: if_splits)
  obtain L where L: "m' = m\<lparr>frame1 := (frame1 m)\<lparr>flength := L\<rparr>\<rparr>" "L < xmit (frame1 m)"
    and src: "(getb (frame1 m) 1 = getb (frame0 m) 1 \<and> rtu_count_ok (frame0 m) (frame1 m)
          \<and> L = rtu_response_length c (frame0 m))
       \<or> (getb (frame1 m) 1 = (getb (frame0 m) 1 OR 0x80) \<and> L = 5)"
    using ne assms(3,4) by (auto simp: p Let_def split: if_splits)
  have "rtu_frame_size c (frame1 m) \<le> L"
    using src
  proof (elim disjE conjE)
    assume "getb (frame1 m) 1 = (getb (frame0 m) 1 OR 0x80)" and "L = 5"
    then have "getb (frame1 m) 1 AND 0x80 = (0x80 :: byte)" by simp
    then have "(getb (frame1 m) 1 AND 0x80) \<noteq> 0" by simp
    then show ?thesis using \<open>L = 5\<close> by (simp add: rtu_frame_size_def Let_def flip: byte_flag_uint)
  qed (use rtu_own_size [OF hl] in simp)
  then have "rtu_frame_size c (frame1 m') < xmit (frame1 m')"
    using L rtu_frame_size_flength [of c L "frame1 m"] by simp
  then show False
    using assms(5,6) x L(1) by (auto simp: rtu_frame_drain_sized Let_def split: if_splits)
qed

lemma rtu_drain_window:
  assumes "rtu_window f" and "modbusmq_rtu_frame_drain c f = (rc, f')"
  shows "rtu_window f'"
proof (cases "xmit f < 2")
  case True
  then show ?thesis using assms by (simp add: modbusmq_rtu_frame_drain_def)
next
  case False
  then show ?thesis
    using rtu_frame_drain_flength [OF assms(2)] assms(1) by (auto simp: rtu_window_def)
qed

lemma rtu_drain_more:
  assumes "rtu_window f" and "modbusmq_rtu_frame_drain c f = (0, f')"
  shows "xmit f' < flength f'"
proof (cases "xmit f < 3")
  case True
  then show ?thesis
    using rtu_frame_drain_flength [OF assms(2)] assms(1) by (auto simp: rtu_window_def)
next
  case False
  then show ?thesis
    using assms(2) by (auto simp: rtu_frame_drain_sized Let_def split: if_splits)
qed

lemma modbusmq_read_rtu: "rtu_ok c \<Longrightarrow> \<exists>r. link c = Rtu r \<and> modbusmq_read c f = modbusmq_rtu_read r c f"
  by (auto simp: rtu_ok_def modbusmq_read_def)

lemma modbusmq_read_tcp: "tcp_ok c \<Longrightarrow> modbusmq_read c f = modbusmq_tcp_read c f"
  by (auto simp: tcp_ok_def modbusmq_read_def)

interpretation rtu: transport modbusmq_rtu_cb modbusmq_read rtu_ok rtu_window
proof (unfold_locales, goal_cases)
  case (1 c c')
  then show ?case by (simp add: rtu_ok_def)
next
  case (2 c f)
  then show ?case by (simp add: rtu_ok_def rtu_window_def)
next
  case (3 c)
  then show ?case by (simp add: rtu_ok_def rtu_window_def)
next
  case (4 c f rc c' f')
  have nz: "flength f \<noteq> 0" using 4(4) by (simp add: rtu_window_def)
  obtain r where "modbusmq_rtu_read r c f = (rc, c', f')"
    using modbusmq_read_rtu [OF 4(1), of f] 4(6) by auto
  from rtu_read_effect [OF 4(2,3) nz this 4(7)] show ?case using 4(4) by (simp add: rtu_window_def)
next
  case (5 m c)
  then show ?case by (simp add: modbusmq_rtu_cb_def rtu_check_header_shape)
next
  case (6 c m rc m')
  have h: "modbusmq_rtu_msg_check_header c m = (rc, m')" using 6(4) by (simp add: modbusmq_rtu_cb_def)
  show ?case by (rule rtu_header_window [OF 6(1-3) h 6(5)])
next
  case (7 c m hrc m' rc f')
  have h: "modbusmq_rtu_msg_check_header c m = (hrc, m')" using 7(4) by (simp add: modbusmq_rtu_cb_def)
  have d: "modbusmq_rtu_frame_drain c (frame1 m') = (rc, f')" using 7(6) by (simp add: modbusmq_rtu_cb_def)
  show ?case by (rule rtu_header_mismatch [OF 7(1,2) h 7(5) d 7(7)])
next
  case (8 c f rc f')
  then show ?case using rtu_frame_drain_rc by (auto simp: modbusmq_rtu_cb_def)
next
  case (9 c f rc f')
  then show ?case by (simp add: modbusmq_rtu_cb_def rtu_frame_drain_flength)
next
  case (10 c f rc f')
  have d: "modbusmq_rtu_frame_drain c f = (rc, f')" using 10(3) by (simp add: modbusmq_rtu_cb_def)
  show ?case by (rule rtu_drain_window [OF 10(2) d])
next
  case (11 c f f')
  have d: "modbusmq_rtu_frame_drain c f = (0, f')" using 11(3) by (simp add: modbusmq_rtu_cb_def)
  show ?case by (rule rtu_drain_more [OF 11(2) d])
qed

section \<open>TCP keeps it\<close>

lemma tcp_header_same:
  assumes "wf_msg m" and "tcp_window (frame1 m)"
    and "modbusmq_tcp_msg_check_header m = (rc, m')"
  shows "m' = m"
proof -
  have p: "writer_of m = frame0 m" "reader_of m = frame1 m" "reader_ix m = 1"
    using wf_msgD(1) [OF assms(1)] by simp_all
  have "\<not> (6 \<le> xmit (frame1 m) \<and> be16 (getb (frame1 m) 4) (getb (frame1 m) 5) + 6 \<noteq> xmit (frame1 m)
        \<and> be16 (getb (frame1 m) 4) (getb (frame1 m) 5) + 6 \<noteq> flength (frame1 m))"
    using assms(2) by (metis tcp_window_def not_less)
  then have "snd (modbusmq_tcp_msg_check_header m) = m"
    unfolding modbusmq_tcp_msg_check_header_def Let_def p
    by (simp only: if_False if_distrib [of snd] snd_conv if_cancel frame_at_simps)
  then show ?thesis using assms(3) by simp
qed

lemma tcp_header_window:
  assumes "wf_msg m" and "tcp_window (frame1 m)" and "modbusmq_tcp_msg_check_header m = (rc, m')"
  shows "wf_msg m' \<and> tcp_window (frame1 m')"
  using tcp_header_same [OF assms] assms(1,2) by simp

lemma tcp_drain_window:
  assumes "tcp_window f" and "modbusmq_tcp_frame_drain f = (rc, f')"
  shows "tcp_window f'"
proof -
  let ?len = "be16 (getb f 4) (getb f 5) + 6"
  have "f' = f \<or> (6 \<le> xmit f \<and> f' = f\<lparr>flength := ?len\<rparr>)"
    using assms(2) unfolding modbusmq_tcp_frame_drain_def Let_def
    by (simp only: not_less prod.inject split: if_splits) blast+
  then show ?thesis using assms(1) by (elim disjE) (simp_all add: tcp_window_def getb_def)
qed

lemma tcp_drain_more:
  assumes "tcp_window f" and "modbusmq_tcp_frame_drain f = (0, f')"
  shows "xmit f' < flength f'"
proof (cases "xmit f < 6")
  case True
  then show ?thesis using assms by (simp add: modbusmq_tcp_frame_drain_def tcp_window_def)
next
  case False
  then show ?thesis
    using assms(2) unfolding modbusmq_tcp_frame_drain_def Let_def by (auto split: if_splits)
qed

interpretation tcp: transport modbusmq_tcp_cb modbusmq_read tcp_ok tcp_window
proof (unfold_locales, goal_cases)
  case (1 c c')
  then show ?case by (simp add: tcp_ok_def)
next
  case (2 c f)
  have "0 \<le> be16 (getb f 4) (getb f 5)" by (rule be16_range)
  then show ?case using 2 by (auto simp: tcp_ok_def tcp_window_def split: if_splits)
next
  case (3 c)
  then show ?case by (simp add: tcp_ok_def tcp_window_def)
next
  case (4 c f rc c' f')
  have rd: "modbusmq_tcp_read c f = (rc, c', f')" using 4(6) modbusmq_read_tcp [OF 4(1)] by simp
  show ?case using tcp_read_effect [OF 4(2,3,4,5) rd 4(7)] by blast
next
  case (5 m c)
  then show ?case by (simp add: modbusmq_tcp_cb_def tcp_check_header_shape)
next
  case (6 c m rc m')
  have h: "modbusmq_tcp_msg_check_header m = (rc, m')" using 6(4) by (simp add: modbusmq_tcp_cb_def)
  show ?case by (rule tcp_header_window [OF 6(2,3) h])
next
  case (7 c m hrc m' rc f')
  have h: "modbusmq_tcp_msg_check_header m = (hrc, m')" using 7(4) by (simp add: modbusmq_tcp_cb_def)
  show ?case by (rule tcp_header_same [OF 7(2,3) h])
next
  case (8 c f rc f')
  then show ?case using tcp_frame_drain_rc by (auto simp: modbusmq_tcp_cb_def)
next
  case (9 c f rc f')
  then show ?case by (simp add: modbusmq_tcp_cb_def tcp_frame_drain_flength)
next
  case (10 c f rc f')
  have d: "modbusmq_tcp_frame_drain f = (rc, f')" using 10(3) by (simp add: modbusmq_tcp_cb_def)
  show ?case by (rule tcp_drain_window [OF 10(2) d])
next
  case (11 c f f')
  have d: "modbusmq_tcp_frame_drain f = (0, f')" using 11(3) by (simp add: modbusmq_tcp_cb_def)
  show ?case by (rule tcp_drain_more [OF 11(2) d])
qed

end
