(* ===== verification/Text.thy ===== *)
theory Text
  imports Prelude
begin

text \<open>
  The pieces of the C library's text conversions that the sources use: \<open>%d\<close>, \<open>%u\<close> and
  \<open>%04X\<close> of \<open>snprintf\<close>, its truncation, \<open>strspn\<close>/\<open>strcspn\<close> and the integer scan of
  \<open>strtol\<close> with base 0. Strings are lists of characters without the final NUL.
\<close>

section \<open>Printing\<close>

definition hex_digit :: "nat \<Rightarrow> char" where
  "hex_digit n = ''0123456789ABCDEF'' ! (n mod 16)"

fun nat_str :: "nat \<Rightarrow> string" where
  "nat_str n = (if n < 10 then [hex_digit n] else nat_str (n div 10) @ [hex_digit (n mod 10)])"

declare nat_str.simps [simp del]

definition int_str :: "int \<Rightarrow> string" where
  "int_str i = (if i < 0 then CHR ''-'' # nat_str (nat (- i)) else nat_str (nat i))"

text \<open>\<open>0x%04X\<close> of a 16-bit value\<close>

definition hex4 :: "int \<Rightarrow> string" where
  "hex4 v = ''0x'' @ [hex_digit (nat (v div 4096)), hex_digit (nat (v div 256)),
                       hex_digit (nat (v div 16)), hex_digit (nat v)]"

text \<open>\<open>snprintf(buf, size, ...)\<close> keeps \<open>size - 1\<close> characters.\<close>

definition fit :: "nat \<Rightarrow> string \<Rightarrow> string" where
  "fit n s = take (n - 1) s"

section \<open>Scanning\<close>

definition is_digit_of :: "nat \<Rightarrow> char \<Rightarrow> bool" where
  "is_digit_of base ch =
     (let c = of_char ch :: nat
      in (48 \<le> c \<and> c \<le> 57 \<and> c - 48 < base)
         \<or> (base = 16 \<and> ((65 \<le> c \<and> c \<le> 70) \<or> (97 \<le> c \<and> c \<le> 102))))"

definition digit_val :: "char \<Rightarrow> nat" where
  "digit_val ch =
     (let c = of_char ch :: nat
      in if c \<le> 57 then c - 48 else if c \<le> 70 then c - 55 else c - 87)"

definition digits_val :: "nat \<Rightarrow> string \<Rightarrow> nat" where
  "digits_val base s = foldl (\<lambda>v ch. v * base + digit_val ch) 0 s"

text \<open>
  \<open>strtol(s, &end, 0)\<close>: the value and the rest, with \<open>None\<close> where no conversion is
  performed. \<open>0x\<close> without a hex digit after it
  converts the \<open>0\<close> alone. The result is clamped to a 64-bit \<open>long\<close>.
\<close>

definition clamp_long :: "int \<Rightarrow> int" where
  "clamp_long v = max (- (2 ^ 63)) (min (2 ^ 63 - 1) v)"

definition strtol_unsigned :: "string \<Rightarrow> (nat \<times> string) option" where
  "strtol_unsigned s =
     (let hex = (case s of
                   z # x # d # _ \<Rightarrow> z = CHR ''0'' \<and> (x = CHR ''x'' \<or> x = CHR ''X'') \<and> is_digit_of 16 d
                 | _ \<Rightarrow> False);
          base = (if hex then 16 else if take 1 s = ''0'' then 8 else 10);
          body = (if hex then drop 2 s else s);
          ds = takeWhile (is_digit_of base) body
      in if ds = [] then None else Some (digits_val base ds, drop (length ds) body))"

definition is_space :: "char \<Rightarrow> bool" where
  "is_space ch = (let c = of_char ch :: nat in c = 32 \<or> (9 \<le> c \<and> c \<le> 13))"

definition strtol0 :: "string \<Rightarrow> (int \<times> string) option" where
  "strtol0 text =
     (let s = dropWhile is_space text;
          neg = (take 1 s = ''-'');
          body = (if neg \<or> take 1 s = ''+'' then drop 1 s else s)
      in map_option (\<lambda>(v, rest). (clamp_long (if neg then - int v else int v), rest))
           (strtol_unsigned body))"

text \<open>\<open>%d\<close> of \<open>sscanf\<close>\<close>

definition scan_d :: "string \<Rightarrow> (int \<times> string) option" where
  "scan_d text =
     (let s = dropWhile is_space text;
          neg = (take 1 s = ''-'');
          body = (if neg \<or> take 1 s = ''+'' then drop 1 s else s);
          ds = takeWhile (is_digit_of 10) body; v = int (digits_val 10 ds)
      in if ds = [] then None else Some (if neg then - v else v, drop (length ds) body))"

text \<open>A literal character of a \<open>sscanf\<close> format\<close>

definition scan_lit :: "string \<Rightarrow> string \<Rightarrow> string option" where
  "scan_lit lit s = (if take (length lit) s = lit then Some (drop (length lit) s) else None)"

section \<open>What is printed scans back\<close>

lemma of_char_hex_digit:
  assumes "n < 10"
  shows "of_char (hex_digit n) = (48 + n :: nat)"
proof -
  have "n \<in> {0, 1, 2, 3, 4, 5, 6, 7, 8, 9}" using assms by auto
  then show ?thesis by (auto simp: hex_digit_def)
qed

lemma nat_str_digits: "\<forall>ch \<in> set (nat_str n). is_digit_of 10 ch"
proof (induction n rule: nat_str.induct)
  case (1 n)
  then show ?case
    by (subst nat_str.simps) (auto simp: is_digit_of_def Let_def of_char_hex_digit)
qed

lemma digits_val_snoc: "digits_val b (s @ [ch]) = digits_val b s * b + digit_val ch"
  by (simp add: digits_val_def)

lemma digits_val_nat_str: "digits_val 10 (nat_str n) = n"
proof (induction n rule: nat_str.induct)
  case (1 n)
  then show ?case
    by (subst nat_str.simps)
       (auto simp: digits_val_snoc digit_val_def Let_def of_char_hex_digit digits_val_def)
qed

lemma nat_str_nonempty [simp]: "nat_str n \<noteq> []"
  by (subst nat_str.simps) simp

lemma nat_str_first: "0 < n \<Longrightarrow> hd (nat_str n) \<noteq> CHR ''0''"
proof (induction n rule: nat_str.induct)
  case (1 n)
  show ?case
  proof (cases "n < 10")
    case True
    have "of_char (hex_digit n) \<noteq> (48 :: nat)" using True 1(2) by (simp add: of_char_hex_digit)
    then have "hex_digit n \<noteq> CHR ''0''" by auto
    then show ?thesis using True by (subst nat_str.simps) simp
  next
    case False
    then show ?thesis using 1 by (subst nat_str.simps) (simp add: hd_append)
  qed
qed

end
