(* ===== verification/Connect.thy ===== *)
theory Connect
  imports Transport_Facts Text "HOL-Library.Sublist"
begin

text \<open>
  Making a context: \<open>modbusmq_parse_connect_string\<close> of lib/modbusmq.c, the constructors
  \<open>modbusmq_rtu_context\<close> of lib/modbusmq_rtu.c and \<open>modbusmq_tcp_context\<close> of
  lib/modbusmq_tcp.c. Opening the device or the socket is in \<open>Opening\<close>.
\<close>

section \<open>Connect strings\<close>

datatype connect_type = CONNECT_TCP | CONNECT_RTU | CONNECT_MQTT

record modbusmq_connect_t =
  connect_type :: connect_type
  cn_device :: string
  cn_port :: int
  cn_parity :: char
  cn_baudrate :: int
  cn_databits :: int
  cn_stopbit :: int

text \<open>\<open>strtok(azConnectString, "://")\<close> on the first 199 characters: the first run of others.\<close>

definition first_token :: "string \<Rightarrow> string" where
  "first_token s =
     (let delim = (\<lambda>ch. ch = CHR '':'' \<or> ch = CHR ''/'')
      in takeWhile (Not \<circ> delim) (dropWhile delim (take 199 s)))"

text \<open>\<open>%199[^:]\<close> followed by \<open>:\<close> and a number; the match count says how far it got.\<close>

definition scan_host :: "string \<Rightarrow> (string \<times> string) option" where
  "scan_host s =
     (let host = take 199 (takeWhile (\<lambda>ch. ch \<noteq> CHR '':'') s)
      in if host = [] then None else Some (host, drop (length host) s))"

definition scan_colon_d :: "string \<Rightarrow> (int \<times> string) option" where
  "scan_colon_d s = (case scan_lit '':'' s of None \<Rightarrow> None | Some r \<Rightarrow> scan_d r)"

definition scan_host_port :: "string \<Rightarrow> string \<Rightarrow> (string \<times> int) option" where
  "scan_host_port scheme s =
     (case scan_lit scheme s of None \<Rightarrow> None | Some r \<Rightarrow>
       (case scan_host r of None \<Rightarrow> None | Some (host, r) \<Rightarrow>
         (case scan_colon_d r of None \<Rightarrow> None | Some (port, r) \<Rightarrow> Some (host, port))))"

definition scan_rtu :: "string \<Rightarrow> (string \<times> int \<times> int \<times> int \<times> char) option" where
  "scan_rtu s =
     (case scan_lit ''rtu://'' s of None \<Rightarrow> None | Some r \<Rightarrow>
       (case scan_host r of None \<Rightarrow> None | Some (device, r) \<Rightarrow>
         (case scan_colon_d r of None \<Rightarrow> None | Some (baud, r) \<Rightarrow>
           (case scan_colon_d r of None \<Rightarrow> None | Some (stopbit, r) \<Rightarrow>
             (case scan_colon_d r of None \<Rightarrow> None | Some (databits, r) \<Rightarrow>
               (case scan_lit '':'' r of
                  Some (parity # _) \<Rightarrow> Some (device, baud, stopbit, databits, parity)
                | _ \<Rightarrow> None))))))"

text \<open>\<open>Inl\<close> is the error code. A protocol is recognised anywhere in the first token.\<close>

definition modbusmq_parse_connect_string :: "string \<Rightarrow> int + modbusmq_connect_t" where
  "modbusmq_parse_connect_string s =
     (let ptr = first_token s;
          zero = \<lparr>connect_type = CONNECT_TCP, cn_device = [], cn_port = 0, cn_parity = CHR 0x00,
                  cn_baudrate = 0, cn_databits = 0, cn_stopbit = 0\<rparr>
      in if ptr = [] then Inl (-1)
         else if sublist ''tcp'' ptr then
           (case scan_host_port ''tcp://'' s of
              None \<Rightarrow> Inl (-2)
            | Some (host, port) \<Rightarrow> Inr (zero\<lparr>cn_device := host, cn_port := port\<rparr>))
         else if sublist ''rtu'' ptr then
           (case scan_rtu s of
              None \<Rightarrow> Inl (-2)
            | Some (device, baud, stopbit, databits, parity) \<Rightarrow>
                Inr (zero\<lparr>connect_type := CONNECT_RTU, cn_device := device, cn_baudrate := baud,
                          cn_stopbit := stopbit, cn_databits := databits, cn_parity := parity\<rparr>))
         else if sublist ''mqtt'' ptr then
           (case scan_host_port ''mqtt://'' s of
              None \<Rightarrow> Inl (-2)
            | Some (host, port) \<Rightarrow>
                Inr (zero\<lparr>connect_type := CONNECT_MQTT, cn_device := host, cn_port := port\<rparr>))
         else Inl (-2))"

section \<open>Constructors\<close>

text \<open>
  \<open>memset(context, 0, sizeof)\<close> and the three \<open>-1\<close> fields; \<open>clk\<close> is the clock it will
  read and \<open>strerr\<close> the C library's error texts. Its line is empty.
\<close>

definition context_zero :: "(nat \<Rightarrow> millitime_t) \<Rightarrow> (int \<Rightarrow> string) \<Rightarrow> transport \<Rightarrow> modbusmq_context_t" where
  "context_zero clk strerr tr =
     \<lparr>slave_id = 0xff, fd = -1, rts_delay_us = 0, last_write_ms = 0, last_read_ms = 0,
      frame_timeout_ms = 0, msg_queue = [], timers = [], round_active = False, round_start_ms = 0,
      round_count = 0, round_last_ms = 0, round_deep_slave = -1, round_focus = -1,
      req_header_min = 0, res_header_min = 0, resync_pending = False, has_message_cb = False,
      has_subscribe_cb = False, has_error_cb = False, raw_cb = False, raw_text = [],
      raw_req_id = 0, raw_count = 0, raw_fc = 0, req_id_next = 0, config = None, link = tr,
      header_length = 0, tx = 0, rx = 0, err = 0, timer_id_next = 0, libc_strerror = strerr,
      clock = clk, ticks = 0, line_in = [], line_late = [], line_room = 0, line_fault = False,
      line_out = [], events = []\<rparr>"

text \<open>The first 100 characters of the device name are kept, a NUL after them only if shorter.\<close>

definition modbusmq_rtu_context ::
    "(nat \<Rightarrow> millitime_t) \<Rightarrow> (int \<Rightarrow> string) \<Rightarrow> string \<Rightarrow> int \<Rightarrow> char \<Rightarrow> int \<Rightarrow> int
       \<Rightarrow> modbusmq_context_t option" where
  "modbusmq_rtu_context clk strerr device baud parity databit stopbit =
     (if baud \<le> 0 \<or> databit < 0 \<or> stopbit < 0 then None
      else
        (let onebyte = word_of_int
               (1000000 * (1 + databit + (if parity = CHR ''N'' then 0 else 1) + stopbit) div baud);
             rtu = \<lparr>rtu_device = take 100 device, rtu_baud = baud, rtu_parity = parity,
                    rtu_databit = databit, rtu_stopbit = stopbit, onebyte_delay_us = onebyte,
                    frame_delay_us = onebyte\<rparr>
         in Some ((context_zero clk strerr (Rtu rtu))
                    \<lparr>rts_delay_us := onebyte, header_length := 3, req_header_min := 8,
                     res_header_min := 3\<rparr>)))"

definition modbusmq_rtu_rts_delay :: "modbusmq_context_t \<Rightarrow> int \<Rightarrow> int \<times> modbusmq_context_t" where
  "modbusmq_rtu_rts_delay c interval_us =
     (if interval_us < 0 then (-1, c)
      else (case link c of
              Rtu _ \<Rightarrow> (0, c\<lparr>rts_delay_us := word_of_int interval_us\<rparr>)
            | Tcp _ \<Rightarrow> (0, c)))"

definition modbusmq_tcp_context ::
    "(nat \<Rightarrow> millitime_t) \<Rightarrow> (int \<Rightarrow> string) \<Rightarrow> string \<Rightarrow> modbusmq_context_t option" where
  "modbusmq_tcp_context clk strerr connect_string =
     (case modbusmq_parse_connect_string connect_string of
        Inl _ \<Rightarrow> None
      | Inr cn \<Rightarrow>
          (let tcp = \<lparr>tcp_hostname = take 200 (cn_device cn),
                      tcp_port = (if cn_port cn \<le> 0 then 502 else cn_port cn), transaction_id = 0\<rparr>
           in Some ((context_zero clk strerr (Tcp tcp))
                      \<lparr>header_length := 8, req_header_min := 6, res_header_min := 6\<rparr>)))"

section \<open>What a new context satisfies\<close>

lemma rtu_context_ok: "modbusmq_rtu_context clk se d b p db sb = Some c \<Longrightarrow> rtu_ok c"
  by (auto simp: modbusmq_rtu_context_def rtu_ok_def context_zero_def Let_def split: if_splits)

lemma tcp_context_ok: "modbusmq_tcp_context clk se s = Some c \<Longrightarrow> tcp_ok c"
  by (auto simp: modbusmq_tcp_context_def tcp_ok_def context_zero_def Let_def wf_tcp_def
      split: sum.splits)

end
