(* ===== verification/Builders_Facts.thy ===== *)
theory Builders_Facts
  imports Connect
begin

text \<open>
  What the request builders of lib/modbusmq.c put into a frame: the payload of a register
  write reads back as the values, the payload of a coil write carries one bit per coil.
\<close>

section \<open>Register payloads\<close>

definition reg_bytes :: "u16 list \<Rightarrow> byte list" where
  "reg_bytes vs = concat (map (\<lambda>v. [ucast (drop_bit 8 v), ucast (v AND 0x00ff)]) vs)"

definition regs_of :: "byte list \<Rightarrow> int list" where
  "regs_of bs = map (\<lambda>i. be16 (bs ! (2 * i)) (bs ! (2 * i + 1))) [0..<length bs div 2]"

lemma reg_bytes_simps [simp]:
  "reg_bytes [] = []"
  "reg_bytes (v # vs) = ucast (drop_bit 8 v) # ucast (v AND 0x00ff) # reg_bytes vs"
  "length (reg_bytes vs) = 2 * length vs"
  by (simp_all add: reg_bytes_def length_concat o_def sum_list_triv)

lemma regs_of_Cons2: "regs_of (a # b # bs) = be16 a b # regs_of bs"
  by (simp add: regs_of_def upt_Suc_map del: upt_Suc)

lemma be16_split: "be16 (ucast (drop_bit 8 v)) (ucast (v AND 0x00ff)) = uint (v :: u16)"
proof -
  have v: "0 \<le> uint v" "uint v < 65536" using uint_bounded [of v] by simp_all
  have hi: "uint (ucast (drop_bit 8 v) :: byte) = uint v div 256"
  proof -
    have "uint (drop_bit 8 v) = uint v div 256" by (simp add: drop_bit_eq_div uint_div_distrib)
    moreover have "uint v div 256 mod 256 = uint v div 256"
      by (rule mod_pos_pos_trivial) (use v in \<open>simp_all add: pos_imp_zdiv_nonneg_iff\<close>)
    ultimately show ?thesis by (simp add: unsigned_ucast_eq take_bit_eq_mod)
  qed
  have "(0x00ff :: u16) = mask 8" by (simp add: mask_eq_exp_minus_1)
  then have "v AND 0x00ff = take_bit 8 v" by (simp add: take_bit_eq_mask)
  then have lo: "uint (ucast (v AND 0x00ff) :: byte) = uint v mod 256"
    by (simp add: unsigned_ucast_eq take_bit_eq_mod uint_mod_distrib)
  show ?thesis unfolding be16_eq hi lo using v by simp
qed

lemma regs_of_reg_bytes: "regs_of (reg_bytes vs) = map uint vs"
proof (induction vs)
  case Nil
  then show ?case by (simp add: regs_of_def)
next
  case (Cons v vs)
  then show ?case by (simp add: regs_of_Cons2 be16_split)
qed

text \<open>What both transports promise of a built request.\<close>

definition header_of :: "modbusmq_context_t \<Rightarrow> int \<Rightarrow> int \<Rightarrow> int \<Rightarrow> byte list" where
  "header_of c fn a n =
     (case link c of Rtu _ \<Rightarrow> [] | Tcp _ \<Rightarrow> [0, 0, 0, 0, 0, 0])
       @ [word_of_int (slave_id c), word_of_int fn, hi8 a, lo8 a, hi8 n, lo8 n]"

lemma header_of_length: "length (header_of c fn a n) = (case link c of Rtu _ \<Rightarrow> 6 | Tcp _ \<Rightarrow> 12)"
  by (simp add: header_of_def split: transport.split)

lemma builder_wire:
  "wire (cb_write_registers (cb c) c a n) = header_of c 0x10 a n"
  "wire (cb_write_coil_bits (cb c) c a n) = header_of c 0x0F a n"
  "wire (cb_write_mask_registers (cb c) c a n) = header_of c 0x16 a n"
  by (simp_all add: cb_def header_of_def modbusmq_tcp_cb_def modbusmq_rtu_cb_def
      modbusmq_tcp_write_registers_def modbusmq_rtu_write_registers_def
      modbusmq_tcp_write_coil_bits_def modbusmq_rtu_write_coil_bits_def
      modbusmq_tcp_write_mask_registers_def modbusmq_rtu_write_mask_registers_def
      wire_tcp_frame_init wire_rtu_frame_init split: transport.split)

lemma builder_frame:
  assumes "f \<in> {cb_write_registers (cb c) c a n, cb_write_coil_bits (cb c) c a n,
                cb_write_mask_registers (cb c) c a n}"
  shows "length (fbuf f) = 260" "flength f = int (length (wire f))" "is_writer f" "xmit f = 0"
    "flength f \<le> 12"
  using assms
  by (auto simp: cb_def modbusmq_tcp_cb_def modbusmq_rtu_cb_def
      modbusmq_tcp_write_registers_def modbusmq_rtu_write_registers_def
      modbusmq_tcp_write_coil_bits_def modbusmq_rtu_write_coil_bits_def
      modbusmq_tcp_write_mask_registers_def modbusmq_rtu_write_mask_registers_def
      wire_tcp_frame_init wire_rtu_frame_init split: transport.split)

lemma write_registers_build:
  assumes n: "1 \<le> n" "n \<le> 123" and vs: "n \<le> int (length vs)"
  shows "\<exists>g. modbusmq_frame_write_registers c f a n vs = Some (flength g, g)
      \<and> wire g = header_of c 0x10 a n @ word_of_int (n * 2) # reg_bytes (take (nat n) vs)
      \<and> is_writer g \<and> wf_frame g \<and> flength g \<le> 259"
proof -
  let ?f = "cb_write_registers (cb c) c a n"
  note b = builder_frame [of ?f c a n, simplified]
  let ?g = "push_bytes (reg_bytes (take (nat n) vs)) (push_byte (word_of_int (n * 2)) ?f)"
  have len: "int (length (reg_bytes (take (nat n) vs))) = 2 * n"
    using n vs by auto
  have fl: "flength ?g = flength ?f + 1 + 2 * n" using len by simp
  have "modbusmq_frame_write_registers c f a n vs = Some (flength ?g, ?g)"
    using n vs b(5) by (simp add: modbusmq_frame_write_registers_def Let_def MODBUSMQ_FRAME_MAX_def
        reg_bytes_def)
  moreover have "wire ?g = wire ?f @ word_of_int (n * 2) # reg_bytes (take (nat n) vs)"
    using b n len by (subst wire_push_bytes) (simp_all add: wire_push_byte)
  moreover have "wf_frame ?g"
    using b n fl by (simp add: wf_frame_def MODBUSMQ_FRAME_MAX_def)
  ultimately show ?thesis using b fl n builder_wire(1) [of c a n] by (intro exI [of _ ?g]) simp
qed

section \<open>Coil payloads\<close>

text \<open>Bit \<open>j\<close> of a payload byte is set exactly for a coil that exists and is on.\<close>

lemma coil_bit_loop_bit:
  assumes "sorted_wrt (<) is" and "\<forall>i \<in> set is. i < 8"
  shows "bit (coil_bit_loop bits n k is b) j \<longleftrightarrow>
     bit b j \<or> (j \<in> set is \<and> k * 8 + j < n \<and> bits ! (k * 8 + j) \<noteq> 0)"
  using assms
proof (induction bits n k "is" b rule: coil_bit_loop.induct)
  case (2 bits n k i "is" b)
  let ?v = "push_bit i (if bits ! (k * 8 + i) \<noteq> 0 then 1 else 0 :: byte)"
  have v: "bit ?v j \<longleftrightarrow> j = i \<and> bits ! (k * 8 + i) \<noteq> 0"
    using "2.prems"(2) by (auto simp: bit_simps)
  show ?case
  proof (cases "k * 8 + i \<ge> n")
    case True
    then show ?thesis using "2.prems"(1) by auto
  next
    case False
    then have "bit (coil_bit_loop bits n k is (b OR ?v)) j \<longleftrightarrow>
        bit (b OR ?v) j \<or> (j \<in> set is \<and> k * 8 + j < n \<and> bits ! (k * 8 + j) \<noteq> 0)"
      using 2 by (simp add: Let_def)
    then show ?thesis using False v by (auto simp: Let_def bit_or_iff simp del: push_bit_Suc)
  qed
qed simp

lemma coil_byte_bit:
  "bit (coil_byte bits n k) j \<longleftrightarrow> j < 8 \<and> k * 8 + j < n \<and> bits ! (k * 8 + j) \<noteq> 0"
proof -
  have "sorted_wrt (<) [0..<8 :: nat]" by simp
  then show ?thesis unfolding coil_byte_def by (subst coil_bit_loop_bit) auto
qed

definition coil_bytes :: "int \<Rightarrow> int" where
  "coil_bytes n = n div 8 + (if n mod 8 \<noteq> 0 then 1 else 0)"

lemma write_coil_bits_build:
  assumes n: "1 \<le> n" "n \<le> 1968" and bits: "n \<le> int (length bits)"
  shows "\<exists>g. modbusmq_frame_write_coil_bits c f a n bits = Some (flength g, g)
      \<and> wire g = header_of c 0x0F a n @ word_of_int (coil_bytes n)
                 # map (coil_byte bits (nat n)) [0..<nat (coil_bytes n)]
      \<and> is_writer g \<and> wf_frame g \<and> flength g \<le> 259"
proof -
  let ?f = "cb_write_coil_bits (cb c) c a n"
  let ?nb = "coil_bytes n"
  have nb: "1 \<le> ?nb" "?nb \<le> 246" using n unfolding coil_bytes_def by presburger+
  note b = builder_frame [of ?f c a n, simplified]
  let ?g = "push_bytes (map (coil_byte bits (nat n)) [0..<nat ?nb]) (push_byte (word_of_int ?nb) ?f)"
  have fl: "flength ?g = flength ?f + 1 + ?nb" using nb by simp
  have "modbusmq_frame_write_coil_bits c f a n bits = Some (flength ?g, ?g)"
    using n bits b(5) nb by (simp add: modbusmq_frame_write_coil_bits_def Let_def MODBUSMQ_FRAME_MAX_def
        flip: coil_bytes_def)
  moreover have "wire ?g = wire ?f @ word_of_int ?nb # map (coil_byte bits (nat n)) [0..<nat ?nb]"
    using b nb by (subst wire_push_bytes) (simp_all add: wire_push_byte)
  moreover have "wf_frame ?g"
    using b nb fl by (simp add: wf_frame_def MODBUSMQ_FRAME_MAX_def)
  ultimately show ?thesis using b fl nb builder_wire(2) [of c a n] by (intro exI [of _ ?g]) simp
qed

end
