(* ===== verification/Link_Props.thy ===== *)
theory Link_Props
  imports Builders_Facts
begin

text \<open>
  The properties of the two transports: what goes on the wire, what is accepted off it, and
  how a frame that answers nobody is recognised.
\<close>

section \<open>Sample contexts and messages\<close>

text \<open>The instances on which the properties with hypotheses are evaluated.\<close>

definition sample_rtu :: modbusmq_context_t where
  "sample_rtu = the (modbusmq_rtu_context (\<lambda>n. of_nat n + 1) (\<lambda>_. []) ''/dev/ttyUSB0'' 9600 CHR ''N'' 8 1)"

definition sample_tcp :: modbusmq_context_t where
  "sample_tcp = the (modbusmq_tcp_context (\<lambda>n. of_nat n + 1) (\<lambda>_. []) ''tcp://plc:502'')"

text \<open>A request written out and its reader holding some bytes.\<close>

definition exchange :: "byte list \<Rightarrow> byte list \<Rightarrow> modbusmq_msg_t" where
  "exchange req res =
     \<lparr>msg_id = 0, req_id = 1,
      frame0 = \<lparr>is_writer = True, is_tcp = False, flength = int (length req),
                xmit = int (length req), fbuf = req @ replicate (260 - length req) 0\<rparr>,
      frame1 = \<lparr>is_writer = False, is_tcp = False, flength = int (length res),
                xmit = int (length res), fbuf = res @ replicate (260 - length res) 0\<rparr>\<rparr>"

text \<open>Holding register 0 of slave 1 and its answer, register value 5.\<close>

definition rtu_read_req :: "byte list" where
  "rtu_read_req = [0x01, 0x03, 0x00, 0x00, 0x00, 0x01, 0x84, 0x0A]"

definition rtu_read_res :: "byte list" where
  "rtu_read_res = [0x01, 0x03, 0x02, 0x00, 0x05, 0x78, 0x47]"

lemma rtu_sample_accepted: "fst (modbusmq_rtu_msg_check sample_rtu (exchange rtu_read_req rtu_read_res)) = 0"
  by code_simp

section \<open>RTU\<close>

text \<open>
  A request built and prepared on RTU is, on the wire, the six bytes slave, function,
  address and count (high byte first) and their CRC, low byte first; the CRC of all eight
  bytes is 0.
\<close>

lemma rtu_request_wire:
  fixes c :: modbusmq_context_t and fn a n :: int
  defines "pdu \<equiv> [word_of_int (slave_id c), word_of_int fn, hi8 a, lo8 a, hi8 n, lo8 n]"
    and "m \<equiv> \<lparr>msg_id = 0, req_id = 0, frame0 = modbusmq_rtu_frame_init c fn a n, frame1 = frame_zero\<rparr>"
  shows "wire (frame0 (snd (modbusmq_rtu_msg_prepare m)))
      = pdu @ [lo8 (uint (modbusmq_rtu_crc16 pdu 6)), hi8 (uint (modbusmq_rtu_crc16 pdu 6))]
    \<and> modbusmq_rtu_crc16 (wire (frame0 (snd (modbusmq_rtu_msg_prepare m)))) 8 = 0"
proof -
  have wf: "wf_msg m" by (simp add: m_def wf_msg_def paired_def)
  have w: "wire (frame0 m) = pdu" by (simp add: m_def wire_rtu_frame_init pdu_def)
  have crc: "modbusmq_rtu_crc16 pdu 6 = crc16_loop 0xFFFF pdu"
    by (simp add: modbusmq_rtu_crc16_def pdu_def)
  note p = rtu_msg_prepare_wire [OF wf]
  have small: "flength (frame0 m) \<le> 258" "xmit (frame1 m) \<le> 3" by (simp_all add: m_def)
  note pw = p(1) [OF small] p(2) [OF small]
  have "length (wire (frame0 (snd (modbusmq_rtu_msg_prepare m)))) = 8"
    unfolding pw(1) w by (simp add: pdu_def)
  then show ?thesis using pw by (simp add: w crc modbusmq_rtu_crc16_def)
qed

text \<open>
  C15. An RTU response is accepted exactly when the request was written out, slave and function
  are the request's, the function carries no exception flag, the byte count is the one the
  request asked for, the frame has the length that follows from the request, and its CRC is
  right.
\<close>

theorem rtu_acceptance:
  assumes "wf_msg m" and "header_length c = 3" and "\<not> modbusmq_rtu_msg_broadcast m"
  shows "fst (modbusmq_rtu_msg_check c m) = 0 \<longleftrightarrow>
      xmit (frame0 m) = flength (frame0 m)
    \<and> getb (frame1 m) 0 = getb (frame0 m) 0
    \<and> getb (frame1 m) 1 = getb (frame0 m) 1
    \<and> (getb (frame1 m) 1 AND 0x80) = 0
    \<and> rtu_count_ok (frame0 m) (frame1 m)
    \<and> xmit (frame1 m) = rtu_response_length c (frame0 m)
    \<and> rtu_crc_ok ((frame1 m)\<lparr>flength := rtu_response_length c (frame0 m)\<rparr>)"
  by (rule rtu_msg_check_accepts [OF assms])

lemma sample_read: "wf_msg (exchange rtu_read_req rtu_read_res)"
    "\<not> modbusmq_rtu_msg_broadcast (exchange rtu_read_req rtu_read_res)"
    "header_length sample_rtu = 3" "header_length sample_tcp = 8"
  by (code_simp, code_simp, code_simp, code_simp)

theorem rtu_acceptance_witness:
  "rtu_crc_ok ((frame1 (exchange rtu_read_req rtu_read_res))
     \<lparr>flength := rtu_response_length sample_rtu (frame0 (exchange rtu_read_req rtu_read_res))\<rparr>)"
  using rtu_acceptance [OF sample_read(1,3,2)] rtu_sample_accepted by blast

text \<open>
  C1. Damage to one byte or to two neighbouring bytes of an accepted RTU response, whatever the
  new values and wherever it lies, makes the acceptance check refuse the response.
\<close>

theorem rtu_damage_refused:
  assumes "wf_msg m" and "header_length c = 3" and "\<not> modbusmq_rtu_msg_broadcast m"
    and "fst (modbusmq_rtu_msg_check c m) = 0"
    and "Suc i < nat (xmit (frame1 m))"
    and "(a, b) \<noteq> (getb (frame1 m) i, getb (frame1 m) (Suc i))"
  shows "fst (modbusmq_rtu_msg_check c (rtu_damage i a b m)) \<noteq> 0"
proof
  let ?d = "rtu_damage i a b m"
  assume acc: "fst (modbusmq_rtu_msg_check c ?d) = 0"
  note r = wf_frameD [OF wf_msgD(3) [OF assms(1)]]
  have wfd: "wf_msg ?d" using assms(1) by (simp add: rtu_damage_def wf_msg_def paired_def wf_frame_def)
  have nbd: "\<not> modbusmq_rtu_msg_broadcast ?d"
    using assms(3) wf_msgD(1) [OF assms(1)] by (simp add: rtu_damage_def paired_def)
  let ?L = "rtu_response_length c (frame0 m)"
  have fr: "frame0 ?d = frame0 m" by (simp add: rtu_damage_def)
  have good: "rtu_crc_ok ((frame1 m)\<lparr>flength := ?L\<rparr>)" "xmit (frame1 m) = ?L"
    using rtu_msg_check_accepts [OF assms(1-3)] assms(4) by blast+
  have bad: "rtu_crc_ok ((frame1 ?d)\<lparr>flength := ?L\<rparr>)"
    using rtu_msg_check_accepts [OF wfd assms(2) nbd] acc unfolding fr by blast
  have "nat ?L \<le> length (fbuf (frame1 m))" using good(2) r by simp
  then have "crc16_loop 0xFFFF (take (nat ?L) ((fbuf (frame1 m))[i := a, Suc i := b])) \<noteq> 0"
    using good assms(5,6) by (intro crc16_damage) (simp_all add: rtu_crc_ok_def wire_def getb_def)
  then show False using bad by (simp add: rtu_crc_ok_def wire_def rtu_damage_def)
qed

theorem rtu_damage_refused_witness:
  "fst (modbusmq_rtu_msg_check sample_rtu (rtu_damage 3 0x01 0x05 (exchange rtu_read_req rtu_read_res))) \<noteq> 0"
  by (rule rtu_damage_refused [OF sample_read(1,3,2) rtu_sample_accepted]; code_simp)

text \<open>
  C26. A response that its own request accepts is recognised as a whole, valid frame on its own
  bytes, so a late one is stepped over whatever request is outstanding by then.
\<close>

theorem rtu_late_response_recognised:
  assumes "wf_msg m" and "header_length c = 3" and "\<not> modbusmq_rtu_msg_broadcast m"
    and "fst (modbusmq_rtu_msg_check c m) = 0"
  shows "modbusmq_rtu_frame_drain c (frame1 m) = (1, frame1 m)"
  by (rule rtu_accepted_drains [OF assms])

theorem rtu_late_response_recognised_witness:
  "fst (modbusmq_rtu_frame_drain sample_rtu (frame1 (exchange rtu_read_req rtu_read_res))) = 1"
  using rtu_late_response_recognised [OF sample_read(1,3,2) rtu_sample_accepted] by simp

text \<open>
  C27. A frame that is stepped over is complete and its CRC is right: bytes that form no frame
  are never discarded as one.
\<close>

theorem rtu_stepped_over_is_whole:
  assumes "wf_frame f" and "modbusmq_rtu_frame_drain c f = (1, f')"
  shows "f' = f \<and> 4 \<le> xmit f \<and> crc16_loop 0xFFFF (received f) = 0"
  using rtu_frame_drain_whole [OF assms] by blast

theorem rtu_stepped_over_is_whole_witness:
  "crc16_loop 0xFFFF (received (frame1 (exchange rtu_read_req rtu_read_res))) = 0"
  using rtu_stepped_over_is_whole [OF wf_msgD(3) [OF sample_read(1)]
        rtu_accepted_drains [OF sample_read(1,3,2) rtu_sample_accepted]] by blast

section \<open>TCP\<close>

text \<open>
  A request built and prepared on TCP is, on the wire, the next transaction id, protocol 0,
  the length 6 of what follows, and the six bytes slave, function, address and count.
\<close>

lemma tcp_request_wire:
  fixes c :: modbusmq_context_t and t :: modbusmq_tcp_context_t and fn a n :: int
  defines "m \<equiv> \<lparr>msg_id = 0, req_id = 0, frame0 = modbusmq_tcp_frame_init c fn a n, frame1 = frame_zero\<rparr>"
    and "tid \<equiv> (transaction_id t + 1) mod 65535"
  shows "wire (frame0 (snd (snd (modbusmq_tcp_msg_prepare t m))))
      = [hi8 tid, lo8 tid, 0, 0, 0, 6,
         word_of_int (slave_id c), word_of_int fn, hi8 a, lo8 a, hi8 n, lo8 n]"
proof -
  have wf: "wf_msg m" by (simp add: m_def wf_msg_def paired_def)
  obtain rc t' m' where p: "modbusmq_tcp_msg_prepare t m = (rc, t', m')"
    by (cases "modbusmq_tcp_msg_prepare t m")
  let ?pdu = "[word_of_int (slave_id c), word_of_int fn, hi8 a, lo8 a, hi8 n, lo8 n]"
  have w: "wire (frame0 m) = [0, 0, 0, 0, 0, 0] @ ?pdu" by (simp add: m_def wire_tcp_frame_init)
  have tid: "transaction_id t' = tid"
    using p wf_msgD(1) [OF wf] by (auto simp: tcp_msg_prepare_paired Let_def tid_def)
  have six: "hi8 6 = 0" "lo8 6 = 6" by (code_simp, code_simp)
  show ?thesis using tcp_msg_prepare_wire [OF wf p w] by (simp add: p tid six)
qed

text \<open>
  C33. The bytes of a request on the wire. On both transports it carries slave, function, address
  and count, high byte first. On RTU the CRC of these six bytes follows, low byte first, so that
  the CRC of all eight is 0. On TCP the next transaction id, protocol 0 and the length 6 precede
  them.
\<close>

theorem requests_on_the_wire:
  fixes c :: modbusmq_context_t and t :: modbusmq_tcp_context_t and fn a n :: int
  defines "pdu \<equiv> [word_of_int (slave_id c), word_of_int fn, hi8 a, lo8 a, hi8 n, lo8 n]"
    and "rtu \<equiv> \<lparr>msg_id = 0, req_id = 0, frame0 = modbusmq_rtu_frame_init c fn a n, frame1 = frame_zero\<rparr>"
    and "tcp \<equiv> \<lparr>msg_id = 0, req_id = 0, frame0 = modbusmq_tcp_frame_init c fn a n, frame1 = frame_zero\<rparr>"
    and "tid \<equiv> (transaction_id t + 1) mod 65535"
  shows "wire (frame0 (snd (modbusmq_rtu_msg_prepare rtu)))
      = pdu @ [lo8 (uint (modbusmq_rtu_crc16 pdu 6)), hi8 (uint (modbusmq_rtu_crc16 pdu 6))]
    \<and> modbusmq_rtu_crc16 (wire (frame0 (snd (modbusmq_rtu_msg_prepare rtu)))) 8 = 0
    \<and> wire (frame0 (snd (snd (modbusmq_tcp_msg_prepare t tcp)))) = [hi8 tid, lo8 tid, 0, 0, 0, 6] @ pdu"
proof -
  have "wire (frame0 (snd (snd (modbusmq_tcp_msg_prepare t tcp)))) = [hi8 tid, lo8 tid, 0, 0, 0, 6] @ pdu"
    using tcp_request_wire [of t c fn a n] by (simp add: tcp_def tid_def pdu_def)
  then show ?thesis using rtu_request_wire [of c fn a n] unfolding pdu_def rtu_def by blast
qed

text \<open>The transaction ids that successive requests get.\<close>

fun tcp_ids :: "modbusmq_tcp_context_t \<Rightarrow> modbusmq_msg_t list \<Rightarrow> int list" where
  "tcp_ids t [] = []"
| "tcp_ids t (m # ms) =
     (let (rc, t', m') = modbusmq_tcp_msg_prepare t m
      in modbusmq_tcp_frame_transaction_id (frame0 m') # tcp_ids t' ms)"

lemma tcp_ids_eq:
  assumes "wf_tcp t" and "\<forall>m \<in> set ms. wf_msg m"
  shows "tcp_ids t ms = map (\<lambda>k. (transaction_id t + 1 + int k) mod 65535) [0..<length ms]"
  using assms
proof (induction ms arbitrary: t)
  case (Cons m ms)
  obtain rc t' m' where p: "modbusmq_tcp_msg_prepare t m = (rc, t', m')"
    by (cases "modbusmq_tcp_msg_prepare t m")
  have wm: "wf_msg m" using Cons.prems(2) by simp
  note tr = tcp_prepare_transaction [OF wm p Cons.prems(1)]
  have wt: "wf_tcp t'" by (rule tcp_prepare_wf(2) [OF wm p])
  note upt = upt_Suc_map [of "length ms"]
  have "(transaction_id t' + 1 + int k) mod 65535 = (transaction_id t + 1 + int (Suc k)) mod 65535" for k
    unfolding tr(2) by (simp add: mod_simps add.assoc)
  then show ?case using Cons.IH [OF wt] Cons.prems(2) tr by (simp add: p upt del: upt_Suc)
qed simp

lemma mod_window_inject:
  assumes "i < j" and "j < i + n" and "0 < n"
  shows "(x + int i) mod int n \<noteq> (x + int j) mod int n"
proof
  assume "(x + int i) mod int n = (x + int j) mod int n"
  then have "int n dvd (x + int j) - (x + int i)" by (metis mod_eq_dvd_iff)
  then have "int n dvd int (j - i)" using assms(1) by (simp add: of_nat_diff)
  then have "n dvd j - i" by simp
  moreover have "0 < j - i" "j - i < n" using assms by linarith+
  ultimately show False by (simp add: nat_dvd_not_less)
qed

text \<open>
  C29. Up to 65535 requests in a row carry pairwise different transaction ids, so an answer
  identifies its request among all of them.
\<close>

theorem tcp_transaction_ids_distinct:
  assumes "wf_tcp t" and "\<forall>m \<in> set ms. wf_msg m" and "length ms \<le> 65535"
  shows "distinct (tcp_ids t ms)"
proof -
  have "inj_on (\<lambda>k. (transaction_id t + 1 + int k) mod 65535) {0..<length ms}"
  proof (rule linorder_inj_onI)
    fix i j assume "i < j" "i \<in> {0..<length ms}" "j \<in> {0..<length ms}"
    then show "(transaction_id t + 1 + int i) mod 65535 \<noteq> (transaction_id t + 1 + int j) mod 65535"
      using mod_window_inject [of i j 65535 "transaction_id t + 1"] assms(3) by simp
  qed auto
  then show ?thesis unfolding tcp_ids_eq [OF assms(1,2)] by (simp add: distinct_map)
qed

theorem tcp_transaction_ids_distinct_witness:
  "distinct (tcp_ids \<lparr>tcp_hostname = ''plc'', tcp_port = 502, transaction_id = 65533\<rparr>
     (replicate 3 (exchange (replicate 12 0) [])))"
  by (rule tcp_transaction_ids_distinct; code_simp)

text \<open>
  C16. A TCP response of at least eight bytes is accepted exactly when the request was written
  out, the transaction id and the unit are the request's, the protocol is 0, the MBAP length
  is the number of bytes received, and the function is the request's; the last condition
  is waived for an eight byte frame with the exception flag set.
\<close>

theorem tcp_acceptance:
  assumes "wf_msg m" and "8 \<le> xmit (frame1 m)"
  shows "fst (modbusmq_tcp_msg_check m) = 0 \<longleftrightarrow>
      xmit (frame0 m) = flength (frame0 m)
    \<and> getb (frame1 m) 0 = getb (frame0 m) 0 \<and> getb (frame1 m) 1 = getb (frame0 m) 1
    \<and> getb (frame1 m) 2 = 0 \<and> getb (frame1 m) 3 = 0
    \<and> getb (frame0 m) 2 = 0 \<and> getb (frame0 m) 3 = 0
    \<and> be16 (getb (frame1 m) 4) (getb (frame1 m) 5) + 6 = xmit (frame1 m)
    \<and> xmit (frame1 m) = flength (frame1 m)
    \<and> getb (frame1 m) 6 = getb (frame0 m) 6
    \<and> (getb (frame1 m) 7 = getb (frame0 m) 7
       \<or> ((getb (frame1 m) 7 AND 0x80) \<noteq> 0 \<and> xmit (frame1 m) = 8))"
  by (rule tcp_msg_check_accepts [OF assms])

definition tcp_read_req :: "byte list" where
  "tcp_read_req = [0, 7, 0, 0, 0, 6, 1, 3, 0, 0, 0, 1]"

definition tcp_read_res :: "byte list" where
  "tcp_read_res = [0, 7, 0, 0, 0, 5, 1, 3, 2, 0, 5]"

lemma sample_tcp_read: "wf_msg (exchange tcp_read_req tcp_read_res)"
    "8 \<le> xmit (frame1 (exchange tcp_read_req tcp_read_res))"
    "fst (modbusmq_tcp_msg_check (exchange tcp_read_req tcp_read_res)) = 0"
  by (code_simp, code_simp, code_simp)

theorem tcp_acceptance_witness:
  "getb (frame1 (exchange tcp_read_req tcp_read_res)) 1 = getb (frame0 (exchange tcp_read_req tcp_read_res)) 1"
  using tcp_acceptance [OF sample_tcp_read(1,2)] sample_tcp_read(3) by blast

text \<open>
  C38. An eight byte TCP reply to the request, which ends at a function byte with the exception
  flag and carries no exception code, passes the acceptance check whatever function it names:
  the exchange counts as answered, without data.
\<close>

theorem tcp_truncated_exception_accepted:
  assumes "wf_msg m" and "xmit (frame0 m) = flength (frame0 m)"
    and "xmit (frame1 m) = 8" and "flength (frame1 m) = 8"
    and "\<forall>i < 4. getb (frame1 m) i = getb (frame0 m) i" and "getb (frame0 m) 2 = 0" and "getb (frame0 m) 3 = 0"
    and "getb (frame1 m) 4 = 0" and "getb (frame1 m) 5 = 2" and "getb (frame1 m) 6 = getb (frame0 m) 6"
    and "(getb (frame1 m) 7 AND 0x80) \<noteq> 0"
  shows "fst (modbusmq_tcp_msg_check m) = 0 \<and> modbusmq_tcp_msg_exception m = 0"
proof -
  have eq: "getb (frame1 m) 0 = getb (frame0 m) 0" "getb (frame1 m) 1 = getb (frame0 m) 1"
    "getb (frame1 m) 2 = getb (frame0 m) 2" "getb (frame1 m) 3 = getb (frame0 m) 3"
    using assms(5) by simp_all
  have len: "be16 (0 :: byte) 2 = 2" by code_simp
  have "fst (modbusmq_tcp_msg_check m) = 0"
    using assms eq len by (subst tcp_msg_check_accepts) simp_all
  moreover have "modbusmq_tcp_msg_exception m = 0"
    using assms(3) by (simp add: modbusmq_tcp_msg_exception_def modbusmq_tcp_frame_exception_def Let_def)
  ultimately show ?thesis by blast
qed

theorem tcp_truncated_exception_accepted_witness:
  "fst (modbusmq_tcp_msg_check (exchange tcp_read_req [0, 7, 0, 0, 0, 2, 1, 0xFF])) = 0"
  by (rule conjunct1 [OF tcp_truncated_exception_accepted]; code_simp)

section \<open>Building writes\<close>

text \<open>
  C31. A write of 1 to 123 registers always fits its frame: the built request is the header
  with function 16, the byte count and the values high byte first, and reading the payload
  back gives the values.
\<close>

theorem write_registers_roundtrip:
  assumes "1 \<le> n" and "n \<le> 123" and "n = int (length vs)"
  shows "\<exists>g. modbusmq_frame_write_registers c f a n vs = Some (flength g, g)
      \<and> wire g = header_of c 0x10 a n @ word_of_int (n * 2) # reg_bytes vs
      \<and> regs_of (drop (length (header_of c 0x10 a n) + 1) (wire g)) = map uint vs
      \<and> wf_frame g \<and> flength g \<le> 259"
proof -
  have "take (nat n) vs = vs" using assms(3) by simp
  then show ?thesis
    using write_registers_build [OF assms(1,2), of vs c f a] assms(3) by (auto simp: regs_of_reg_bytes)
qed

theorem write_registers_roundtrip_witness:
  "\<exists>g. modbusmq_frame_write_registers sample_rtu frame_zero 16 2 [0x1234, 0xFFFE] = Some (flength g, g)
     \<and> regs_of (drop 7 (wire g)) = [0x1234, 0xFFFE]"
proof -
  have len: "length (header_of sample_rtu 0x10 16 2) + 1 = 7" by code_simp
  have vals: "map uint [0x1234 :: u16, 0xFFFE] = [0x1234, 0xFFFE]" by simp
  have n: "(1 :: int) \<le> 2" "(2 :: int) \<le> 123" "2 = int (length [0x1234 :: u16, 0xFFFE])" by simp_all
  show ?thesis
    using write_registers_roundtrip [OF n, of sample_rtu frame_zero 16] unfolding len vals by blast
qed

text \<open>
  C32. A write of 1 to 1968 coils always fits its frame, and bit \<open>j\<close> of payload byte \<open>i\<close> is
  set exactly when coil \<open>8 * i + j\<close> is one of the \<open>n\<close> coils and its value is not 0; the
  padding bits are 0.
\<close>

theorem write_coils_packing:
  assumes "1 \<le> n" and "n \<le> 1968" and "n \<le> int (length bits)"
  shows "\<exists>g. modbusmq_frame_write_coil_bits c f a n bits = Some (flength g, g)
      \<and> take (length (header_of c 0x0F a n)) (wire g) = header_of c 0x0F a n
      \<and> length (wire g) = length (header_of c 0x0F a n) + 1 + nat ((n + 7) div 8)
      \<and> (\<forall>i < nat ((n + 7) div 8). \<forall>j < 8.
           bit (wire g ! (length (header_of c 0x0F a n) + 1 + i)) j
             \<longleftrightarrow> int (8 * i + j) < n \<and> bits ! (8 * i + j) \<noteq> 0)
      \<and> wf_frame g \<and> flength g \<le> 259"
proof -
  have nb: "coil_bytes n = (n + 7) div 8" unfolding coil_bytes_def by presburger
  obtain g where g: "modbusmq_frame_write_coil_bits c f a n bits = Some (flength g, g)"
    "wire g = header_of c 0x0F a n @ word_of_int (coil_bytes n)
                 # map (coil_byte bits (nat n)) [0..<nat (coil_bytes n)]" "wf_frame g" "flength g \<le> 259"
    using write_coil_bits_build [OF assms, of c f a] by blast
  have at: "wire g ! (length (header_of c 0x0F a n) + 1 + i) = coil_byte bits (nat n) i"
    if "i < nat ((n + 7) div 8)" for i
    using that by (simp add: g(2) nb nth_append)
  have hd: "take (length (header_of c 0x0F a n)) (wire g) = header_of c 0x0F a n"
    unfolding g(2) by (simp only: take_append take_all_iff order_refl diff_self_eq_0 take_0 append_Nil2)
  have len: "length (wire g) = length (header_of c 0x0F a n) + 1 + nat ((n + 7) div 8)"
    unfolding g(2) nb by simp
  have bits: "\<forall>i < nat ((n + 7) div 8). \<forall>j < 8.
      bit (wire g ! (length (header_of c 0x0F a n) + 1 + i)) j
        \<longleftrightarrow> int (8 * i + j) < n \<and> bits ! (8 * i + j) \<noteq> 0"
  proof (intro allI impI)
    fix i j :: nat assume i: "i < nat ((n + 7) div 8)" and j: "j < 8"
    have "8 * i + j < nat n \<longleftrightarrow> int (8 * i + j) < n" by linarith
    then show "bit (wire g ! (length (header_of c 0x0F a n) + 1 + i)) j
        \<longleftrightarrow> int (8 * i + j) < n \<and> bits ! (8 * i + j) \<noteq> 0"
      unfolding at [OF i] coil_byte_bit using j by (simp only: mult.commute [of i] simp_thms)
  qed
  show ?thesis using g(1,3,4) hd len bits by blast
qed

theorem write_coils_packing_witness:
  "\<exists>g. modbusmq_frame_write_coil_bits sample_rtu frame_zero 0 3 [1, 0, 1] = Some (flength g, g)
     \<and> flength g \<le> 259"
  using write_coils_packing [of 3 "[1, 0, 1]" sample_rtu frame_zero 0] by auto

section \<open>Reading\<close>

text \<open>
  C30. One read on either transport, with a reader the event loop has armed, moves bytes from
  the front of what waits on the line to the end of what the reader holds, loses none, and
  never goes past the length of the reader or of the frame buffer.
\<close>

theorem read_conserves_bytes:
  assumes "rtu_ok c \<and> rtu_window f \<or> tcp_ok c \<and> tcp_window f"
    and "wf_frame f" and "\<not> is_writer f" and "xmit f < flength f"
    and "modbusmq_read c f = (rc, c', f')" and "0 \<le> rc"
  shows "received f' @ line_in c' = received f @ line_in c \<and> xmit f' = xmit f + rc
       \<and> xmit f' \<le> flength f' \<and> flength f' \<le> 260"
proof -
  have "read_effect c f rc c' f' \<and> wf_frame f'"
    using assms rtu.read_law [of c f rc c' f'] tcp.read_law [of c f rc c' f'] by blast
  then show ?thesis using wf_frameD [of f'] by (auto simp: read_effect_def)
qed

theorem read_conserves_bytes_witness:
  "let c = sample_rtu\<lparr>line_in := rtu_read_res\<rparr>; r = modbusmq_read c (frame_zero\<lparr>flength := 3\<rparr>)
   in received (snd (snd r)) @ line_in (fst (snd r)) = rtu_read_res"
proof -
  let ?c = "sample_rtu\<lparr>line_in := rtu_read_res\<rparr>" and ?f = "frame_zero\<lparr>flength := 3\<rparr>"
  have ok: "rtu_ok ?c \<and> rtu_window ?f \<or> tcp_ok ?c \<and> tcp_window ?f"
    by (simp add: sample_rtu_def modbusmq_rtu_context_def context_zero_def rtu_ok_def rtu_window_def Let_def)
  obtain rc c' f' where r: "modbusmq_read ?c ?f = (rc, c', f')" by (cases "modbusmq_read ?c ?f")
  have "0 \<le> fst (modbusmq_read ?c ?f)" by code_simp
  then have "0 \<le> rc" by (simp add: r)
  then have "received f' @ line_in c' = received ?f @ line_in ?c"
    using read_conserves_bytes [OF ok _ _ _ r] by (simp add: wf_frame_def MODBUSMQ_FRAME_MAX_def)
  then show ?thesis by (simp add: r) (simp add: received_def)
qed






end
