(* ===== verification/Queue.thy ===== *)
theory Queue
  imports Transport
begin

text \<open>
  The request queue of a context: \<open>modbusmq_post_internal\<close> and \<open>modbusmq_post\<close> of
  lib/modbusmq.c. The list is singly linked in C and is a list here, head first; the head is
  the request in flight.

  The contract of the queue is the locale \<open>request_queue\<close>: the request in flight is never
  displaced, urgent requests overtake the others and nobody else, and each class is served in
  the order it was posted.
\<close>

section \<open>The two insertion points\<close>

text \<open>
  \<open>while (prev->next && prev->next->flags == MODBUSMQ_MSG_POST) prev = prev->next;\<close> and the
  splice after it, on what follows the head.
\<close>

fun splice_post :: "modbusmq_msg_wrapper_t \<Rightarrow> modbusmq_msg_wrapper_t list \<Rightarrow> modbusmq_msg_wrapper_t list" where
  "splice_post w [] = [w]"
| "splice_post w (x # xs) =
     (if flags x = MODBUSMQ_MSG_POST then x # splice_post w xs else w # x # xs)"

definition queue_insert :: "modbusmq_msg_wrapper_t \<Rightarrow> modbusmq_msg_wrapper_t list \<Rightarrow> modbusmq_msg_wrapper_t list" where
  "queue_insert w q =
     (case q of [] \<Rightarrow> [w]
      | h # t \<Rightarrow> if flags w = MODBUSMQ_MSG_POST then h # splice_post w t else h # t @ [w])"

text \<open>
  The caller's message is stamped and comes back; the queued copy is prepared for the wire.
  Allocation does not fail in this model.
\<close>

definition modbusmq_post_internal ::
    "modbusmq_context_t \<Rightarrow> modbusmq_msg_t \<Rightarrow> int \<Rightarrow> int \<times> modbusmq_context_t \<times> modbusmq_msg_t" where
  "modbusmq_post_internal c m fl =
     (let (rid, c) = modbusmq_next_req_id c;
          m = m\<lparr>req_id := rid\<rparr>;
          (rc, c, prepared) = modbusmq_msg_prepare c m;
          w = \<lparr>flags = fl, head_since_ms = 0, wmsg = prepared\<rparr>
      in (0, c\<lparr>msg_queue := queue_insert w (msg_queue c)\<rparr>, m))"

definition modbusmq_post ::
    "modbusmq_context_t \<Rightarrow> modbusmq_msg_t \<Rightarrow> int \<times> modbusmq_context_t \<times> modbusmq_msg_t" where
  "modbusmq_post c m = modbusmq_post_internal c m MODBUSMQ_MSG_POST"

text \<open>Taking the request in flight off the queue.\<close>

definition drop_head :: "modbusmq_context_t \<Rightarrow> modbusmq_context_t" where
  "drop_head c = c\<lparr>msg_queue := tl (msg_queue c)\<rparr>"

definition set_head :: "modbusmq_msg_t \<Rightarrow> modbusmq_context_t \<Rightarrow> modbusmq_context_t" where
  "set_head m c =
     (case msg_queue c of [] \<Rightarrow> c
      | w # ws \<Rightarrow> c\<lparr>msg_queue := w\<lparr>wmsg := m\<rparr> # ws\<rparr>)"

section \<open>The contract\<close>

locale request_queue =
  fixes insert :: "'w \<Rightarrow> 'w list \<Rightarrow> 'w list"
    and urgent :: "'w \<Rightarrow> bool"
    and ordered :: "'w list \<Rightarrow> bool"
  assumes ordered_Nil: "ordered []"
    and ordered_insert: "ordered q \<Longrightarrow> ordered (insert w q)"
    and ordered_tl: "ordered q \<Longrightarrow> ordered (tl q)"
    and insert_Nil: "insert w [] = [w]"
    and insert_head: "q \<noteq> [] \<Longrightarrow> insert w q \<noteq> [] \<and> hd (insert w q) = hd q"
    and insert_urgent: "ordered q \<Longrightarrow> urgent w \<Longrightarrow>
        filter urgent (insert w q) = filter urgent q @ [w]
        \<and> filter (Not \<circ> urgent) (insert w q) = filter (Not \<circ> urgent) q"
    and insert_other: "\<not> urgent w \<Longrightarrow> insert w q = q @ [w]"
begin

definition insert_all :: "'w list \<Rightarrow> 'w list \<Rightarrow> 'w list" where
  "insert_all ws q = foldl (\<lambda>q w. insert w q) q ws"

lemma insert_all_simps [simp]:
  "insert_all [] q = q" "insert_all (w # ws) q = insert_all ws (insert w q)"
  by (simp_all add: insert_all_def)

lemma insert_all_ordered: "ordered q \<Longrightarrow> ordered (insert_all ws q)"
  by (induction ws arbitrary: q) (auto intro: ordered_insert)

text \<open>However many requests are posted meanwhile, the one in flight stays in front.\<close>

lemma insert_all_head: "q \<noteq> [] \<Longrightarrow> hd (insert_all ws q) = hd q"
proof (induction ws arbitrary: q)
  case (Cons w ws)
  then show ?case using insert_head [OF Cons.prems, of w] by simp
qed simp

lemma insert_filter:
  assumes "ordered q"
  shows "filter urgent (insert w q) = filter urgent q @ filter urgent [w]"
    and "filter (Not \<circ> urgent) (insert w q) = filter (Not \<circ> urgent) q @ filter (Not \<circ> urgent) [w]"
  using insert_urgent [OF assms, of w] insert_other [of w q] by (cases "urgent w"; simp)+

text \<open>Each class comes out in the order it went in.\<close>

lemma insert_all_filter:
  assumes "ordered q"
  shows "filter urgent (insert_all ws q) = filter urgent q @ filter urgent ws"
    and "filter (Not \<circ> urgent) (insert_all ws q) = filter (Not \<circ> urgent) q @ filter (Not \<circ> urgent) ws"
  using assms
  by (induction ws arbitrary: q) (simp_all add: ordered_insert insert_filter)

end

section \<open>The queue of the library keeps it\<close>

abbreviation is_post :: "modbusmq_msg_wrapper_t \<Rightarrow> bool" where
  "is_post w \<equiv> flags w = MODBUSMQ_MSG_POST"

text \<open>The list facts behind it, for any class \<open>P\<close>.\<close>

definition splice :: "('a \<Rightarrow> bool) \<Rightarrow> 'a \<Rightarrow> 'a list \<Rightarrow> 'a list" where
  "splice P w t = takeWhile P t @ w # dropWhile P t"

definition class_first :: "('a \<Rightarrow> bool) \<Rightarrow> 'a list \<Rightarrow> bool" where
  "class_first P t \<longleftrightarrow> filter P (dropWhile P t) = []"

lemma class_first_filter:
  assumes "class_first P t"
  shows "filter P t = takeWhile P t" and "filter (Not \<circ> P) t = dropWhile P t"
proof -
  have "filter P (takeWhile P t) = takeWhile P t"
    by (rule filter_True) (auto dest: set_takeWhileD)
  then have "filter P (takeWhile P t @ dropWhile P t) = takeWhile P t"
    using assms by (simp only: filter_append class_first_def append_Nil2)
  then show "filter P t = takeWhile P t" by (simp only: takeWhile_dropWhile_id)
  have "filter (Not \<circ> P) (takeWhile P t) = []"
    by (rule filter_False) (auto dest: set_takeWhileD)
  moreover have "filter (Not \<circ> P) (dropWhile P t) = dropWhile P t"
    using assms by (intro filter_True) (simp add: class_first_def filter_empty_conv)
  ultimately have "filter (Not \<circ> P) (takeWhile P t @ dropWhile P t) = dropWhile P t"
    by (simp only: filter_append append_Nil)
  then show "filter (Not \<circ> P) t = dropWhile P t" by (simp only: takeWhile_dropWhile_id)
qed

lemma class_first_Cons: "class_first P (x # t) \<longleftrightarrow> (if P x then class_first P t else filter P t = [])"
  by (simp add: class_first_def)

lemma class_first_none: "filter P t = [] \<Longrightarrow> class_first P t"
  unfolding class_first_def by (metis filter_append append_is_Nil_conv takeWhile_dropWhile_id)

lemma class_first_tl: "class_first P t \<Longrightarrow> class_first P (tl t)"
  by (cases t) (auto simp: class_first_Cons class_first_none split: if_splits)

lemma class_first_splice: "class_first P t \<Longrightarrow> P w \<Longrightarrow> class_first P (splice P w t)"
  by (induction t) (auto simp: splice_def class_first_Cons split: if_splits)

lemma class_first_snoc: "class_first P t \<Longrightarrow> \<not> P w \<Longrightarrow> class_first P (t @ [w])"
  by (induction t) (auto simp: class_first_Cons split: if_splits)

lemma filter_splice:
  assumes "class_first P t" and "P w"
  shows "filter P (splice P w t) = filter P t @ [w]"
    and "filter (Not \<circ> P) (splice P w t) = filter (Not \<circ> P) t"
  using assms
  by (induction t) (auto simp: splice_def class_first_Cons split: if_splits)

lemma length_splice: "length (splice P w t) = Suc (length t)"
  by (induction t) (simp_all add: splice_def)

text \<open>Behind the head, all posts come before all polls.\<close>

definition posts_first :: "modbusmq_msg_wrapper_t list \<Rightarrow> bool" where
  "posts_first q \<longleftrightarrow> class_first is_post (tl q)"

lemma splice_post_eq: "splice_post w q = takeWhile is_post q @ w # dropWhile is_post q"
  by (induction q) simp_all

lemma queue_insert_Cons:
  "queue_insert w (h # t) = h # (if is_post w then splice is_post w t else t @ [w])"
  by (simp add: queue_insert_def splice_post_eq splice_def)

lemma queue_insert_Nil: "queue_insert w [] = [w]"
  by (simp add: queue_insert_def)

lemma queue_insert_length [simp]: "length (queue_insert w q) = Suc (length q)"
  by (cases q) (simp_all add: queue_insert_Cons queue_insert_Nil length_splice)

lemma posts_first_insert: "posts_first q \<Longrightarrow> posts_first (queue_insert w q)"
  by (cases q) (simp_all add: posts_first_def queue_insert_Cons queue_insert_Nil class_first_splice
      class_first_snoc class_first_none)

lemma posts_first_tl: "posts_first q \<Longrightarrow> posts_first (tl q)"
  by (simp add: posts_first_def class_first_tl)

lemma filter_queue_insert:
  assumes "posts_first q" and "is_post w"
  shows "filter is_post (queue_insert w q) = filter is_post q @ [w]"
    and "filter (Not \<circ> is_post) (queue_insert w q) = filter (Not \<circ> is_post) q"
  using assms filter_splice [of is_post "tl q" w]
  by (cases q; simp add: posts_first_def queue_insert_Cons queue_insert_Nil)+

interpretation rq: request_queue queue_insert is_post posts_first
proof (unfold_locales, goal_cases)
  case 1
  then show ?case by (simp add: posts_first_def class_first_def)
next
  case (2 q w)
  then show ?case by (rule posts_first_insert)
next
  case (3 q)
  then show ?case by (rule posts_first_tl)
next
  case (4 w)
  then show ?case by (rule queue_insert_Nil)
next
  case (5 q w)
  then show ?case by (cases q) (simp_all add: queue_insert_Cons)
next
  case (6 q w)
  then show ?case using filter_queue_insert by blast
next
  case (7 w q)
  then show ?case by (cases q) (simp_all add: queue_insert_Cons queue_insert_Nil)
qed

section \<open>What posting changes\<close>

lemma tcp_prepare_ids:
  "req_id (snd (snd (modbusmq_tcp_msg_prepare t m))) = req_id m"
  "msg_id (snd (snd (modbusmq_tcp_msg_prepare t m))) = msg_id m"
  by (simp_all add: modbusmq_tcp_msg_prepare_def Let_def)

lemma rtu_prepare_ids:
  "req_id (snd (modbusmq_rtu_msg_prepare m)) = req_id m"
  "msg_id (snd (modbusmq_rtu_msg_prepare m)) = msg_id m"
  by (simp_all add: modbusmq_rtu_msg_prepare_def Let_def)

lemma msg_prepare_tcp:
  assumes "link c = Tcp t"
  shows "modbusmq_msg_prepare c m =
    (let r = modbusmq_tcp_msg_prepare t m in (fst r, c\<lparr>link := Tcp (fst (snd r))\<rparr>, snd (snd r)))"
  using assms
  by (simp add: modbusmq_msg_prepare_def modbusmq_tcp_cb_def tcp_prepare_in_context_def Let_def
      split: prod.split)

lemma msg_prepare_rtu:
  assumes "link c = Rtu r"
  shows "modbusmq_msg_prepare c m =
    (let p = modbusmq_rtu_msg_prepare m in (fst p, c\<lparr>link := link c\<rparr>, snd p))"
  using assms
  by (simp add: modbusmq_msg_prepare_def modbusmq_rtu_cb_def Let_def split: prod.split)

lemma msg_prepare_state:
  assumes "modbusmq_msg_prepare c m = (rc, c', m')"
  shows "\<exists>l. c' = c\<lparr>link := l\<rparr>" and "req_id m' = req_id m" and "msg_id m' = msg_id m"
proof -
  have "(\<exists>l. c' = c\<lparr>link := l\<rparr>) \<and> req_id m' = req_id m \<and> msg_id m' = msg_id m"
  proof (cases "link c")
    case (Tcp t)
    show ?thesis
      using assms tcp_prepare_ids [of t m] unfolding msg_prepare_tcp [OF Tcp] Let_def by blast
  next
    case (Rtu r)
    show ?thesis
      using assms rtu_prepare_ids [of m] unfolding msg_prepare_rtu [OF Rtu] Let_def by blast
  qed
  then show "\<exists>l. c' = c\<lparr>link := l\<rparr>" "req_id m' = req_id m" "msg_id m' = msg_id m" by blast+
qed

text \<open>The queue is the only thing a post changes besides the two id counters.\<close>

lemma post_internal_state:
  assumes "modbusmq_post_internal c m fl = (rc, c', m')"
  shows "\<exists>l n w. c' = c\<lparr>link := l, req_id_next := n, msg_queue := queue_insert w (msg_queue c)\<rparr>
           \<and> flags w = fl \<and> head_since_ms w = 0 \<and> m' = m\<lparr>req_id := n\<rparr> \<and> n \<noteq> 0
           \<and> req_id (wmsg w) = n \<and> msg_id (wmsg w) = msg_id m \<and> rc = 0"
proof -
  obtain n c1 where n: "modbusmq_next_req_id c = (n, c1)" by (cases "modbusmq_next_req_id c")
  then have c1: "c1 = c\<lparr>req_id_next := n\<rparr>" "n \<noteq> 0"
    using next_req_id_state [of c] next_req_id_nonzero [of c] by simp_all
  obtain rc2 c2 p where p: "modbusmq_msg_prepare c1 (m\<lparr>req_id := n\<rparr>) = (rc2, c2, p)"
    by (cases "modbusmq_msg_prepare c1 (m\<lparr>req_id := n\<rparr>)")
  obtain l where c2: "c2 = c1\<lparr>link := l\<rparr>" using msg_prepare_state(1) [OF p] by blast
  let ?w = "\<lparr>flags = fl, head_since_ms = 0, wmsg = p\<rparr>"
  have "c' = c2\<lparr>msg_queue := queue_insert ?w (msg_queue c2)\<rparr>" "m' = m\<lparr>req_id := n\<rparr>" "rc = 0"
    using assms by (simp_all add: modbusmq_post_internal_def n p)
  moreover have "req_id p = n" "msg_id p = msg_id m" using msg_prepare_state(2,3) [OF p] by simp_all
  ultimately show ?thesis
    using c1 c2 by (intro exI [of _ l] exI [of _ n] exI [of _ ?w]) simp
qed

lemma post_internal_queue:
  assumes "modbusmq_post_internal c m fl = (rc, c', m')"
  shows "\<exists>w. flags w = fl \<and> msg_id (wmsg w) = msg_id m \<and> msg_queue c' = queue_insert w (msg_queue c)"
    and "timers c' = timers c" "config c' = config c" "ticks c' = ticks c" "clock c' = clock c"
    and "events c' = events c"
  using post_internal_state [OF assms] by auto

end
