(* ===== verification/Backoff.thy ===== *)
theory Backoff
  imports Queue
begin

text \<open>
  The subscription timers as far as the backoff of a slave that stopped answering is
  concerned: \<open>modbusmq_timer_find\<close>, \<open>modbusmq_slave_update\<close>, \<open>modbusmq_slave_gate\<close>,
  \<open>modbusmq_once_rearm\<close> and the quiet gap \<open>modbusmq_frame_delay_left\<close> of lib/modbusmq.c.
\<close>

abbreviation (input) MODBUSMQ_SLAVE_MISS_MAX :: int where "MODBUSMQ_SLAVE_MISS_MAX \<equiv> 3"
abbreviation (input) MODBUSMQ_SLAVE_RETRY_FIRST_MS :: u32 where "MODBUSMQ_SLAVE_RETRY_FIRST_MS \<equiv> 1000"

definition modbusmq_timer_find :: "modbusmq_context_t \<Rightarrow> int \<Rightarrow> modbusmq_timer_t option" where
  "modbusmq_timer_find c tid = find (\<lambda>t. timer_id t = tid) (timers c)"

section \<open>Backoff\<close>

text \<open>The two loops over the timers of one slave.\<close>

definition set_misses :: "int \<Rightarrow> int \<Rightarrow> modbusmq_timer_t \<Rightarrow> modbusmq_timer_t" where
  "set_misses slave n t = (if timer_slave t = slave then t\<lparr>misses := word_of_int n\<rparr> else t)"

definition set_backoff ::
    "int \<Rightarrow> int \<Rightarrow> bool \<Rightarrow> u32 \<Rightarrow> millitime_t \<Rightarrow> modbusmq_timer_t \<Rightarrow> modbusmq_timer_t" where
  "set_backoff slave n unresp retry now t =
     (if timer_slave t \<noteq> slave then t
      else (let t = (if unresponsive t \<and> \<not> unresp \<and> is_once t then t\<lparr>timer_next_time := now\<rparr> else t)
            in t\<lparr>misses := word_of_int n, unresponsive := unresp, retry_ms := retry,
                 retry_at := now + ucast retry\<rparr>))"

definition modbusmq_slave_update ::
    "modbusmq_context_t \<Rightarrow> int \<Rightarrow> bool \<Rightarrow> modbusmq_context_t" where
  "modbusmq_slave_update c tid answered =
     (let retry_max = (case config c of Some cfg \<Rightarrow> slave_retry_max_ms cfg | None \<Rightarrow> 0)
      in case modbusmq_timer_find c tid of
           None \<Rightarrow> c
         | Some timer \<Rightarrow>
             (let slave = timer_slave timer; (now, c) = millitime c;
                  finish = (\<lambda>n unresp retry. c\<lparr>timers := map (set_backoff slave n unresp retry now) (timers c)\<rparr>)
              in if answered then finish 0 False 0
                 else if retry_max \<le> 0 then c
                 else if \<not> unresponsive timer then
                   (let n = uint (misses timer) + 1
                    in if n < MODBUSMQ_SLAVE_MISS_MAX
                       then c\<lparr>timers := map (set_misses slave n) (timers c)\<rparr>
                       else finish n True (min MODBUSMQ_SLAVE_RETRY_FIRST_MS (word_of_int retry_max)))
                 else finish (uint (misses timer)) True
                        (min (retry_ms timer * 2) (word_of_int retry_max))))"

text \<open>
  The gate in front of a poll. In C \<open>timer\<close> points into the list; here it is a member of
  it, and the new list comes back.
\<close>

definition modbusmq_slave_gate ::
    "modbusmq_timer_t list \<Rightarrow> modbusmq_timer_t \<Rightarrow> millitime_t \<Rightarrow> bool \<times> modbusmq_timer_t list" where
  "modbusmq_slave_gate ts timer now =
     (if \<not> unresponsive timer then (True, ts)
      else if now < retry_at timer then (False, ts)
      else (True, map (\<lambda>t. if timer_slave t = timer_slave timer
                            then t\<lparr>retry_at := now + ucast (retry_ms timer)\<rparr> else t) ts))"

section \<open>Reading once inputs again, and the quiet gap\<close>

fun once_rearm_loop ::
    "modbusmq_context_t \<Rightarrow> modbusmq_timer_t list \<Rightarrow> modbusmq_context_t \<times> modbusmq_timer_t list" where
  "once_rearm_loop c [] = (c, [])"
| "once_rearm_loop c (t # ts) =
     (let (c, t) = (if is_once t then (let (now, c) = millitime c in (c, t\<lparr>timer_next_time := now\<rparr>))
                    else (c, t));
          (c, ts) = once_rearm_loop c ts
      in (c, t # ts))"

definition modbusmq_once_rearm :: "modbusmq_context_t \<Rightarrow> modbusmq_context_t" where
  "modbusmq_once_rearm c = (let (c', ts) = once_rearm_loop c (timers c) in c'\<lparr>timers := ts\<rparr>)"

definition modbusmq_frame_delay_left :: "modbusmq_context_t \<Rightarrow> millitime_t \<Rightarrow> millitime_t" where
  "modbusmq_frame_delay_left c now =
     (let delay = (case config c of Some cfg \<Rightarrow> frame_delay_ms cfg | None \<Rightarrow> 0)
      in if delay \<le> 0 \<or> now \<ge> last_read_ms c + word_of_int delay then 0
         else last_read_ms c + word_of_int delay - now)"

end
