(* ===== verification/Reply.thy ===== *)
theory Reply
  imports Backoff Text
begin

text \<open>
  How a finished or failed request is reported in lib/modbusmq.c: the raw reply line, the
  error callback with the backoff update in front of it, and \<open>modbusmq_reset_queue\<close>, which
  reports everything it drops.

  A callback is recorded as an event. The callbacks of the library may post further requests
  from inside; that is a later operation here.
\<close>

section \<open>Raw replies\<close>

definition modbusmq_raw_reply :: "modbusmq_context_t \<Rightarrow> string \<Rightarrow> modbusmq_context_t" where
  "modbusmq_raw_reply c result =
     (let line = raw_text c @ '' -> '' @ result
      in emit (Ev_Raw_Reply line) (c\<lparr>raw_cb := False, raw_text := []\<rparr>))"

definition modbusmq_raw_pending :: "modbusmq_context_t \<Rightarrow> modbusmq_msg_t \<Rightarrow> bool" where
  "modbusmq_raw_pending c m \<longleftrightarrow> raw_cb c \<and> req_id m = raw_req_id c"

definition modbusmq_strerror :: "modbusmq_context_t \<Rightarrow> int \<Rightarrow> string" where
  "modbusmq_strerror c n =
     (if n = MODBUSMQ_ERR_TRANSPORT then ''connection lost''
      else if n = MODBUSMQ_ERR_PROTOCOL then ''frame rejected, stream resynced''
      else if n = MODBUSMQ_ERR_TIMEOUT then ''no response within frame timeout''
      else if n = MODBUSMQ_ERR_EXCEPTION then ''device returned a Modbus exception''
      else libc_strerror c n)"

definition modbusmq_raw_error ::
    "modbusmq_context_t \<Rightarrow> modbusmq_msg_t \<Rightarrow> int \<Rightarrow> modbusmq_context_t" where
  "modbusmq_raw_error c m error =
     (let result =
        (if error = MODBUSMQ_ERR_EXCEPTION then
           (let code = modbusmq_frame_exception_code c (frame1 m)
            in fit 96 (''error exception '' @ int_str code @ '' '' @ modbusmq_exception_string code))
         else fit 96 (''error '' @ modbusmq_strerror c error))
      in modbusmq_raw_reply c result)"

text \<open>The answer as text: bits as 0 and 1, registers as hex words.\<close>

definition raw_bits :: "byte list \<Rightarrow> nat \<Rightarrow> string" where
  "raw_bits data n = map (\<lambda>i. if bit (data ! (i div 8)) (i mod 8) then CHR ''1'' else CHR ''0'') [0..<n]"

fun raw_words :: "byte list \<Rightarrow> nat \<Rightarrow> nat \<Rightarrow> string" where
  "raw_words data i 0 = []"
| "raw_words data i (Suc n) =
     (if i = 0 then [] else '' '') @ hex4 (be16 (data ! (2 * i)) (data ! (2 * i + 1)))
       @ raw_words data (Suc i) n"

definition modbusmq_raw_done :: "modbusmq_context_t \<Rightarrow> modbusmq_msg_t \<Rightarrow> modbusmq_context_t" where
  "modbusmq_raw_done c m =
     (let data = modbusmq_frame_data c (frame1 m); n = unat (raw_count c); fc = uint (raw_fc c)
      in if fc = 1 \<or> fc = 2 then modbusmq_raw_reply c (raw_bits data n)
         else if fc = 3 \<or> fc = 4 then modbusmq_raw_reply c (raw_words data 0 n)
         else modbusmq_raw_reply c ''ok'')"

section \<open>Failures\<close>

definition modbusmq_report_error ::
    "modbusmq_context_t \<Rightarrow> modbusmq_msg_t \<Rightarrow> int \<Rightarrow> modbusmq_context_t" where
  "modbusmq_report_error c m error =
     (if modbusmq_raw_pending c m then modbusmq_raw_error c m error
      else
        (let c = (if msg_id m > 0 \<and> (error = MODBUSMQ_ERR_TIMEOUT \<or> error = MODBUSMQ_ERR_EXCEPTION)
                  then modbusmq_slave_update c (msg_id m) (error = MODBUSMQ_ERR_EXCEPTION) else c)
         in if has_error_cb c then emit (Ev_Error m error) c else c))"

definition modbusmq_reject_reason :: "modbusmq_context_t \<Rightarrow> modbusmq_msg_t \<Rightarrow> int" where
  "modbusmq_reject_reason c m =
     (if cb_msg_exception (cb c) m > 0 then MODBUSMQ_ERR_EXCEPTION else MODBUSMQ_ERR_PROTOCOL)"

definition modbusmq_reset_queue :: "modbusmq_context_t \<Rightarrow> modbusmq_context_t" where
  "modbusmq_reset_queue c =
     (let c = foldl (\<lambda>c w. modbusmq_report_error c (wmsg w) MODBUSMQ_ERR_TRANSPORT) c (msg_queue c)
      in modbusmq_once_rearm (c\<lparr>msg_queue := []\<rparr>))"

section \<open>Connecting and closing\<close>

text \<open>
  \<open>open_link\<close> is the \<open>connect\<close> callback of the transport: opening the device or the socket.
\<close>

definition modbusmq_connect ::
    "(modbusmq_context_t \<Rightarrow> int \<times> modbusmq_context_t) \<Rightarrow> modbusmq_context_t \<Rightarrow> int \<times> modbusmq_context_t" where
  "modbusmq_connect open_link c =
     (let (rc, c) = open_link c
      in if rc = 0 then (rc, c\<lparr>resync_pending := True\<rparr>) else (rc, c))"

definition modbusmq_close :: "modbusmq_context_t \<Rightarrow> int \<times> modbusmq_context_t" where
  "modbusmq_close c = (0, c\<lparr>fd := -1\<rparr>)"

end
