(* ===== verification/Loop.thy ===== *)
theory Loop
  imports Reply Transport_Facts
begin

text \<open>
  The write/read half of the event loop of lib/modbusmq.c: \<open>modbusmq_frame_incomplete\<close>,
  \<open>modbusmq_handle_write_read\<close>, \<open>modbusmq_handle_msg\<close> and \<open>modbusmq_loop_write_read\<close>.

  The message in flight is mutated in place in C; here it comes back as a result and
  \<open>modbusmq_loop_write_read\<close> puts it into the head of the queue again.
\<close>

section \<open>Poll events\<close>

abbreviation (input) POLLIN :: int where "POLLIN \<equiv> 1"
abbreviation (input) POLLOUT :: int where "POLLOUT \<equiv> 4"
abbreviation (input) POLLERR :: int where "POLLERR \<equiv> 8"
abbreviation (input) POLLHUP :: int where "POLLHUP \<equiv> 16"

definition has_event :: "int \<Rightarrow> int \<Rightarrow> bool" where
  "has_event revents ev \<longleftrightarrow> (revents AND ev) \<noteq> 0"

section \<open>One message\<close>

definition modbusmq_frame_incomplete :: "modbusmq_context_t \<Rightarrow> modbusmq_frame_t \<Rightarrow> int" where
  "modbusmq_frame_incomplete c f =
     (if is_writer f then
        (if flength f \<ge> req_header_min c \<and> xmit f = flength f then 0 else 1)
      else if flength f = 0 then res_header_min c
      else if xmit f < res_header_min c then res_header_min c - xmit f
      else if xmit f = flength f then 0
      else 1)"

text \<open>\<open>memset(reader, 0, sizeof(*reader)); reader->length = context->header_length;\<close>\<close>

definition fresh_reader :: "modbusmq_context_t \<Rightarrow> modbusmq_frame_t" where
  "fresh_reader c = frame_zero\<lparr>flength := header_length c\<rparr>"

text \<open>The accounting at the label \<open>pending\<close>.\<close>

definition pending_bytes :: "modbusmq_context_t \<Rightarrow> modbusmq_frame_t \<Rightarrow> modbusmq_frame_t \<Rightarrow> int" where
  "pending_bytes c writer reader =
     (let rc = flength writer - xmit writer + flength reader - xmit reader
      in if rc = 0 \<and> (flength reader < res_header_min c \<or> xmit reader \<noteq> flength reader)
         then (let rc = res_header_min c - xmit reader in if rc \<le> 0 then 1 else rc)
         else rc)"

definition pending :: "modbusmq_context_t \<Rightarrow> modbusmq_msg_t \<Rightarrow> nat \<Rightarrow> nat \<Rightarrow> int \<times> modbusmq_context_t \<times> modbusmq_msg_t" where
  "pending c m wi ri = (pending_bytes c (frame_at m wi) (frame_at m ri), c, m)"

text \<open>The branch that writes the request.\<close>

definition write_step ::
    "modbusmq_context_t \<Rightarrow> modbusmq_msg_t \<Rightarrow> nat \<Rightarrow> nat \<Rightarrow> int \<times> modbusmq_context_t \<times> modbusmq_msg_t" where
  "write_step c m wi ri =
     (let (gap, c) =
        (if xmit (frame_at m wi) = 0
         then (let (now, c) = millitime c in (modbusmq_frame_delay_left c now > 0, c))
         else (False, c))
      in if gap then (0, c, m)
         else
           (let c = (if resync_pending c \<and> xmit (frame_at m wi) = 0 then modbusmq_resync c else c);
                (now, c) = millitime c;
                c = c\<lparr>last_write_ms := now\<rparr>;
                (rc, c, w) = modbusmq_write c (frame_at m wi);
                m = put_frame wi w m
            in if rc < 0 then (-1, c\<lparr>err := err c + 1\<rparr>, m)
               else if flength w = xmit w then
                 (if modbusmq_msg_broadcast c m then (0, c, m)
                  else
                    (let m = put_frame ri (fresh_reader c) m
                     in if rc \<noteq> 0 then (rc, c, m) else pending c m wi ri))
               else if rc \<noteq> 0 then (rc, c, m) else pending c m wi ri))"

text \<open>
  The branch that reads the response: match what has arrived against the request; step over
  a well-formed frame that belongs to nobody, give up on bytes that form no frame.
\<close>

definition mismatch_step ::
    "modbusmq_context_t \<Rightarrow> modbusmq_msg_t \<Rightarrow> nat \<Rightarrow> nat \<Rightarrow> int \<times> modbusmq_context_t \<times> modbusmq_msg_t" where
  "mismatch_step c m wi ri =
     (if cb_msg_exception (cb c) m > 0 then (MODBUSMQ_ERR_EXCEPTION, c, m)
      else
        (let (rc, r) = modbusmq_frame_drain c (frame_at m ri);
             m = put_frame ri r m
         in if rc > 0 then pending c (put_frame ri (fresh_reader c) m) wi ri
            else if rc = 0 then pending c m wi ri
            else
              (let c = c\<lparr>err := err c + 1\<rparr>;
                   c = snd (modbusmq_flush c);
                   c = c\<lparr>resync_pending := True\<rparr>
               in (MODBUSMQ_ERR_PROTOCOL, c, put_frame ri (fresh_reader c) m))))"

definition read_step ::
    "modbusmq_context_t \<Rightarrow> modbusmq_msg_t \<Rightarrow> nat \<Rightarrow> nat \<Rightarrow> int \<times> modbusmq_context_t \<times> modbusmq_msg_t" where
  "read_step c m wi ri =
     (let (now, c) = millitime c;
          c = c\<lparr>last_read_ms := now\<rparr>;
          (rc, c, r) = modbusmq_read c (frame_at m ri);
          m = put_frame ri r m
      in if rc < 0 then (MODBUSMQ_ERR_TRANSPORT, c\<lparr>err := err c + 1\<rparr>, m)
         else
           (let (hrc, m) = modbusmq_check_header c m
            in if hrc < 0 then mismatch_step c m wi ri
               else if xmit (frame_at m ri) = flength (frame_at m ri) then pending c m wi ri
               else if rc \<noteq> 0 then (rc, c, m)
               else pending c m wi ri))"

definition modbusmq_handle_write_read ::
    "modbusmq_context_t \<Rightarrow> modbusmq_msg_t \<Rightarrow> int \<Rightarrow> int \<times> modbusmq_context_t \<times> modbusmq_msg_t" where
  "modbusmq_handle_write_read c m revents =
     (let wi = writer_ix m; ri = reader_ix m
      in if modbusmq_frame_incomplete c (frame_at m wi) \<noteq> 0 then
           (if has_event revents POLLOUT then write_step c m wi ri else pending c m wi ri)
         else if modbusmq_frame_incomplete c (frame_at m ri) \<noteq> 0 then
           (if has_event revents POLLIN then read_step c m wi ri else pending c m wi ri)
         else (0, c, m))"

section \<open>A complete message\<close>

text \<open>\<open>timer->timer_next_time = UINT64_MAX\<close> in the timer that \<open>modbusmq_timer_find\<close> returns.\<close>

fun once_answered :: "int \<Rightarrow> modbusmq_timer_t list \<Rightarrow> modbusmq_timer_t list" where
  "once_answered tid [] = []"
| "once_answered tid (t # ts) =
     (if timer_id t = tid
      then (if is_once t then t\<lparr>timer_next_time := -1\<rparr> else t) # ts
      else t # once_answered tid ts)"

definition input_matches :: "int \<Rightarrow> int \<Rightarrow> int \<Rightarrow> modbusmq_input_t \<Rightarrow> bool" where
  "input_matches slave function address i \<longleftrightarrow>
     in_slave i = slave \<and> in_type i = function \<and> in_address i + in_address_offset i = address"

definition deliver_poll ::
    "modbusmq_config_t \<Rightarrow> modbusmq_context_t \<Rightarrow> modbusmq_msg_t \<Rightarrow> modbusmq_context_t" where
  "deliver_poll gcfg c m =
     (let c = modbusmq_slave_update c (msg_id m) True;
          c = c\<lparr>timers := once_answered (msg_id m) (timers c)\<rparr>;
          function = modbusmq_frame_function c (frame0 m);
          address = modbusmq_frame_addr c (frame0 m);
          slave = modbusmq_frame_slave c (frame0 m)
      in foldl (\<lambda>c i. emit (Ev_Subscribe m i) c) c
           (filter (\<lambda>i. input_matches slave function address (inputs gcfg ! i)) [0..<length (inputs gcfg)]))"

text \<open>
  \<open>gcfg\<close> is the configuration that \<open>modbusmq_config_get()\<close> returns. The subscription callback is
  called once for every input that matches; its position stands for the pointer.
\<close>

definition modbusmq_handle_msg ::
    "modbusmq_config_t \<Rightarrow> modbusmq_context_t \<Rightarrow> modbusmq_msg_wrapper_t \<Rightarrow> int \<times> modbusmq_context_t" where
  "modbusmq_handle_msg gcfg c w =
     (let (rc, m) = modbusmq_check c (wmsg w)
      in if rc \<noteq> 0 then
           (let c = c\<lparr>err := err c + 1\<rparr>;
                c = snd (modbusmq_flush c);
                c = c\<lparr>resync_pending := True\<rparr>;
                c = modbusmq_report_error c m (modbusmq_reject_reason c m)
            in (MODBUSMQ_ERR_PROTOCOL, drop_head c))
         else
           (let c =
              (if flags w = MODBUSMQ_MSG_POST \<and> modbusmq_raw_pending c m then modbusmq_raw_done c m
               else if flags w = MODBUSMQ_MSG_POST then
                 (if has_message_cb c then emit (Ev_Message m) c else c)
               else if flags w = MODBUSMQ_MSG_SUBSCRIBE \<and> has_subscribe_cb c then deliver_poll gcfg c m
               else c)
            in (0, drop_head c)))"

section \<open>One iteration\<close>

definition modbusmq_loop_write_read ::
    "modbusmq_config_t \<Rightarrow> modbusmq_context_t \<Rightarrow> int \<Rightarrow> int \<times> modbusmq_context_t" where
  "modbusmq_loop_write_read gcfg c revents =
     (case msg_queue c of
        [] \<Rightarrow>
          (if has_event revents (POLLERR OR POLLHUP)
           then (MODBUSMQ_ERR_TRANSPORT, c\<lparr>err := err c + 1\<rparr>) else (0, c))
      | w # ws \<Rightarrow>
          (let (rc, c, m) = modbusmq_handle_write_read c (wmsg w) revents;
               c = set_head m c
           in if rc = 0 then
                modbusmq_handle_msg gcfg (c\<lparr>tx := tx c + 1, rx := rx c + 1\<rparr>) (w\<lparr>wmsg := m\<rparr>)
              else if rc = MODBUSMQ_ERR_EXCEPTION then
                (MODBUSMQ_ERR_PROTOCOL,
                 drop_head (modbusmq_report_error (c\<lparr>err := err c + 1\<rparr>) m MODBUSMQ_ERR_EXCEPTION))
              else if rc = MODBUSMQ_ERR_PROTOCOL then
                (rc, drop_head (modbusmq_report_error c m (modbusmq_reject_reason c m)))
              else if rc < 0 then
                (rc, drop_head (modbusmq_report_error (c\<lparr>err := err c + 1\<rparr>) m MODBUSMQ_ERR_TRANSPORT))
              else (rc, c)))"

end
