(* ===== verification/Backoff_Facts.thy ===== *)
theory Backoff_Facts
  imports Backoff
begin

text \<open>
  Correctness of the backoff: what an update may change, the invariant every operation keeps,
  the refinement of the word-level counters to the abstract schedule, and the probe window.
\<close>

section \<open>What an update changes\<close>

text \<open>
  Backoff data of one timer. \<open>same_poll\<close> is everything else about it, apart from the due
  time that an answer moves for once inputs.
\<close>

definition same_poll :: "modbusmq_timer_t \<Rightarrow> modbusmq_timer_t \<Rightarrow> bool" where
  "same_poll t u \<longleftrightarrow> timer_id u = timer_id t \<and> timer_slave u = timer_slave t \<and> tmsg u = tmsg t
     \<and> is_once u = is_once t \<and> timer_tier u = timer_tier t \<and> timer_interval u = timer_interval t
     \<and> orig_interval u = orig_interval t \<and> timer_start u = timer_start t
     \<and> (timer_next_time u = timer_next_time t \<or> is_once t)"

lemma same_poll_refl [simp]: "same_poll t t"
  by (simp add: same_poll_def)

lemma set_misses_simps [simp]:
  "timer_slave (set_misses s n t) = timer_slave t" "same_poll t (set_misses s n t)"
  "timer_slave t \<noteq> s \<Longrightarrow> set_misses s n t = t"
  "unresponsive (set_misses s n t) = unresponsive t" "retry_ms (set_misses s n t) = retry_ms t"
  "retry_at (set_misses s n t) = retry_at t"
  "misses (set_misses s n t) = (if timer_slave t = s then word_of_int n else misses t)"
  by (simp_all add: set_misses_def same_poll_def)

lemma set_backoff_simps [simp]:
  "timer_slave (set_backoff s n u r now t) = timer_slave t" "same_poll t (set_backoff s n u r now t)"
  "timer_slave t \<noteq> s \<Longrightarrow> set_backoff s n u r now t = t"
  "misses (set_backoff s n u r now t) = (if timer_slave t = s then word_of_int n else misses t)"
  "unresponsive (set_backoff s n u r now t) = (if timer_slave t = s then u else unresponsive t)"
  "retry_ms (set_backoff s n u r now t) = (if timer_slave t = s then r else retry_ms t)"
  "retry_at (set_backoff s n u r now t) = (if timer_slave t = s then now + ucast r else retry_at t)"
  by (simp_all add: set_backoff_def Let_def same_poll_def)

definition retry_max :: "modbusmq_context_t \<Rightarrow> int" where
  "retry_max c = (case config c of Some cfg \<Rightarrow> slave_retry_max_ms cfg | None \<Rightarrow> 0)"

lemma timer_find_Some:
  assumes "modbusmq_timer_find c tid = Some t"
  shows "t \<in> set (timers c)" "timer_id t = tid"
  using assms by (auto simp: modbusmq_timer_find_def find_Some_iff)

text \<open>The update as one map over the timers.\<close>

lemma slave_update_cases:
  assumes "modbusmq_timer_find c tid = Some t"
  obtains
    (answered) "ans"
      "modbusmq_slave_update c tid ans = c\<lparr>ticks := Suc (ticks c),
         timers := map (set_backoff (timer_slave t) 0 False 0 (clock c (ticks c))) (timers c)\<rparr>"
  | (off) "\<not> ans" "retry_max c \<le> 0"
      "modbusmq_slave_update c tid ans = c\<lparr>ticks := Suc (ticks c)\<rparr>"
  | (miss) "\<not> ans" "0 < retry_max c" "\<not> unresponsive t" "uint (misses t) + 1 < 3"
      "modbusmq_slave_update c tid ans = c\<lparr>ticks := Suc (ticks c),
         timers := map (set_misses (timer_slave t) (uint (misses t) + 1)) (timers c)\<rparr>"
  | (lost) "\<not> ans" "0 < retry_max c" "\<not> unresponsive t" "\<not> uint (misses t) + 1 < 3"
      "modbusmq_slave_update c tid ans = c\<lparr>ticks := Suc (ticks c),
         timers := map (set_backoff (timer_slave t) (uint (misses t) + 1) True
           (min 1000 (word_of_int (retry_max c))) (clock c (ticks c))) (timers c)\<rparr>"
  | (probe) "\<not> ans" "0 < retry_max c" "unresponsive t"
      "modbusmq_slave_update c tid ans = c\<lparr>ticks := Suc (ticks c),
         timers := map (set_backoff (timer_slave t) (uint (misses t)) True
           (min (retry_ms t * 2) (word_of_int (retry_max c))) (clock c (ticks c))) (timers c)\<rparr>"
proof -
  have eq: "modbusmq_slave_update c tid b =
    (let now = clock c (ticks c); c1 = c\<lparr>ticks := Suc (ticks c)\<rparr>
     in if b then c1\<lparr>timers := map (set_backoff (timer_slave t) 0 False 0 now) (timers c)\<rparr>
        else if retry_max c \<le> 0 then c1
        else if \<not> unresponsive t then
          (if uint (misses t) + 1 < 3
           then c1\<lparr>timers := map (set_misses (timer_slave t) (uint (misses t) + 1)) (timers c)\<rparr>
           else c1\<lparr>timers := map (set_backoff (timer_slave t) (uint (misses t) + 1) True
                  (min 1000 (word_of_int (retry_max c))) now) (timers c)\<rparr>)
        else c1\<lparr>timers := map (set_backoff (timer_slave t) (uint (misses t)) True
                  (min (retry_ms t * 2) (word_of_int (retry_max c))) now) (timers c)\<rparr>)" for b
    unfolding modbusmq_slave_update_def assms retry_max_def [symmetric] millitime_def by (simp add: Let_def)
  consider "ans" | "\<not> ans" "retry_max c \<le> 0"
    | "\<not> ans" "0 < retry_max c" "\<not> unresponsive t" "uint (misses t) + 1 < 3"
    | "\<not> ans" "0 < retry_max c" "\<not> unresponsive t" "\<not> uint (misses t) + 1 < 3"
    | "\<not> ans" "0 < retry_max c" "unresponsive t"
    by linarith
  then show thesis
  proof cases
    case 1 show thesis by (rule answered) (use 1 in \<open>simp_all add: eq Let_def\<close>)
  next
    case 2 show thesis by (rule off) (use 2 in \<open>simp_all add: eq Let_def\<close>)
  next
    case 3 show thesis by (rule miss) (use 3 in \<open>simp_all add: eq Let_def\<close>)
  next
    case 4 show thesis by (rule lost) (use 4 in \<open>simp_all add: eq Let_def\<close>)
  next
    case 5 show thesis by (rule probe) (use 5 in \<open>simp_all add: eq Let_def\<close>)
  qed
qed

lemma slave_update_unknown: "modbusmq_timer_find c tid = None \<Longrightarrow> modbusmq_slave_update c tid ans = c"
  by (simp add: modbusmq_slave_update_def)

text \<open>Only the backoff data of timers of one slave, and the due time of its once inputs.\<close>

lemma slave_update_frame:
  "\<exists>f n. modbusmq_slave_update c tid ans = c\<lparr>ticks := n, timers := map f (timers c)\<rparr>
     \<and> (\<forall>t. same_poll t (f t))
     \<and> (\<forall>t u. modbusmq_timer_find c tid = Some u \<longrightarrow> timer_slave t \<noteq> timer_slave u \<longrightarrow> f t = t)"
proof (cases "modbusmq_timer_find c tid")
  case None
  show ?thesis by (rule exI [of _ "\<lambda>t. t"], rule exI [of _ "ticks c"]) (simp add: slave_update_unknown None)
next
  case (Some t)
  from Some show ?thesis
  proof (cases rule: slave_update_cases [where ans = ans])
    case off
    show ?thesis by (rule exI [of _ "\<lambda>t. t"], rule exI [of _ "Suc (ticks c)"]) (simp add: off(3))
  qed (rule exI, rule exI, rule conjI, assumption, simp add: Some)+
qed

section \<open>The abstract schedule\<close>

text \<open>
  What the counters stand for: a slave is listened to while it has missed fewer than three
  answers in a row, and probed at a growing interval after that.
\<close>

datatype backoff = Listening nat | Probing nat

definition backoff_of :: "modbusmq_timer_t \<Rightarrow> backoff" where
  "backoff_of t = (if unresponsive t then Probing (unat (retry_ms t)) else Listening (unat (misses t)))"

fun timeout_step :: "nat \<Rightarrow> backoff \<Rightarrow> backoff" where
  "timeout_step m (Listening k) = (if k + 1 < 3 then Listening (k + 1) else Probing (min 1000 m))"
| "timeout_step m (Probing r) = Probing (min (2 * r) m)"

definition backoff_step :: "int \<Rightarrow> bool \<Rightarrow> backoff \<Rightarrow> backoff" where
  "backoff_step m answered b =
     (if answered then Listening 0 else if m \<le> 0 then b else timeout_step (nat m) b)"

text \<open>The bounds, and the agreement of the timers of one slave.\<close>

definition backoff_bounds :: "int \<Rightarrow> modbusmq_timer_t \<Rightarrow> bool" where
  "backoff_bounds m t \<longleftrightarrow>
     (if unresponsive t then 0 < retry_ms t \<and> uint (retry_ms t) \<le> m else uint (misses t) < 3)"

definition backoff_key :: "modbusmq_timer_t \<Rightarrow> byte \<times> bool \<times> u32 \<times> millitime_t" where
  "backoff_key t = (misses t, unresponsive t, retry_ms t, retry_at t)"

definition wf_backoff :: "int \<Rightarrow> modbusmq_timer_t list \<Rightarrow> bool" where
  "wf_backoff m ts \<longleftrightarrow> (\<forall>t \<in> set ts. backoff_bounds m t)
     \<and> (\<forall>t \<in> set ts. \<forall>u \<in> set ts. timer_slave t = timer_slave u \<longrightarrow> backoff_key t = backoff_key u)"

lemma wf_backoffD:
  assumes "wf_backoff m ts" and "t \<in> set ts"
  shows "backoff_bounds m t"
    and "u \<in> set ts \<Longrightarrow> timer_slave u = timer_slave t \<Longrightarrow> backoff_key u = backoff_key t"
  using assms unfolding wf_backoff_def by blast+

lemma int_unat: "int (unat w) = uint w"
  by simp

lemma byte_of_int: "0 \<le> k \<Longrightarrow> k < 256 \<Longrightarrow> uint (word_of_int k :: byte) = k"
  by (simp add: uint_word_of_int)

lemma unat_min: "unat (min a b) = min (unat a) (unat b)"
  by (simp add: min_def word_le_nat_alt)

lemma unat_int_cap:
  assumes "0 < m" and "m < 2 ^ 31"
  shows "unat (word_of_int m :: u32) = nat m"
proof -
  have "uint (word_of_int m :: u32) = m" using assms by (simp add: uint_word_of_int)
  then show ?thesis by (simp flip: nat_uint_eq)
qed

text \<open>Doubling happens below the cap, so it never wraps.\<close>

lemma unat_double:
  assumes "uint (r :: u32) \<le> m" and "m < 2 ^ 31"
  shows "unat (r * 2) = 2 * unat r"
proof -
  have "m < 2147483648" using assms(2) by simp
  then have "unat r < 2147483648" using assms(1) int_unat [of r] by linarith
  then show ?thesis by (simp add: unat_word_ariths)
qed

text \<open>One update, seen through the abstraction, on any timer of the slave concerned.\<close>

lemma slave_update_refines:
  assumes wf: "wf_backoff (retry_max c) (timers c)" and cap: "retry_max c < 2 ^ 31"
    and t: "modbusmq_timer_find c tid = Some t"
  shows "map backoff_of (filter (\<lambda>u. timer_slave u = timer_slave t) (timers (modbusmq_slave_update c tid ans)))
       = map (backoff_step (retry_max c) ans \<circ> backoff_of)
           (filter (\<lambda>u. timer_slave u = timer_slave t) (timers c))"
    and "filter (\<lambda>u. timer_slave u \<noteq> timer_slave t) (timers (modbusmq_slave_update c tid ans))
       = filter (\<lambda>u. timer_slave u \<noteq> timer_slave t) (timers c)"
proof -
  note tin = timer_find_Some(1) [OF t]
  have key: "backoff_key u = backoff_key t" if "u \<in> set (timers c)" "timer_slave u = timer_slave t" for u
    using wf_backoffD(2) [OF wf tin] that by blast
  have bounds: "backoff_bounds (retry_max c) t" by (rule wf_backoffD(1) [OF wf tin])
  have nm: "unat (word_of_int (uint (misses t) + 1) :: byte) = unat (misses t) + 1"
    if "\<not> unresponsive t"
  proof -
    have "uint (misses t) < 3" using that bounds by (simp add: backoff_bounds_def)
    then have "unat (misses t) < 3" using int_unat [of "misses t"] by linarith
    then show ?thesis by (simp add: unat_word_ariths)
  qed
  have un: "uint (misses t) + 1 < 3 \<longleftrightarrow> unat (misses t) + 1 < 3"
    using int_unat [of "misses t"] by linarith
  have lift: "\<exists>f. timers (modbusmq_slave_update c tid ans) = map f (timers c)
      \<and> (\<forall>u. timer_slave (f u) = timer_slave u) \<and> (\<forall>u. timer_slave u \<noteq> timer_slave t \<longrightarrow> f u = u)
      \<and> (\<forall>u \<in> set (timers c). timer_slave u = timer_slave t \<longrightarrow>
            backoff_of (f u) = backoff_step (retry_max c) ans (backoff_of u))"
    using t
  proof (cases rule: slave_update_cases [where ans = ans])
    case answered
    then show ?thesis
      by (intro exI [of _ "set_backoff (timer_slave t) 0 False 0 (clock c (ticks c))"])
         (simp add: backoff_of_def backoff_step_def)
  next
    case off
    then show ?thesis by (intro exI [of _ "\<lambda>u. u"]) (simp add: backoff_step_def)
  next
    case miss
    show ?thesis
      unfolding miss(5)
      by (rule exI [of _ "set_misses (timer_slave t) (uint (misses t) + 1)"])
         (use miss(1-4) key nm un in \<open>auto simp: backoff_of_def backoff_step_def backoff_key_def\<close>)
  next
    case lost
    show ?thesis
      unfolding lost(5)
      by (rule exI [of _ "set_backoff (timer_slave t) (uint (misses t) + 1) True
            (min 1000 (word_of_int (retry_max c))) (clock c (ticks c))"])
         (use lost(1-4) key un cap in
           \<open>auto simp: backoff_of_def backoff_step_def backoff_key_def unat_min unat_int_cap\<close>)
  next
    case probe
    have "uint (retry_ms t) \<le> retry_max c" using bounds probe(3) by (simp add: backoff_bounds_def)
    note dbl = unat_double [OF this cap]
    show ?thesis
      unfolding probe(4)
      by (rule exI [of _ "set_backoff (timer_slave t) (uint (misses t)) True
            (min (retry_ms t * 2) (word_of_int (retry_max c))) (clock c (ticks c))"])
         (use probe(1-3) key cap dbl in
           \<open>auto simp: backoff_of_def backoff_step_def backoff_key_def unat_min unat_int_cap\<close>)
  qed
  then obtain f where f: "timers (modbusmq_slave_update c tid ans) = map f (timers c)"
    "\<And>u. timer_slave (f u) = timer_slave u" "\<And>u. timer_slave u \<noteq> timer_slave t \<Longrightarrow> f u = u"
    "\<And>u. u \<in> set (timers c) \<Longrightarrow> timer_slave u = timer_slave t \<Longrightarrow>
        backoff_of (f u) = backoff_step (retry_max c) ans (backoff_of u)" by blast
  show "map backoff_of (filter (\<lambda>u. timer_slave u = timer_slave t) (timers (modbusmq_slave_update c tid ans)))
       = map (backoff_step (retry_max c) ans \<circ> backoff_of)
           (filter (\<lambda>u. timer_slave u = timer_slave t) (timers c))"
    unfolding f(1) using f(2,4) by (simp add: filter_map o_def)
  show "filter (\<lambda>u. timer_slave u \<noteq> timer_slave t) (timers (modbusmq_slave_update c tid ans))
       = filter (\<lambda>u. timer_slave u \<noteq> timer_slave t) (timers c)"
    unfolding f(1) using f(2) by (simp add: filter_map o_def) (rule map_idI, simp add: f(3))
qed

section \<open>The invariant\<close>

lemma wf_backoff_map:
  assumes wf: "wf_backoff m ts" and t: "t \<in> set ts"
    and slave: "\<And>u. timer_slave (f u) = timer_slave u"
    and other: "\<And>u. timer_slave u \<noteq> timer_slave t \<Longrightarrow> f u = u"
    and own: "\<And>u. timer_slave u = timer_slave t \<Longrightarrow> backoff_key u = backoff_key t \<Longrightarrow>
                backoff_key (f u) = k \<and> backoff_bounds m (f u)"
  shows "wf_backoff m (map f ts)"
proof -
  have own': "backoff_key (f u) = k \<and> backoff_bounds m (f u)"
    if "u \<in> set ts" "timer_slave u = timer_slave t" for u
    using own [OF that(2)] wf_backoffD(2) [OF wf t that] by blast
  show ?thesis unfolding wf_backoff_def
  proof (intro conjI ballI impI)
    fix x assume "x \<in> set (map f ts)"
    then obtain u where u: "x = f u" "u \<in> set ts" by auto
    show "backoff_bounds m x"
      using own' [OF u(2)] other [of u] wf_backoffD(1) [OF wf u(2)] unfolding u(1)
      by (cases "timer_slave u = timer_slave t") simp_all
  next
    fix x y assume "x \<in> set (map f ts)" "y \<in> set (map f ts)" and eq: "timer_slave x = timer_slave y"
    then obtain u v where u: "x = f u" "u \<in> set ts" and v: "y = f v" "v \<in> set ts" by auto
    have s: "timer_slave u = timer_slave v" using eq slave u v by simp
    show "backoff_key x = backoff_key y"
    proof (cases "timer_slave u = timer_slave t")
      case True
      then show ?thesis using own' [OF u(2)] own' [OF v(2)] s u v by simp
    next
      case False
      then show ?thesis using other [of u] other [of v] s u v wf_backoffD(2) [OF wf v(2) u(2)] by simp
    qed
  qed
qed

lemma slave_update_wf:
  assumes wf: "wf_backoff (retry_max c) (timers c)" and cap: "retry_max c < 2 ^ 31"
  shows "wf_backoff (retry_max c) (timers (modbusmq_slave_update c tid ans))"
proof (cases "modbusmq_timer_find c tid")
  case None
  then show ?thesis using wf by (simp add: slave_update_unknown)
next
  case (Some t)
  note tin = timer_find_Some(1) [OF Some]
  have bounds: "backoff_bounds (retry_max c) t" by (rule wf_backoffD(1) [OF wf tin])
  note m = wf_backoff_map [OF wf tin]
  have cap': "uint (word_of_int (retry_max c) :: u32) = retry_max c" if "0 < retry_max c"
    using that cap by (simp add: uint_word_of_int)
  from Some show ?thesis
  proof (cases rule: slave_update_cases [where ans = ans])
    case answered
    show ?thesis unfolding answered(2)
      by (simp, rule m) (auto simp: backoff_key_def backoff_bounds_def)
  next
    case off
    then show ?thesis using wf by simp
  next
    case miss
    have le: "uint (word_of_int (uint (misses t) + 1) :: byte) < 3"
      by (subst byte_of_int) (use miss(4) in simp_all)
    show ?thesis unfolding miss(5)
      by (simp, rule m) (use le miss(3) in \<open>auto simp: backoff_key_def backoff_bounds_def simp del: of_int_add\<close>)
  next
    case lost
    have "0 < min 1000 (word_of_int (retry_max c) :: u32)
        \<and> uint (min 1000 (word_of_int (retry_max c) :: u32)) \<le> retry_max c"
      using lost(2) cap' by (auto simp: min_def word_less_def word_le_def)
    then show ?thesis unfolding lost(5)
      by (simp, intro m) (auto simp: backoff_key_def backoff_bounds_def)
  next
    case probe
    have r: "0 < retry_ms t" "uint (retry_ms t) \<le> retry_max c"
      using bounds probe(3) by (simp_all add: backoff_bounds_def)
    have "0 < unat (retry_ms t)" using r(1) by (simp add: word_less_nat_alt)
    then have "0 < retry_ms t * 2" using unat_double [OF r(2) cap] by (simp add: word_less_nat_alt)
    then have "0 < min (retry_ms t * 2) (word_of_int (retry_max c))
        \<and> uint (min (retry_ms t * 2) (word_of_int (retry_max c) :: u32)) \<le> retry_max c"
      using probe(2) cap' by (auto simp: min_def word_less_def word_le_def)
    then show ?thesis unfolding probe(4)
      by (simp, intro m) (auto simp: backoff_key_def backoff_bounds_def)
  qed
qed

lemma slave_update_config [simp]:
  "config (modbusmq_slave_update c tid ans) = config c"
  "retry_max (modbusmq_slave_update c tid ans) = retry_max c"
  using slave_update_frame [of c tid ans] by (auto simp: retry_max_def)

lemma find_map_same:
  assumes "\<And>t. timer_id (f t) = timer_id t"
  shows "find (\<lambda>t. timer_id t = n) (map f ts) = map_option f (find (\<lambda>t. timer_id t = n) ts)"
  by (induction ts) (simp_all add: assms)

lemma slave_update_find:
  assumes "modbusmq_timer_find c n = Some t"
  shows "\<exists>t'. modbusmq_timer_find (modbusmq_slave_update c tid ans) n = Some t' \<and> same_poll t t'"
proof -
  obtain f m where f: "modbusmq_slave_update c tid ans = c\<lparr>ticks := m, timers := map f (timers c)\<rparr>"
    "\<And>t. same_poll t (f t)"
    using slave_update_frame [of c tid ans] by blast
  have "timer_id (f t) = timer_id t" for t using f(2) [of t] by (simp add: same_poll_def)
  then have "modbusmq_timer_find (modbusmq_slave_update c tid ans) n = Some (f t)"
    using assms unfolding f(1) modbusmq_timer_find_def by (simp add: find_map_same)
  then show ?thesis using f(2) by blast
qed

section \<open>An outage from its first timeout on\<close>

fun timeouts :: "nat \<Rightarrow> int \<Rightarrow> modbusmq_context_t \<Rightarrow> modbusmq_context_t" where
  "timeouts 0 tid c = c"
| "timeouts (Suc n) tid c = modbusmq_slave_update (timeouts n tid c) tid False"

lemma timeouts_inv:
  assumes "wf_backoff (retry_max c) (timers c)" and "retry_max c < 2 ^ 31"
    and "modbusmq_timer_find c tid = Some t"
  shows "wf_backoff (retry_max c) (timers (timeouts n tid c))" "retry_max (timeouts n tid c) = retry_max c"
    "\<exists>t'. modbusmq_timer_find (timeouts n tid c) tid = Some t' \<and> timer_slave t' = timer_slave t"
proof (induction n)
  case (Suc n)
  { case 1 show ?case using slave_update_wf [of "timeouts n tid c"] Suc assms(2) by simp }
  { case 2 show ?case using Suc by simp }
  { case 3 show ?case using Suc(3) slave_update_find [of "timeouts n tid c" tid _ tid False]
      by (auto simp: same_poll_def) }
qed (use assms in simp_all)

lemma timeouts_refines:
  assumes wf: "wf_backoff (retry_max c) (timers c)" and cap: "retry_max c < 2 ^ 31"
    and t: "modbusmq_timer_find c tid = Some t" and on: "0 < retry_max c"
  shows "map backoff_of (filter (\<lambda>u. timer_slave u = timer_slave t) (timers (timeouts n tid c)))
       = map ((timeout_step (nat (retry_max c)) ^^ n) \<circ> backoff_of)
           (filter (\<lambda>u. timer_slave u = timer_slave t) (timers c))"
proof (induction n)
  case (Suc n)
  note inv = timeouts_inv [OF wf cap t, of n]
  obtain t' where t': "modbusmq_timer_find (timeouts n tid c) tid = Some t'"
    "timer_slave t' = timer_slave t" using inv(3) by blast
  have "map backoff_of (filter (\<lambda>u. timer_slave u = timer_slave t) (timers (timeouts (Suc n) tid c)))
      = map (timeout_step (nat (retry_max c)))
          (map backoff_of (filter (\<lambda>u. timer_slave u = timer_slave t) (timers (timeouts n tid c))))"
    using slave_update_refines(1) [of "timeouts n tid c" tid t' False] inv(1,2) t' cap on
    by (simp add: backoff_step_def o_def)
  then show ?case unfolding Suc by (simp add: o_def)
qed simp

lemma timeout_steps:
  assumes "0 < m"
  shows "(timeout_step m ^^ n) (Listening 0)
       = (if n < 3 then Listening n else Probing (min (1000 * 2 ^ (n - 3)) m))"
proof (induction n)
  case (Suc n)
  show ?case
  proof (cases "n < 3")
    case True
    then have "n = 0 \<or> n = 1 \<or> n = 2" by linarith
    then show ?thesis using Suc by auto
  next
    case False
    then have "(1000 :: nat) * 2 ^ (Suc n - 3) = 2 * (1000 * 2 ^ (n - 3))"
      using Suc_diff_le [of 3 n] by simp
    with Suc False show ?thesis by simp
  qed
qed simp

section \<open>The gate\<close>

lemma slave_gate_set:
  assumes "modbusmq_slave_gate ts t now = (ok, ts')" and "unresponsive t" and "ok"
  shows "ts' = map (\<lambda>u. if timer_slave u = timer_slave t then u\<lparr>retry_at := now + ucast (retry_ms t)\<rparr> else u) ts"
    and "retry_at t \<le> now"
  using assms by (auto simp: modbusmq_slave_gate_def split: if_splits)

lemma slave_gate_wf:
  assumes "wf_backoff m ts" and "t \<in> set ts" and "modbusmq_slave_gate ts t now = (ok, ts')"
  shows "wf_backoff m ts'"
proof (cases "ts' = ts")
  case False
  then have ts': "ts' = map (\<lambda>u. if timer_slave u = timer_slave t
      then u\<lparr>retry_at := now + ucast (retry_ms t)\<rparr> else u) ts"
    using assms(3) by (auto simp: modbusmq_slave_gate_def split: if_splits)
  have b: "backoff_bounds m t" by (rule wf_backoffD(1) [OF assms(1,2)])
  show ?thesis unfolding ts'
    by (rule wf_backoff_map [OF assms(1,2), where k = "(misses t, unresponsive t, retry_ms t, now + ucast (retry_ms t))"])
       (use b in \<open>auto simp: backoff_key_def backoff_bounds_def\<close>)
qed (use assms in simp)

lemma unat_add_nowrap:
  assumes "unat (a :: 64 word) + unat b < 2 ^ 64"
  shows "unat (a + b) = unat a + unat b"
  using assms by (simp add: unat_word_ariths)

lemma unat_ucast_u32 [simp]: "unat (ucast (r :: u32) :: 64 word) = unat r"
proof -
  have "unat r < 2 ^ 32" using unsigned_less [of r] by simp
  then have "unat r < 2 ^ 64" by simp
  then show ?thesis by (simp add: unsigned_ucast_eq take_bit_nat_eq_self)
qed

text \<open>
  A probe that the gate lets through closes it for every timer of the slave until the
  interval is over.
\<close>

lemma slave_gate_closes:
  assumes gate: "modbusmq_slave_gate ts t now = (True, ts')" and un: "unresponsive t"
    and wf: "wf_backoff m ts" "t \<in> set ts"
    and nowrap: "unat now + unat (retry_ms t) < 2 ^ 64"
    and u: "u \<in> set ts'" "timer_slave u = timer_slave t"
    and later: "unat now' < unat now + unat (retry_ms t)"
  shows "fst (modbusmq_slave_gate ts' u now') = False"
proof -
  obtain v where v: "v \<in> set ts" "timer_slave v = timer_slave t"
    "u = v\<lparr>retry_at := now + ucast (retry_ms t)\<rparr>"
    using u slave_gate_set(1) [OF gate un TrueI] by (auto split: if_splits)
  have "unresponsive u" using wf_backoffD(2) [OF wf v(1,2)] un v(3) by (simp add: backoff_key_def)
  moreover have "now' < retry_at u"
    using later nowrap v(3) by (simp add: word_less_nat_alt unat_add_nowrap)
  ultimately show ?thesis by (simp add: modbusmq_slave_gate_def)
qed

section \<open>The quiet gap\<close>

definition gap_ms :: "modbusmq_context_t \<Rightarrow> int" where
  "gap_ms c = (case config c of Some cfg \<Rightarrow> frame_delay_ms cfg | None \<Rightarrow> 0)"

lemma frame_delay_left_eq:
  assumes "gap_ms c < 2 ^ 31" and "unat (last_read_ms c) + nat (gap_ms c) < 2 ^ 64"
  shows "unat (modbusmq_frame_delay_left c now) = unat (last_read_ms c) + nat (gap_ms c) - unat now
       \<or> (gap_ms c \<le> 0 \<and> modbusmq_frame_delay_left c now = 0)"
proof (cases "gap_ms c \<le> 0")
  case False
  have "uint (word_of_int (gap_ms c) :: 64 word) = gap_ms c"
    using False assms(1) by (simp add: uint_word_of_int)
  then have g: "unat (word_of_int (gap_ms c) :: 64 word) = nat (gap_ms c)" by (simp flip: nat_uint_eq)
  have sum: "unat (last_read_ms c + word_of_int (gap_ms c)) = unat (last_read_ms c) + nat (gap_ms c)"
    using assms(2) g by (simp add: unat_add_nowrap)
  then show ?thesis using False
    unfolding modbusmq_frame_delay_left_def gap_ms_def [symmetric] Let_def
    by (auto simp: word_le_nat_alt unat_sub)
qed (simp add: modbusmq_frame_delay_left_def flip: gap_ms_def)

end
