(* ===== verification/Loop_Facts.thy ===== *)
theory Loop_Facts
  imports Loop Backoff_Facts
begin

text \<open>
  Correctness of one write/read step, proved once over the transport contract and then taken
  for both transports.
\<close>

section \<open>Accounting\<close>

lemma pending_bytes_nonneg:
  assumes "wf_frame w" and "wf_frame r"
  shows "0 \<le> pending_bytes c w r"
  using wf_frameD [OF assms(1)] wf_frameD [OF assms(2)] by (simp add: pending_bytes_def Let_def)

text \<open>Zero pending bytes are a written request and a response of at least the header.\<close>

lemma pending_bytes_zero:
  assumes "wf_frame w" and "wf_frame r" and "pending_bytes c w r = 0"
  shows "xmit w = flength w" "xmit r = flength r" "res_header_min c \<le> flength r"
  using wf_frameD [OF assms(1)] wf_frameD [OF assms(2)] assms(3)
  by (auto simp: pending_bytes_def Let_def split: if_splits)

lemma wf_put_frame:
  assumes "wf_msg m"
  shows "wf_frame f \<Longrightarrow> is_writer f \<Longrightarrow> wf_msg (m\<lparr>frame0 := f\<rparr>)"
    and "wf_frame f \<Longrightarrow> \<not> is_writer f \<Longrightarrow> wf_msg (m\<lparr>frame1 := f\<rparr>)"
  using assms by (simp_all add: wf_msg_def paired_def)

lemma fresh_reader_simps [simp]:
  "\<not> is_writer (fresh_reader c)" "flength (fresh_reader c) = header_length c" "xmit (fresh_reader c) = 0"
  "received (fresh_reader c) = []"
  by (simp_all add: fresh_reader_def received_def)

section \<open>Writing\<close>

lemma sys_write_effect:
  assumes "sys_write bs c = (rc, c')"
  shows "c' = c\<lparr>line_out := line_out c @ take (nat rc) bs\<rparr>" "rc \<le> int (length bs)"
    "rc = -1 \<or> 0 \<le> rc"
proof -
  have "c = c\<lparr>line_out := line_out c\<rparr>" by simp
  then show "c' = c\<lparr>line_out := line_out c @ take (nat rc) bs\<rparr>" "rc \<le> int (length bs)"
    "rc = -1 \<or> 0 \<le> rc"
    using assms by (auto simp: sys_write_def Let_def min_def split: if_splits)
qed

text \<open>A write puts the next bytes of the frame on the wire and counts them.\<close>

lemma write_effect:
  assumes wf: "wf_frame f" and wr: "modbusmq_write c f = (rc, c', f')"
  shows "f' = (if rc < 0 then f else f\<lparr>xmit := xmit f + rc\<rparr>)"
    and "c' = c\<lparr>line_out := line_out c @ take (nat rc) (drop (nat (xmit f)) (wire f))\<rparr>"
    and "wf_frame f'" "rc \<le> flength f - xmit f" "is_writer f' = is_writer f" "flength f' = flength f"
proof -
  note w = wf_frameD [OF wf]
  let ?bs = "take (nat (flength f - xmit f)) (drop (nat (xmit f)) (fbuf f))"
  have bs: "?bs = drop (nat (xmit f)) (wire f)"
    using w by (simp add: wire_def drop_take nat_diff_distrib)
  have len: "int (length ?bs) = flength f - xmit f" using w by auto
  obtain rc1 c1 where s: "sys_write ?bs c = (rc1, c1)" by (cases "sys_write ?bs c")
  note sh = sys_write_effect [OF s]
  have e: "rc = rc1 \<and> c' = c1 \<and> f' = (if rc1 < 0 then f else f\<lparr>xmit := xmit f + rc1\<rparr>)"
    using wr by (auto simp: modbusmq_write_def modbusmq_tcp_write_def modbusmq_rtu_write_def s Let_def
        split: transport.splits if_splits)
  show f': "f' = (if rc < 0 then f else f\<lparr>xmit := xmit f + rc\<rparr>)" using e by simp
  show "c' = c\<lparr>line_out := line_out c @ take (nat rc) (drop (nat (xmit f)) (wire f))\<rparr>"
    using e sh(1) bs by simp
  show le: "rc \<le> flength f - xmit f" using e sh(2) len by simp
  show "wf_frame f'" using w le unfolding f' by (simp add: wf_frame_def MODBUSMQ_FRAME_MAX_def)
  show "is_writer f' = is_writer f" "flength f' = flength f" unfolding f' by simp_all
qed

section \<open>The loop over the contract\<close>

definition same_link :: "modbusmq_context_t \<Rightarrow> modbusmq_context_t \<Rightarrow> bool" where
  "same_link c c' \<longleftrightarrow> link c' = link c \<and> header_length c' = header_length c
     \<and> req_header_min c' = req_header_min c \<and> res_header_min c' = res_header_min c
     \<and> msg_queue c' = msg_queue c \<and> timers c' = timers c \<and> config c' = config c
     \<and> events c' = events c"

lemma same_link_simps [simp]:
  "same_link c c" "same_link c (c\<lparr>ticks := t\<rparr>)" "same_link c (c\<lparr>last_write_ms := m\<rparr>)"
  "same_link c (c\<lparr>last_read_ms := m\<rparr>)" "same_link c (c\<lparr>err := e\<rparr>)"
  "same_link c (c\<lparr>resync_pending := b\<rparr>)" "same_link c (c\<lparr>line_out := l\<rparr>)"
  by (simp_all add: same_link_def)

lemma same_link_trans: "same_link a b \<Longrightarrow> same_link b c \<Longrightarrow> same_link a c"
  by (simp add: same_link_def)

lemma same_link_line: "line_only c c' \<Longrightarrow> same_link c c'"
  by (simp add: same_link_def keeps)

lemma same_link_flush: "same_link c (snd (modbusmq_flush c))"
  by (rule same_link_line [OF flush_line_only])

lemma same_link_resync: "same_link c (modbusmq_resync c)"
  unfolding modbusmq_resync_def by (rule same_link_trans [OF _ same_link_flush]) simp

lemma resync_line_out [simp]: "line_out (modbusmq_resync c) = line_out c"
  unfolding modbusmq_resync_def
  using line_only_fields [OF flush_line_only, of "c\<lparr>resync_pending := False\<rparr>"] by simp

text \<open>
  Writing: the quiet gap still runs, the descriptor fails, or some bytes of the request go out.
\<close>

lemma write_step_cases:
  assumes wf: "wf_msg m" and step: "write_step c m 0 1 = (rc, c', m')"
  obtains
    (gap) "xmit (frame0 m) = 0" "0 < modbusmq_frame_delay_left c (clock c (ticks c))"
      "rc = 0" "c' = c\<lparr>ticks := Suc (ticks c)\<rparr>" "m' = m"
  | (failed) "rc = -1" "same_link c c'" "line_out c' = line_out c" "m' = m"
  | (wrote) n c4 w where "0 \<le> n" "n \<le> flength (frame0 m) - xmit (frame0 m)" "same_link c c4"
      "w = (frame0 m)\<lparr>xmit := xmit (frame0 m) + n\<rparr>" "wf_frame w"
      "line_out c4 = line_out c @ take (nat n) (drop (nat (xmit (frame0 m))) (wire (frame0 m)))"
      "(rc, c', m') =
        (if flength w = xmit w then
           (if modbusmq_msg_broadcast c4 (m\<lparr>frame0 := w\<rparr>) then (0, c4, m\<lparr>frame0 := w\<rparr>)
            else if n \<noteq> 0 then (n, c4, m\<lparr>frame0 := w, frame1 := fresh_reader c4\<rparr>)
            else pending c4 (m\<lparr>frame0 := w, frame1 := fresh_reader c4\<rparr>) 0 1)
         else if n \<noteq> 0 then (n, c4, m\<lparr>frame0 := w\<rparr>) else pending c4 (m\<lparr>frame0 := w\<rparr>) 0 1)"
proof -
  let ?start = "xmit (frame0 m) = 0"
  let ?gap = "?start \<and> 0 < modbusmq_frame_delay_left c (clock c (ticks c))"
  define c1 where "c1 = (if ?start then c\<lparr>ticks := Suc (ticks c)\<rparr> else c)"
  define c2 where "c2 = (if resync_pending c1 \<and> ?start then modbusmq_resync c1 else c1)"
  define c3 where "c3 = c2\<lparr>ticks := Suc (ticks c2), last_write_ms := clock c2 (ticks c2)\<rparr>"
  obtain n c4 w where w: "modbusmq_write c3 (frame0 m) = (n, c4, w)"
    by (cases "modbusmq_write c3 (frame0 m)")
  note we = write_effect [OF wf_msgD(2) [OF wf] w]
  have dl: "modbusmq_frame_delay_left (c\<lparr>ticks := t\<rparr>) x = modbusmq_frame_delay_left c x" for t x
    by (simp add: modbusmq_frame_delay_left_def Let_def)
  let ?m = "m\<lparr>frame0 := w\<rparr>" and ?mf = "m\<lparr>frame0 := w, frame1 := fresh_reader c4\<rparr>"
  have eq: "write_step c m 0 1 =
    (if ?gap then (0, c\<lparr>ticks := Suc (ticks c)\<rparr>, m)
     else if n < 0 then (-1, c4\<lparr>err := err c4 + 1\<rparr>, ?m)
     else if flength w = xmit w then
       (if modbusmq_msg_broadcast c4 ?m then (0, c4, ?m)
        else if n \<noteq> 0 then (n, c4, ?mf) else pending c4 ?mf 0 1)
     else if n \<noteq> 0 then (n, c4, ?m) else pending c4 ?m 0 1)"
  proof (cases ?start)
    case True
    then show ?thesis
      using w by (cases "resync_pending c")
        (simp_all add: write_step_def millitime_def dl c1_def c2_def c3_def Let_def)
  next
    case False
    then show ?thesis
      using w by (simp add: write_step_def millitime_def c1_def c2_def c3_def Let_def)
  qed
  have s2: "same_link c c2" by (simp add: c2_def c1_def same_link_trans [OF _ same_link_resync])
  have s3: "same_link c2 c3" by (simp add: c3_def same_link_def)
  have sl: "same_link c c4" by (rule same_link_trans [OF s2 same_link_trans [OF s3]]) (simp add: we(2))
  have lo: "line_out c3 = line_out c" by (simp add: c3_def c2_def c1_def)
  consider "?gap" | "\<not> ?gap" "n < 0" | "\<not> ?gap" "0 \<le> n" by linarith
  then show thesis
  proof cases
    case 1
    with step [unfolded eq] show thesis by (intro gap) simp_all
  next
    case 2
    have "same_link c4 (c4\<lparr>err := err c4 + 1\<rparr>)" by simp
    then show thesis
      using 2 step [unfolded eq] we(1,2) lo same_link_trans [OF sl] by (intro failed) auto
  next
    case 3
    then show thesis
      using step [unfolded eq] we(1-4) lo sl by (intro wrote [of n c4 w]) auto
  qed
qed

text \<open>The four ends of a frame that does not match the request.\<close>

lemma mismatch_cases:
  assumes "mismatch_step c m 0 1 = (rc, c', m')" and "modbusmq_frame_drain c (frame1 m) = (drc, r)"
  obtains
    (refusal) "cb_msg_exception (cb c) m > 0" "rc = MODBUSMQ_ERR_EXCEPTION" "c' = c" "m' = m"
  | (stale) "drc > 0" "pending c (m\<lparr>frame1 := fresh_reader c\<rparr>) 0 1 = (rc, c', m')"
  | (part) "drc = 0" "pending c (m\<lparr>frame1 := r\<rparr>) 0 1 = (rc, c', m')"
  | (garbage) "drc < 0" "rc = MODBUSMQ_ERR_PROTOCOL" "same_link c c'" "resync_pending c'"
      "m' = m\<lparr>frame1 := fresh_reader c'\<rparr>"
proof -
  let ?c = "c\<lparr>err := err c + 1\<rparr>"
  have sl: "same_link c ((snd (modbusmq_flush ?c))\<lparr>resync_pending := True\<rparr>)"
    by (rule same_link_trans [of _ ?c, OF _ same_link_trans [OF same_link_flush]]) simp_all
  have eq: "mismatch_step c m 0 1 =
     (if cb_msg_exception (cb c) m > 0 then (MODBUSMQ_ERR_EXCEPTION, c, m)
      else if drc > 0 then pending c (m\<lparr>frame1 := fresh_reader c\<rparr>) 0 1
      else if drc = 0 then pending c (m\<lparr>frame1 := r\<rparr>) 0 1
      else (MODBUSMQ_ERR_PROTOCOL, (snd (modbusmq_flush ?c))\<lparr>resync_pending := True\<rparr>,
            m\<lparr>frame1 := fresh_reader ((snd (modbusmq_flush ?c))\<lparr>resync_pending := True\<rparr>)\<rparr>))"
    using assms(2) by (simp add: mismatch_step_def Let_def)
  consider "cb_msg_exception (cb c) m > 0"
    | "\<not> cb_msg_exception (cb c) m > 0" "drc > 0"
    | "\<not> cb_msg_exception (cb c) m > 0" "drc = 0"
    | "\<not> cb_msg_exception (cb c) m > 0" "drc < 0" by linarith
  then show thesis
  proof cases
    case 1 with assms(1) [unfolded eq] show thesis by (intro refusal) simp_all
  next
    case 2 with assms(1) [unfolded eq] show thesis by (intro stale) simp_all
  next
    case 3 with assms(1) [unfolded eq] show thesis by (intro part) simp_all
  next
    case 4 with assms(1) [unfolded eq] sl show thesis by (intro garbage) auto
  qed
qed

text \<open>Reading, spelled out: the bytes first, then the match against the request.\<close>

lemma read_step_eq:
  assumes "modbusmq_read (c\<lparr>ticks := Suc (ticks c), last_read_ms := clock c (ticks c)\<rparr>) (frame1 m) = (n, c1, r)"
    and "modbusmq_check_header c1 (m\<lparr>frame1 := r\<rparr>) = (h, m2)"
  shows "read_step c m 0 1 =
    (if n < 0 then (MODBUSMQ_ERR_TRANSPORT, c1\<lparr>err := err c1 + 1\<rparr>, m\<lparr>frame1 := r\<rparr>)
     else if h < 0 then mismatch_step c1 m2 0 1
     else if xmit (frame1 m2) = flength (frame1 m2) then pending c1 m2 0 1
     else if n \<noteq> 0 then (n, c1, m2) else pending c1 m2 0 1)"
  using assms by (simp add: read_step_def millitime_def Let_def)

lemma read_entry:
  assumes "wf_msg m" and "xmit (frame0 m) = flength (frame0 m)" and "req_header_min c \<le> flength (frame0 m)"
    and "0 < flength (frame1 m)" and "xmit (frame1 m) < flength (frame1 m)"
  shows "modbusmq_handle_write_read c m POLLIN = read_step c m 0 1"
proof -
  note p = wf_msgD(1) [OF assms(1)]
  have "modbusmq_frame_incomplete c (frame0 m) = 0" "modbusmq_frame_incomplete c (frame1 m) \<noteq> 0"
    using assms p by (simp_all add: modbusmq_frame_incomplete_def paired_def)
  moreover have "has_event 1 1" by (simp add: has_event_def)
  ultimately show ?thesis using p by (simp add: modbusmq_handle_write_read_def Let_def)
qed

text \<open>
  \<open>in_flight\<close> is what the loop keeps of the message it works on: two frames inside their
  buffers, and once the request is out a reader the transport can work with.
\<close>

locale event_loop = transport ops modbusmq_read ok window
  for ops :: modbusmq_cb_t and ok :: "modbusmq_context_t \<Rightarrow> bool"
    and window :: "modbusmq_frame_t \<Rightarrow> bool" +
  assumes cb_ops: "ok c \<Longrightarrow> cb c = ops"
begin

definition in_flight :: "modbusmq_msg_t \<Rightarrow> bool" where
  "in_flight m \<longleftrightarrow> wf_msg m \<and> (xmit (frame0 m) = flength (frame0 m) \<longrightarrow> window (frame1 m))"

lemma ok_same: "same_link c c' \<Longrightarrow> ok c \<Longrightarrow> ok c'"
  by (rule ok_cong) (simp_all add: same_link_def)

lemma fresh_window:
  assumes "ok c"
  shows "wf_frame (fresh_reader c)" "window (fresh_reader c)"
  using fresh_reader [OF assms] by (simp_all add: fresh_reader_def)

lemma in_flight_fresh:
  assumes "ok c" and "wf_msg m"
  shows "in_flight (m\<lparr>frame1 := fresh_reader c\<rparr>)"
  using assms fresh_window [OF assms(1)] wf_put_frame(2) [OF assms(2)] by (simp add: in_flight_def)

text \<open>Nothing is pending exactly when the exchange is over.\<close>

definition exchange_over :: "modbusmq_context_t \<Rightarrow> modbusmq_msg_t \<Rightarrow> bool" where
  "exchange_over c m \<longleftrightarrow> xmit (frame0 m) = flength (frame0 m)
     \<and> xmit (frame1 m) = flength (frame1 m) \<and> res_header_min c \<le> flength (frame1 m)"

lemma pending_inv:
  assumes "ok c" and "in_flight m" and "pending c m 0 1 = (rc, c', m')"
  shows "c' = c" "m' = m" "0 \<le> rc" "rc = 0 \<longrightarrow> exchange_over c m"
  using assms(3) wf_msgD [of m] assms(2) pending_bytes_nonneg [of "frame0 m" "frame1 m" c]
    pending_bytes_zero [of "frame0 m" "frame1 m" c]
  by (auto simp: pending_def in_flight_def exchange_over_def)

lemma mismatch_inv:
  assumes ok: "ok c" and p: "paired m" "wf_frame (frame0 m)"
    and out: "xmit (frame0 m) = flength (frame0 m)"
    and own: "\<And>drc r. cb_frame_drain ops c (frame1 m) = (drc, r) \<Longrightarrow> 0 \<le> drc \<Longrightarrow> in_flight m"
    and step: "mismatch_step c m 0 1 = (rc, c', m')"
  shows "same_link c c'" "rc \<noteq> MODBUSMQ_ERR_EXCEPTION \<longrightarrow> in_flight m'"
    "rc \<noteq> 0" "rc \<noteq> MODBUSMQ_ERR_TRANSPORT"
proof -
  obtain drc r where d: "modbusmq_frame_drain c (frame1 m) = (drc, r)"
    by (cases "modbusmq_frame_drain c (frame1 m)")
  have d': "cb_frame_drain ops c (frame1 m) = (drc, r)"
    using d cb_ops [OF ok] by (simp add: modbusmq_frame_drain_def)
  have renew: "in_flight (m\<lparr>frame1 := fresh_reader x\<rparr>)" if "ok x" for x
    using fresh_window [OF that] p by (simp add: in_flight_def wf_msg_def paired_def)
  have fresh0: "\<not> exchange_over c (m\<lparr>frame1 := fresh_reader c\<rparr>)"
    using fresh [OF ok] by (simp add: exchange_over_def)
  have partial: "in_flight (m\<lparr>frame1 := r\<rparr>) \<and> \<not> exchange_over c (m\<lparr>frame1 := r\<rparr>)" if "drc = 0"
  proof -
    have wf: "wf_msg m" and win: "window (frame1 m)"
      using own [OF d'] that out by (simp_all add: in_flight_def)
    note dw = drain_wf [OF wf_msgD(3) [OF wf] d']
    have "\<not> is_writer r" using dw(4) p(1) by (simp add: paired_def)
    then show ?thesis
      using wf_put_frame(2) [OF wf dw(1)] drain_window [OF ok win d'] drain_more [OF ok win d' [unfolded that]]
      by (simp add: in_flight_def exchange_over_def)
  qed
  have "same_link c c' \<and> (rc \<noteq> MODBUSMQ_ERR_EXCEPTION \<longrightarrow> in_flight m')
      \<and> rc \<noteq> 0 \<and> rc \<noteq> MODBUSMQ_ERR_TRANSPORT"
    using step d
  proof (cases rule: mismatch_cases)
    case stale
    then show ?thesis using pending_inv [OF ok renew [OF ok] stale(2)] fresh0 renew [OF ok] by auto
  next
    case part
    then show ?thesis using pending_inv [OF ok _ part(2)] partial by auto
  next
    case garbage
    then show ?thesis using renew [OF ok_same [OF garbage(3) ok]] by simp
  qed simp
  then show "same_link c c'" "rc \<noteq> MODBUSMQ_ERR_EXCEPTION \<longrightarrow> in_flight m'"
    "rc \<noteq> 0" "rc \<noteq> MODBUSMQ_ERR_TRANSPORT" by blast+
qed

lemma read_inv:
  assumes ok: "ok c" and fl: "in_flight m" and out: "xmit (frame0 m) = flength (frame0 m)"
    and more: "modbusmq_frame_incomplete c (frame1 m) \<noteq> 0"
    and step: "read_step c m 0 1 = (rc, c', m')"
  shows "same_link c c'" "0 \<le> rc \<longrightarrow> in_flight m'" "rc = 0 \<longrightarrow> exchange_over c m'"
proof -
  have wf: "wf_msg m" and win: "window (frame1 m)" using fl out by (simp_all add: in_flight_def)
  let ?c = "c\<lparr>ticks := Suc (ticks c), last_read_ms := clock c (ticks c)\<rparr>"
  have sc: "same_link c ?c" by (simp add: same_link_def)
  note ok1 = ok_same [OF sc ok]
  obtain n c1 r where rd: "modbusmq_read ?c (frame1 m) = (n, c1, r)"
    by (cases "modbusmq_read ?c (frame1 m)")
  have sl: "same_link c c1"
    by (rule same_link_trans [OF sc same_link_line [OF read_line_only [OF rd]]])
  note ok2 = ok_same [OF sl ok]
  have lt: "xmit (frame1 m) < flength (frame1 m)"
    using more window_min [OF ok win] wf_msgD(1) [OF wf] wf_frameD [OF wf_msgD(3) [OF wf]]
    by (auto simp: modbusmq_frame_incomplete_def paired_def split: if_splits)
  have nw: "\<not> is_writer (frame1 m)" using wf_msgD(1) [OF wf] by (simp add: paired_def)
  let ?m = "m\<lparr>frame1 := r\<rparr>"
  obtain hrc m2 where h: "modbusmq_check_header c1 ?m = (hrc, m2)"
    by (cases "modbusmq_check_header c1 ?m")
  have h': "cb_msg_check_header ops c1 ?m = (hrc, m2)"
    using h cb_ops [OF ok2] by (simp add: modbusmq_check_header_def)
  note eq = read_step_eq [OF rd h]
  have "same_link c c' \<and> (0 \<le> rc \<longrightarrow> in_flight m') \<and> (rc = 0 \<longrightarrow> exchange_over c m')"
  proof (cases "n < 0")
    case True
    have "same_link c1 (c1\<lparr>err := err c1 + 1\<rparr>)" by simp
    then show ?thesis using True step [unfolded eq] same_link_trans [OF sl] by auto
  next
    case False
    then have n: "0 \<le> n" by simp
    note law = read_law [OF ok1 wf_msgD(3) [OF wf] nw win lt rd n]
    have rw: "\<not> is_writer r" using law nw by (auto simp: read_effect_def)
    have wf1: "wf_msg ?m" by (rule wf_put_frame(2) [OF wf _ rw]) (use law in blast)
    note hf = header_fields [OF wf_msgD(1) [OF wf1] h']
    show ?thesis
    proof (cases "hrc < 0")
      case True
      have own: "in_flight m2" if "cb_frame_drain ops c1 (frame1 m2) = (drc, f)" "0 \<le> drc" for drc f
        using header_mismatch [OF ok2 wf1 _ h' True that] wf1 law by (simp add: in_flight_def)
      have ms: "mismatch_step c1 m2 0 1 = (rc, c', m')"
        using step [unfolded eq] True n by simp
      have "paired m2" "wf_frame (frame0 m2)" "xmit (frame0 m2) = flength (frame0 m2)"
        using hf wf out by (simp_all add: wf_msg_def)
      note mm = mismatch_inv [OF ok2 this own ms]
      then show ?thesis using same_link_trans [OF sl] by auto
    next
      case False
      then have "in_flight m2"
        using header_window [OF ok2 wf1 _ h'] law by (simp add: in_flight_def)
      note p = pending_inv [OF ok2 this]
      have ex: "exchange_over c1 m2 \<longleftrightarrow> exchange_over c m2"
        using sl by (simp add: exchange_over_def same_link_def)
      show ?thesis
        using False n step [unfolded eq] sl p ex \<open>in_flight m2\<close> by (auto simp: exchange_over_def split: if_splits)
    qed
  qed
  then show "same_link c c'" "0 \<le> rc \<longrightarrow> in_flight m'" "rc = 0 \<longrightarrow> exchange_over c m'" by blast+
qed

lemma write_inv:
  assumes ok: "ok c" and fl: "in_flight m" and step: "write_step c m 0 1 = (rc, c', m')"
  shows "same_link c c'" "0 < rc \<longrightarrow> in_flight m'"
    "rc = 0 \<longrightarrow> m' = m \<and> xmit (frame0 m) = 0
        \<and> 0 < modbusmq_frame_delay_left c (clock c (ticks c))
      \<or> xmit (frame0 m') = flength (frame0 m') \<and> modbusmq_msg_broadcast c' m'"
proof -
  have wf: "wf_msg m" using fl by (simp add: in_flight_def)
  have "same_link c c' \<and> (0 < rc \<longrightarrow> in_flight m') \<and>
      (rc = 0 \<longrightarrow> m' = m \<and> xmit (frame0 m) = 0 \<and> 0 < modbusmq_frame_delay_left c (clock c (ticks c))
        \<or> xmit (frame0 m') = flength (frame0 m') \<and> modbusmq_msg_broadcast c' m')"
  proof (cases rule: write_step_cases [OF wf step, case_names gap failed wrote])
    case (wrote n c4 w)
    have wm: "wf_msg (m\<lparr>frame0 := w\<rparr>)"
      using wf_put_frame(1) [OF wf wrote(5)] wrote(4) wf_msgD(1) [OF wf] by (simp add: paired_def)
    have ok4: "ok c4" by (rule ok_same [OF wrote(3) ok])
    have "in_flight (m\<lparr>frame0 := w, frame1 := fresh_reader c4\<rparr>)" using in_flight_fresh [OF ok4 wm] by simp
    moreover have "0 < pending_bytes c4 w (fresh_reader c4)"
      using fresh [OF ok4] wf_frameD(3) [OF wrote(5)] by (simp add: pending_bytes_def Let_def)
    moreover have part: "in_flight (m\<lparr>frame0 := w\<rparr>) \<and> 0 < pending_bytes c4 w (frame1 m)"
      if "flength w \<noteq> xmit w"
    proof -
      note wfs = wf_msgD(2,3) [OF wm, simplified]
      have "pending_bytes c4 w (frame1 m) \<noteq> 0" using pending_bytes_zero(1) [OF wfs] that by metis
      then show ?thesis
        using that wm pending_bytes_nonneg [OF wfs, of c4] by (simp add: in_flight_def)
    qed
    ultimately show ?thesis
      using wrote(1,3,7) by (auto simp: pending_def split: if_splits)
  qed simp_all
  then show "same_link c c'" "0 < rc \<longrightarrow> in_flight m'"
    "rc = 0 \<longrightarrow> m' = m \<and> xmit (frame0 m) = 0
        \<and> 0 < modbusmq_frame_delay_left c (clock c (ticks c))
      \<or> xmit (frame0 m') = flength (frame0 m') \<and> modbusmq_msg_broadcast c' m'" by blast+
qed

lemma incomplete_writer:
  assumes "wf_msg m" and "modbusmq_frame_incomplete c (frame0 m) = 0"
  shows "xmit (frame0 m) = flength (frame0 m)"
  using assms wf_msgD(1) [OF assms(1)]
  by (simp add: modbusmq_frame_incomplete_def paired_def split: if_splits)

lemma handle_inv:
  assumes ok: "ok c" and fl: "in_flight m" and step: "modbusmq_handle_write_read c m revents = (rc, c', m')"
  shows "same_link c c'" "0 < rc \<longrightarrow> in_flight m'"
    "rc = 0 \<longrightarrow> m' = m \<and> xmit (frame0 m) = 0 \<and> modbusmq_frame_incomplete c (frame0 m) \<noteq> 0
        \<and> has_event revents POLLOUT \<and> 0 < modbusmq_frame_delay_left c (clock c (ticks c))
      \<or> xmit (frame0 m') = flength (frame0 m') \<and> modbusmq_msg_broadcast c' m'
      \<or> exchange_over c m'"
proof -
  have wf: "wf_msg m" using fl by (simp add: in_flight_def)
  note p = wf_msgD(1) [OF wf]
  have eq: "modbusmq_handle_write_read c m revents =
    (if modbusmq_frame_incomplete c (frame0 m) \<noteq> 0 then
       (if has_event revents POLLOUT then write_step c m 0 1 else pending c m 0 1)
     else if modbusmq_frame_incomplete c (frame1 m) \<noteq> 0 then
       (if has_event revents POLLIN then read_step c m 0 1 else pending c m 0 1)
     else (0, c, m))"
    using p by (simp add: modbusmq_handle_write_read_def Let_def)
  have done0: "exchange_over c m"
    if "modbusmq_frame_incomplete c (frame0 m) = 0" "modbusmq_frame_incomplete c (frame1 m) = 0"
    using that incomplete_writer [OF wf that(1)] p fl window_min [OF ok]
    by (auto simp: modbusmq_frame_incomplete_def paired_def exchange_over_def in_flight_def split: if_splits)
  have "same_link c c' \<and> (0 < rc \<longrightarrow> in_flight m') \<and>
    (rc = 0 \<longrightarrow> m' = m \<and> xmit (frame0 m) = 0 \<and> modbusmq_frame_incomplete c (frame0 m) \<noteq> 0
        \<and> has_event revents POLLOUT \<and> 0 < modbusmq_frame_delay_left c (clock c (ticks c))
      \<or> xmit (frame0 m') = flength (frame0 m') \<and> modbusmq_msg_broadcast c' m'
      \<or> exchange_over c m')"
  proof (cases "modbusmq_frame_incomplete c (frame0 m) = 0")
    case True
    note out = incomplete_writer [OF wf True]
    show ?thesis
      using step [unfolded eq] True done0 pending_inv [OF ok fl] fl read_inv [OF ok fl out]
      by (auto split: if_splits)
  next
    case False
    show ?thesis
      using step [unfolded eq] False pending_inv [OF ok fl] fl write_inv [OF ok fl]
      by (auto split: if_splits)
  qed
  then show "same_link c c'" "0 < rc \<longrightarrow> in_flight m'"
    "rc = 0 \<longrightarrow> m' = m \<and> xmit (frame0 m) = 0 \<and> modbusmq_frame_incomplete c (frame0 m) \<noteq> 0
        \<and> has_event revents POLLOUT \<and> 0 < modbusmq_frame_delay_left c (clock c (ticks c))
      \<or> xmit (frame0 m') = flength (frame0 m') \<and> modbusmq_msg_broadcast c' m'
      \<or> exchange_over c m'" by blast+
qed

end

section \<open>Both transports\<close>

interpretation rtu_loop: event_loop modbusmq_rtu_cb rtu_ok rtu_window
  by unfold_locales (auto simp: rtu_ok_def)

interpretation tcp_loop: event_loop modbusmq_tcp_cb tcp_ok tcp_window
  by unfold_locales (auto simp: tcp_ok_def)

end
