(* ===== verification/Assembly.thy ===== *)
theory Assembly
  imports Loop_Facts
begin

text \<open>
  Putting a response together from the pieces in which it arrives. The event loop is entered
  once per \<open>POLLIN\<close>; between two entries any number of bytes may have come in, none included.
  The claim is that the pieces do not matter: what the transport accepts as one frame is
  assembled, byte for byte, from any way of cutting it.
\<close>

section \<open>Arrivals\<close>

text \<open>The loop after each piece has arrived, until it reports something else than waiting.\<close>

fun deliver ::
    "modbusmq_context_t \<Rightarrow> modbusmq_msg_t \<Rightarrow> byte list list \<Rightarrow> int \<times> modbusmq_context_t \<times> modbusmq_msg_t" where
  "deliver c m [] = (1, c, m)"
| "deliver c m (b # bs) =
     (let (rc, c, m) = modbusmq_handle_write_read (c\<lparr>line_in := line_in c @ b\<rparr>) m POLLIN
      in if rc > 0 then deliver c m bs else (rc, c, m))"

text \<open>A reader that holds exactly the bytes \<open>res\<close>.\<close>

definition holding :: "byte list \<Rightarrow> modbusmq_frame_t" where
  "holding res =
     \<lparr>is_writer = False, is_tcp = False, flength = int (length res), xmit = int (length res),
      fbuf = res @ replicate (260 - length res) 0\<rparr>"

lemma holding_simps [simp]:
  "\<not> is_writer (holding res)" "flength (holding res) = int (length res)"
  "xmit (holding res) = int (length res)" "received (holding res) = res" "wire (holding res) = res"
  by (simp_all add: holding_def received_def wire_def)

lemma holding_wf: "length res \<le> 260 \<Longrightarrow> wf_frame (holding res)"
  by (simp add: wf_frame_def holding_def MODBUSMQ_FRAME_MAX_def)

lemma getb_holding: "i < length res \<Longrightarrow> getb (holding res) i = res ! i"
  by (simp add: getb_def holding_def nth_append)

lemma getb_prefix:
  assumes "received f @ xs = res" and "wf_frame f" and "int i < xmit f"
  shows "getb f i = res ! i"
proof -
  have i: "i < nat (xmit f)" using assms(3) by linarith
  then have "i < length (received f)" using wf_frameD [OF assms(2)] by (simp add: received_def)
  then show ?thesis using getb_received [OF i] assms(1) by (metis nth_append)
qed

lemma length_received: "wf_frame f \<Longrightarrow> int (length (received f)) = xmit f"
  using wf_frameD [of f] by (simp add: received_def)

section \<open>The step on a written request\<close>

text \<open>The response has come as far as its bytes go; \<open>read_ahead\<close> is the transport's part of a step.\<close>

definition read_ahead ::
    "modbusmq_context_t \<Rightarrow> modbusmq_msg_t \<Rightarrow> int \<Rightarrow> modbusmq_context_t \<Rightarrow> modbusmq_msg_t \<Rightarrow> bool" where
  "read_ahead c m n c' m' \<longleftrightarrow> 0 \<le> n \<and> read_effect c (frame1 m) n c' (frame1 m')
     \<and> wf_frame (frame1 m') \<and> m' = m\<lparr>frame1 := frame1 m'\<rparr>
     \<and> (\<exists>r h. modbusmq_read c (frame1 m) = (n, c', r)
          \<and> modbusmq_check_header c' (m\<lparr>frame1 := r\<rparr>) = (h, m') \<and> 0 \<le> h)"

lemma handle_read_ahead:
  fixes c :: modbusmq_context_t
  defines "c1 \<equiv> c\<lparr>ticks := Suc (ticks c), last_read_ms := clock c (ticks c)\<rparr>"
  assumes "wf_msg m" and "xmit (frame0 m) = flength (frame0 m)" and "req_header_min c \<le> flength (frame0 m)"
    and "0 < flength (frame1 m)" and "xmit (frame1 m) < flength (frame1 m)"
    and ra: "read_ahead c1 m n c' m'"
  shows "modbusmq_handle_write_read c m 1 =
    (if xmit (frame1 m') \<noteq> flength (frame1 m') \<and> n \<noteq> 0 then n else pending_bytes c' (frame0 m') (frame1 m'),
     c', m')"
proof -
  obtain r h where rd: "modbusmq_read c1 (frame1 m) = (n, c', r)"
    and h: "modbusmq_check_header c' (m\<lparr>frame1 := r\<rparr>) = (h, m')" "0 \<le> h" and n: "0 \<le> n"
    using ra by (auto simp: read_ahead_def)
  have "modbusmq_handle_write_read c m 1 = read_step c m 0 1" by (rule read_entry [OF assms(2-6)])
  also have "\<dots> = (if xmit (frame1 m') \<noteq> flength (frame1 m') \<and> n \<noteq> 0 then n
      else pending_bytes c' (frame0 m') (frame1 m'), c', m')"
    using n h(2) read_step_eq [OF rd [unfolded c1_def] h(1)] by (simp add: pending_def)
  finally show ?thesis .
qed

section \<open>The contract of an assembling transport\<close>

lemma rtu_msg_check_cong:
  assumes "header_length c' = header_length c"
  shows "modbusmq_rtu_msg_check c' m = modbusmq_rtu_msg_check c m"
  unfolding modbusmq_rtu_msg_check_def modbusmq_rtu_msg_check_header_def assms ..

lemma same_link_fields:
  assumes "same_link c c'"
  shows "link c' = link c" "header_length c' = header_length c"
  using assms by (simp_all add: same_link_def)

lemma broadcast_cong:
  assumes "is_writer (frame0 m)" and "frame0 m' = frame0 m"
  shows "modbusmq_rtu_msg_broadcast m' = modbusmq_rtu_msg_broadcast m"
  using assms by (simp add: modbusmq_rtu_msg_broadcast_def writer_ix_def frame_at_def)

lemma check_same_link:
  assumes "same_link c c'"
  shows "modbusmq_check c' m = modbusmq_check c m" "modbusmq_msg_broadcast c' m = modbusmq_msg_broadcast c m"
proof -
  note l = same_link_fields [OF assms]
  show "modbusmq_check c' m = modbusmq_check c m"
    using l rtu_msg_check_cong [OF l(2)]
    by (cases "link c") (simp_all add: modbusmq_check_def cb_def modbusmq_tcp_cb_def modbusmq_rtu_cb_def)
  show "modbusmq_msg_broadcast c' m = modbusmq_msg_broadcast c m"
    using l by (simp add: modbusmq_msg_broadcast_def cb_def)
qed

text \<open>\<open>res\<close>, received as it stands, is what the transport accepts as the answer to \<open>w\<close>.\<close>

definition answers :: "modbusmq_context_t \<Rightarrow> modbusmq_frame_t \<Rightarrow> byte list \<Rightarrow> bool" where
  "answers c w res \<longleftrightarrow> is_writer w \<and> wf_frame w \<and> header_length c \<le> int (length res) \<and> length res \<le> 260
     \<and> (let m = \<lparr>msg_id = 0, req_id = 0, frame0 = w, frame1 = holding res\<rparr>
        in \<not> modbusmq_msg_broadcast c m \<and> fst (modbusmq_check c m) = 0)"

lemma answers_same_link: "same_link c c' \<Longrightarrow> answers c' w res = answers c w res"
  by (simp add: answers_def check_same_link) (simp add: same_link_def)

text \<open>
  \<open>target res k\<close> is how far the transport reads when it holds \<open>k\<close> bytes of \<open>res\<close>: to the end
  of the header first, to the end of the frame from there.
\<close>

locale response_stream = event_loop ops ok window
  for ops :: modbusmq_cb_t and ok :: "modbusmq_context_t \<Rightarrow> bool"
    and window :: "modbusmq_frame_t \<Rightarrow> bool" +
  fixes target :: "byte list \<Rightarrow> int \<Rightarrow> int"
  assumes target_more: "ok c \<Longrightarrow> answers c w res \<Longrightarrow> 0 \<le> k \<Longrightarrow> k < int (length res)
                  \<Longrightarrow> k < target res k \<and> target res k \<le> int (length res)"
    and target_twice: "ok c \<Longrightarrow> answers c w res \<Longrightarrow> 0 \<le> k \<Longrightarrow> k < int (length res)
                  \<Longrightarrow> target res (target res k) = int (length res)"
    and target_header: "ok c \<Longrightarrow> target res 0 = header_length c"
    and header_covers: "ok c \<Longrightarrow> 0 < res_header_min c \<and> res_header_min c \<le> header_length c"
    and advance: "ok c \<Longrightarrow> \<not> line_fault c \<Longrightarrow> wf_msg m \<Longrightarrow> answers c (frame0 m) res
                  \<Longrightarrow> flength (frame1 m) = target res (xmit (frame1 m))
                  \<Longrightarrow> received (frame1 m) @ line_in c @ rest = res \<Longrightarrow> xmit (frame1 m) < int (length res)
                  \<Longrightarrow> \<exists>c' m'. read_ahead c m (min (flength (frame1 m) - xmit (frame1 m)) (int (length (line_in c)))) c' m'
                        \<and> flength (frame1 m') = target res (xmit (frame1 m'))"
    and accepts: "ok c \<Longrightarrow> wf_msg m \<Longrightarrow> answers c (frame0 m) res \<Longrightarrow> received (frame1 m) = res
                  \<Longrightarrow> xmit (frame1 m) = flength (frame1 m) \<Longrightarrow> fst (cb_msg_check ops c m) = 0"
begin

text \<open>Part of the response is in the reader, part on the line, the rest still to come.\<close>

definition assembling ::
    "modbusmq_context_t \<Rightarrow> modbusmq_msg_t \<Rightarrow> byte list \<Rightarrow> byte list \<Rightarrow> bool" where
  "assembling c m res rest \<longleftrightarrow> ok c \<and> \<not> line_fault c \<and> wf_msg m \<and> answers c (frame0 m) res
     \<and> xmit (frame0 m) = flength (frame0 m) \<and> req_header_min c \<le> flength (frame0 m)
     \<and> flength (frame1 m) = target res (xmit (frame1 m)) \<and> xmit (frame1 m) < int (length res)
     \<and> received (frame1 m) @ line_in c @ rest = res"

definition assembled :: "modbusmq_context_t \<Rightarrow> modbusmq_msg_t \<Rightarrow> byte list \<Rightarrow> bool" where
  "assembled c m res \<longleftrightarrow> received (frame1 m) = res \<and> xmit (frame1 m) = flength (frame1 m)
     \<and> fst (modbusmq_check c m) = 0 \<and> line_in c = []"

text \<open>One entry with \<open>POLLIN\<close>: the reader moves to its target or to the end of the line.\<close>

lemma assembling_step:
  assumes a: "assembling c m res rest"
    and step: "modbusmq_handle_write_read c m POLLIN = (rc, c', m')"
  defines "k \<equiv> min (target res (xmit (frame1 m))) (xmit (frame1 m) + int (length (line_in c)))"
  shows "k = int (length res) \<longrightarrow> rc = 0 \<and> assembled c' m' res \<and> rest = []"
    and "k < int (length res) \<longrightarrow> 0 < rc \<and> assembling c' m' res rest \<and> xmit (frame1 m') = k"
proof -
  let ?c = "c\<lparr>ticks := Suc (ticks c), last_read_ms := clock c (ticks c)\<rparr>"
  have A: "ok c" "\<not> line_fault c" "wf_msg m" "answers c (frame0 m) res" "xmit (frame0 m) = flength (frame0 m)"
    "req_header_min c \<le> flength (frame0 m)" "flength (frame1 m) = target res (xmit (frame1 m))"
    "xmit (frame1 m) < int (length res)" "received (frame1 m) @ line_in c @ rest = res"
    using a by (simp_all add: assembling_def)
  note f = wf_frameD [OF wf_msgD(3) [OF A(3)]]
  have sc: "same_link c ?c" by (simp add: same_link_def)
  note tm = target_more [OF A(1,4) f(2) A(8)] and tt = target_twice [OF A(1,4) f(2) A(8)]
  let ?n = "min (flength (frame1 m) - xmit (frame1 m)) (int (length (line_in c)))"
  obtain c2 m2 where ra: "read_ahead ?c m ?n c2 m2" and fl: "flength (frame1 m2) = target res (xmit (frame1 m2))"
    using advance [OF ok_same [OF sc A(1)] _ A(3) _ A(7) _ A(8)] A answers_same_link [OF sc] by auto
  have eff: "read_effect ?c (frame1 m) ?n c2 (frame1 m2)" and wf2: "wf_frame (frame1 m2)"
    and m2: "m2 = m\<lparr>frame1 := frame1 m2\<rparr>"
    using ra by (simp_all add: read_ahead_def)
  have k: "xmit (frame1 m2) = k" using eff A(7) unfolding k_def by (auto simp: read_effect_def)
  have rcv: "received (frame1 m2) @ line_in c2 @ rest = res"
    using eff A(9) by (auto simp: read_effect_def)
  have c2: "c2 = ?c\<lparr>line_in := line_in c2\<rparr>" using eff unfolding read_effect_def by blast
  have s2: "same_link c c2" by (subst c2) (simp add: same_link_def)
  have nf: "\<not> line_fault c2" using A(2) by (subst c2) simp
  have nw: "\<not> is_writer (frame1 m2)" using eff wf_msgD(1) [OF A(3)] by (auto simp: read_effect_def paired_def)
  have wm2: "wf_msg m2" by (subst m2) (rule wf_put_frame(2) [OF A(3) wf2 nw])
  have fr0: "frame0 m2 = frame0 m" by (subst m2) simp
  have pos: "0 < flength (frame1 m)" "xmit (frame1 m) < flength (frame1 m)" using tm A(7) f by linarith+
  have h: "modbusmq_handle_write_read c m 1 =
     (if xmit (frame1 m2) \<noteq> flength (frame1 m2) \<and> ?n \<noteq> 0 then ?n
      else pending_bytes c2 (frame0 m2) (frame1 m2), c2, m2)"
    by (rule handle_read_ahead [OF A(3,5,6) pos ra])
  have klen: "int (length (received (frame1 m2))) = k" using length_received [OF wf2] k by simp
  have out: "c' = c2" "m' = m2" using step h by simp_all
  have ok2: "ok c2" by (rule ok_same [OF s2 A(1)])
  have ans2: "answers c2 (frame0 m2) res" using A(4) answers_same_link [OF s2] fr0 by simp
  have hm: "0 < res_header_min c2" "res_header_min c2 \<le> int (length res)"
    using header_covers [OF ok2] ans2 by (simp_all add: answers_def)
  show "k = int (length res) \<longrightarrow> rc = 0 \<and> assembled c' m' res \<and> rest = []"
  proof
    assume e: "k = int (length res)"
    have all: "received (frame1 m2) = res" "line_in c2 = []" "rest = []" using rcv klen e by auto
    have "target res (xmit (frame1 m)) = int (length res)" using e tm unfolding k_def by linarith
    then have full: "flength (frame1 m2) = int (length res)" using fl k e tt by simp
    have "xmit (frame1 m2) = flength (frame1 m2)" using full k e by simp
    moreover have "pending_bytes c2 (frame0 m2) (frame1 m2) = 0"
      using fr0 A(5) hm full k e by (simp add: pending_bytes_def)
    moreover have "fst (modbusmq_check c2 m2) = 0"
      using accepts [OF ok2 wm2 ans2 all(1)] calculation(1) cb_ops [OF ok2] by (simp add: modbusmq_check_def)
    ultimately show "rc = 0 \<and> assembled c' m' res \<and> rest = []"
      using step h out all by (simp add: assembled_def)
  qed
  show "k < int (length res) \<longrightarrow> 0 < rc \<and> assembling c' m' res rest \<and> xmit (frame1 m') = k"
  proof
    assume e: "k < int (length res)"
    have "0 \<le> k" using klen by linarith
    note t2 = target_more [OF ok2 ans2 this e]
    have "xmit (frame1 m2) < flength (frame1 m2)" using fl k t2 by simp
    moreover have "0 \<le> ?n" using pos by simp
    ultimately have "0 < rc"
      using step h fr0 A(5) by (auto simp: pending_bytes_def Let_def split: if_splits)
    moreover have "assembling c2 m2 res rest"
      using ok2 nf wm2 ans2 fr0 A(5,6) fl k e rcv s2 by (simp add: assembling_def same_link_def)
    ultimately show "0 < rc \<and> assembling c' m' res rest \<and> xmit (frame1 m') = k" using out k by simp
  qed
qed

lemma assembling_k:
  assumes "assembling c m res rest"
  shows "min (target res (xmit (frame1 m))) (xmit (frame1 m) + int (length (line_in c))) \<le> int (length res)"
  using assms target_more [of c "frame0 m" res "xmit (frame1 m)"] wf_frameD [OF wf_msgD(3) [of m]]
  by (simp add: assembling_def min_le_iff_disj)

lemma assembling_arrival:
  assumes "assembling c m res (b @ rest)"
  shows "assembling (c\<lparr>line_in := line_in c @ b\<rparr>) m res rest"
proof -
  have "same_link c (c\<lparr>line_in := line_in c @ b\<rparr>)" by (simp add: same_link_def)
  then show ?thesis
    using assms ok_same answers_same_link by (auto simp: assembling_def)
qed

text \<open>After any pieces the response is there, or what has come is kept and more is awaited.\<close>

lemma deliver_keeps:
  assumes "assembling c m res (concat bs @ rest)" and "deliver c m bs = (rc, c', m')"
  shows "(rc = 0 \<and> assembled c' m' res \<and> rest = []) \<or> (0 < rc \<and> assembling c' m' res rest)"
  using assms
proof (induction bs arbitrary: c m)
  case (Cons b bs)
  let ?c = "c\<lparr>line_in := line_in c @ b\<rparr>"
  have a: "assembling ?c m res (concat bs @ rest)"
    by (rule assembling_arrival) (use Cons.prems(1) in simp)
  obtain rc1 c1 m1 where h: "modbusmq_handle_write_read ?c m POLLIN = (rc1, c1, m1)"
    by (cases "modbusmq_handle_write_read ?c m POLLIN")
  note st = assembling_step [OF a h] and k = assembling_k [OF a]
  have d: "deliver c m (b # bs) = (if rc1 > 0 then deliver c1 m1 bs else (rc1, c1, m1))" by (simp add: h)
  show ?case
  proof (cases "rc1 > 0")
    case True
    then have "assembling c1 m1 res (concat bs @ rest)" using st k by linarith
    then show ?thesis by (rule Cons.IH) (use Cons.prems(2) d True in simp)
  next
    case False
    then have "rc1 = 0 \<and> assembled c1 m1 res \<and> concat bs @ rest = []" using st k by linarith
    then show ?thesis using Cons.prems(2) d by simp
  qed
qed simp

text \<open>Once every piece is in, two entries finish: one ends the header, one the frame.\<close>

lemma deliver_done:
  assumes "assembling c m res []"
  shows "\<exists>c' m'. deliver c m [[], []] = (0, c', m') \<and> assembled c' m' res"
proof -
  let ?t = "target res (xmit (frame1 m))"
  have A: "ok c" "answers c (frame0 m) res" "wf_msg m" "xmit (frame1 m) < int (length res)"
    "received (frame1 m) @ line_in c = res"
    using assms by (simp_all add: assembling_def)
  note f = wf_frameD [OF wf_msgD(3) [OF A(3)]]
  have all: "xmit (frame1 m) + int (length (line_in c)) = int (length res)"
    using arg_cong [OF A(5), of "int \<circ> length"] length_received [OF wf_msgD(3) [OF A(3)]] by simp
  note tm = target_more [OF A(1,2) f(2) A(4)] and tt = target_twice [OF A(1,2) f(2) A(4)]
  obtain rc1 c1 m1 where h: "modbusmq_handle_write_read c m POLLIN = (rc1, c1, m1)"
    by (cases "modbusmq_handle_write_read c m POLLIN")
  note st = assembling_step [OF assms h]
  show ?thesis
  proof (cases "?t = int (length res)")
    case True
    then show ?thesis using st(1) all h by simp
  next
    case False
    then have k: "0 < rc1" "assembling c1 m1 res []" "xmit (frame1 m1) = ?t" using st(2) all tm by auto
    have all1: "xmit (frame1 m1) + int (length (line_in c1)) = int (length res)"
      using k(2) arg_cong [of _ res "int \<circ> length"] length_received [OF wf_msgD(3), of m1]
      by (fastforce simp: assembling_def)
    obtain rc2 c2 m2 where h2: "modbusmq_handle_write_read c1 m1 POLLIN = (rc2, c2, m2)"
      by (cases "modbusmq_handle_write_read c1 m1 POLLIN")
    have "rc2 = 0 \<and> assembled c2 m2 res" using assembling_step(1) [OF k(2) h2] k(3) tt all1 by simp
    then show ?thesis using h k(1) h2 by simp
  qed
qed

lemma deliver_append:
  "deliver c m (bs @ ds) = (let (rc, c', m') = deliver c m bs in if rc > 0 then deliver c' m' ds else (rc, c', m'))"
  by (induction bs arbitrary: c m) (auto split: prod.split)

lemma deliver_assembles:
  assumes "assembling c m res (concat bs)"
  shows "\<exists>c' m'. deliver c m (bs @ [[], []]) = (0, c', m') \<and> assembled c' m' res"
proof -
  obtain rc c1 m1 where d: "deliver c m bs = (rc, c1, m1)" by (cases "deliver c m bs")
  have "(rc = 0 \<and> assembled c1 m1 res \<and> [] = ([] :: byte list)) \<or> (0 < rc \<and> assembling c1 m1 res [])"
    by (rule deliver_keeps [OF _ d]) (use assms in simp)
  then show ?thesis using deliver_done by (auto simp: deliver_append d)
qed

text \<open>A request just written out, with the reader the loop arms for it and a silent line.\<close>

lemma fresh_assembling:
  assumes "ok c" and "\<not> line_fault c" and "line_in c = []" and ans: "answers c (frame0 m) res"
    and "xmit (frame0 m) = flength (frame0 m)" and "req_header_min c \<le> flength (frame0 m)"
    and "frame1 m = fresh_reader c"
  shows "assembling c m res res"
proof -
  have "wf_msg m"
    using ans fresh_window(1) [OF assms(1)] assms(7) by (simp add: answers_def wf_msg_def paired_def)
  moreover have "header_length c \<le> int (length res)" using ans unfolding answers_def by blast
  then have "0 < int (length res)" using header_covers [OF assms(1)] by linarith
  ultimately show ?thesis
    using assms target_header [OF assms(1)] by (simp add: assembling_def)
qed

end

section \<open>RTU assembles\<close>

definition rtu_target :: "byte list \<Rightarrow> int \<Rightarrow> int" where
  "rtu_target res k = (if k < 3 then 3 else int (length res))"

lemma rtu_count_ok_cong: "getb r' 2 = getb r 2 \<Longrightarrow> rtu_count_ok w r' = rtu_count_ok w r"
  by (simp add: rtu_count_ok_def)

lemma rtu_answersD:
  assumes ok: "rtu_ok c" and ans: "answers c w res"
  shows "res ! 0 = getb w 0" "res ! 1 = getb w 1" "(res ! 1 AND 0x80) = 0" "rtu_count_ok w (holding res)"
    "int (length res) = rtu_response_length c w" "crc16_loop 0xFFFF res = 0" "xmit w = flength w"
    "is_writer w" "3 \<le> length res" "length res \<le> 260"
proof -
  let ?m = "\<lparr>msg_id = 0, req_id = 0, frame0 = w, frame1 = holding res\<rparr>"
  have hl: "header_length c = 3" and cbc: "cb c = modbusmq_rtu_cb" using ok by (auto simp: rtu_ok_def)
  have a: "is_writer w" "wf_frame w" "3 \<le> length res" "length res \<le> 260"
    "\<not> modbusmq_rtu_msg_broadcast ?m" "fst (modbusmq_rtu_msg_check c ?m) = 0"
    using ans hl by (simp_all add: answers_def modbusmq_msg_broadcast_def modbusmq_check_def cbc
        modbusmq_rtu_cb_def Let_def)
  have wf: "wf_msg ?m" using a holding_wf by (simp add: wf_msg_def paired_def)
  have g: "getb (holding res) 0 = res ! 0" "getb (holding res) 1 = res ! 1"
    using a(3) by (auto intro!: getb_holding)
  note acc = rtu_msg_check_accepts [OF wf hl a(5), THEN iffD1, OF a(6),
      unfolded modbusmq_msg_t.select_convs g holding_simps]
  show "res ! 0 = getb w 0" "res ! 1 = getb w 1" "(res ! 1 AND 0x80) = 0" "rtu_count_ok w (holding res)"
    "int (length res) = rtu_response_length c w" "xmit w = flength w" "is_writer w"
    "3 \<le> length res" "length res \<le> 260"
    using acc a(1,3,4) by blast+
  have L: "int (length res) = rtu_response_length c w" using acc by blast
  have "wire ((holding res)\<lparr>flength := rtu_response_length c w\<rparr>) = res"
    unfolding L [symmetric] by (simp add: wire_def holding_def)
  then show "crc16_loop 0xFFFF res = 0" using acc by (simp add: rtu_crc_ok_def)
qed

lemma rtu_read_total:
  assumes "\<not> line_fault c" and "\<not> is_writer f" and "flength f \<noteq> 0" and "xmit f \<le> flength f"
  shows "\<exists>c' f'. modbusmq_rtu_read r c f = (min (flength f - xmit f) (int (length (line_in c))), c', f')"
  using assms by (auto simp: modbusmq_rtu_read_def sys_read_def modbusmq_rtu_frame_check_def Let_def min_def)

lemma rtu_advance:
  assumes ok: "rtu_ok c" and nf: "\<not> line_fault c" and wf: "wf_msg m" and ans: "answers c (frame0 m) res"
    and fl: "flength (frame1 m) = rtu_target res (xmit (frame1 m))"
    and rcv: "received (frame1 m) @ line_in c @ rest = res" and lt: "xmit (frame1 m) < int (length res)"
  shows "\<exists>c' m'. read_ahead c m (min (flength (frame1 m) - xmit (frame1 m)) (int (length (line_in c)))) c' m'
           \<and> flength (frame1 m') = rtu_target res (xmit (frame1 m'))"
proof -
  let ?f = "frame1 m"
  note p = wf_msgD(1) [OF wf] and f = wf_frameD [OF wf_msgD(3) [OF wf]] and A = rtu_answersD [OF ok ans]
  have nw: "\<not> is_writer ?f" using p by (simp add: paired_def)
  have nz: "flength ?f \<noteq> 0" using fl A(9) by (auto simp: rtu_target_def)
  obtain r where rd: "modbusmq_read c ?f = modbusmq_rtu_read r c ?f" using modbusmq_read_rtu [OF ok] by blast
  let ?n = "min (flength ?f - xmit ?f) (int (length (line_in c)))"
  obtain c' f' where rr: "modbusmq_rtu_read r c ?f = (?n, c', f')"
    using rtu_read_total [OF nf nw nz f(3)] by blast
  have n0: "0 \<le> ?n" using f by simp
  note eff = rtu_read_effect [OF wf_msgD(3) [OF wf] nw nz rr n0]
  have sc: "same_link c c'" by (rule same_link_line [OF read_line_only]) (use rd rr in simp)
  have rcv': "received f' @ line_in c' @ rest = res" and nw': "\<not> is_writer f'"
    using eff(1) rcv nw by (auto simp: read_effect_def)
  have len': "xmit f' \<le> int (length res)" using length_received [OF eff(2)] rcv' by auto
  have p': "paired (m\<lparr>frame1 := f'\<rparr>)" using p nw' by (simp add: paired_def)
  note hd = rtu_check_header_paired [OF p', of c']
  show ?thesis
  proof (cases "xmit f' < 3")
    case True
    have "modbusmq_check_header c' (m\<lparr>frame1 := f'\<rparr>) = (1, m\<lparr>frame1 := f'\<rparr>)"
      using ok sc True hd by (auto simp: modbusmq_check_header_def rtu_ok_def same_link_def modbusmq_rtu_cb_def)
    moreover have "flength f' = rtu_target res (xmit f')"
      using eff fl True n0 by (auto simp: rtu_target_def read_effect_def)
    ultimately show ?thesis
      using rd rr eff n0 by (intro exI [of _ c'] exI [of _ "m\<lparr>frame1 := f'\<rparr>"]) (simp add: read_ahead_def)
  next
    case False
    have g: "getb f' i = res ! i" if "i < 3" for i
      using getb_prefix [OF rcv' eff(2)] that False by simp
    let ?L = "rtu_response_length c (frame0 m)"
    have L: "rtu_response_length c' (frame0 m) = ?L"
      unfolding rtu_response_length_def same_link_fields(2) [OF sc] ..
    have "getb (holding res) 2 = res ! 2" using A(9) by (intro getb_holding) simp
    then have co: "rtu_count_ok (frame0 m) f'" using A(4) g [of 2] rtu_count_ok_cong [of f' "holding res"] by simp
    let ?m = "m\<lparr>frame1 := f'\<lparr>flength := ?L\<rparr>\<rparr>"
    have "modbusmq_rtu_msg_check_header c' (m\<lparr>frame1 := f'\<rparr>) = (?L - xmit f', ?m)"
      unfolding hd using False g [of 0] g [of 1] A(1,2,5,10) co L by (simp add: Let_def)
    then have h: "modbusmq_check_header c' (m\<lparr>frame1 := f'\<rparr>) = (?L - xmit f', ?m)"
      using ok sc by (auto simp: modbusmq_check_header_def rtu_ok_def same_link_def modbusmq_rtu_cb_def)
    have "wf_frame (f'\<lparr>flength := ?L\<rparr>)"
      using wf_frameD [OF eff(2)] len' A(5,10) by (simp add: wf_frame_def MODBUSMQ_FRAME_MAX_def)
    then have "read_ahead c m ?n c' ?m"
      using rd rr eff(1) n0 h len' A(5) by (simp add: read_ahead_def)
    moreover have "flength (frame1 ?m) = rtu_target res (xmit (frame1 ?m))"
      using False A(5) by (simp add: rtu_target_def)
    ultimately show ?thesis by blast
  qed
qed

lemma rtu_accepts:
  assumes ok: "rtu_ok c" and wf: "wf_msg m" and ans: "answers c (frame0 m) res"
    and rcv: "received (frame1 m) = res" and full: "xmit (frame1 m) = flength (frame1 m)"
  shows "fst (modbusmq_rtu_msg_check c m) = 0"
proof -
  note A = rtu_answersD [OF ok ans] and f = wf_frameD [OF wf_msgD(3) [OF wf]]
  have hl: "header_length c = 3" and cbc: "cb c = modbusmq_rtu_cb" using ok by (auto simp: rtu_ok_def)
  have x: "xmit (frame1 m) = int (length res)" using length_received [OF wf_msgD(3) [OF wf]] rcv by simp
  have g: "getb (frame1 m) i = res ! i" if "i < 3" for i
    using getb_prefix [of "frame1 m" "[]" res i] wf_msgD(3) [OF wf] rcv that A(9) x by simp
  have h2: "getb (holding res) 2 = res ! 2" using A(9) by (intro getb_holding) simp
  have "\<not> modbusmq_rtu_msg_broadcast \<lparr>msg_id = 0, req_id = 0, frame0 = frame0 m, frame1 = holding res\<rparr>"
    using ans by (simp add: answers_def modbusmq_msg_broadcast_def cbc modbusmq_rtu_cb_def Let_def)
  then have nb: "\<not> modbusmq_rtu_msg_broadcast m"
    using broadcast_cong [of m "\<lparr>msg_id = 0, req_id = 0, frame0 = frame0 m, frame1 = holding res\<rparr>"]
      wf_msgD(1) [OF wf] by (simp add: paired_def)
  have "rtu_crc_ok ((frame1 m)\<lparr>flength := rtu_response_length c (frame0 m)\<rparr>)"
    using A(5,6) rcv x by (simp add: rtu_crc_ok_def wire_def received_def)
  then show ?thesis
    using rtu_msg_check_accepts [OF wf hl nb] A g [of 0] g [of 1] g [of 2] h2 x
      rtu_count_ok_cong [of "frame1 m" "holding res" "frame0 m"] by simp
qed

interpretation rtu_stream: response_stream modbusmq_rtu_cb rtu_ok rtu_window rtu_target
proof (unfold_locales, goal_cases)
  case (1 c w res k)
  then show ?case using rtu_answersD(9) [OF 1(1,2)] by (simp add: rtu_target_def)
next
  case (2 c w res k)
  then show ?case using rtu_answersD(9) [OF 2(1,2)] by (auto simp: rtu_target_def)
next
  case (3 c res)
  then show ?case by (simp add: rtu_target_def rtu_ok_def)
next
  case (4 c)
  then show ?case by (simp add: rtu_ok_def)
next
  case (5 c m res rest)
  then show ?case by (rule rtu_advance)
next
  case (6 c m res)
  then show ?case using rtu_accepts by (simp add: modbusmq_rtu_cb_def)
qed

section \<open>TCP assembles\<close>

definition tcp_target :: "byte list \<Rightarrow> int \<Rightarrow> int" where
  "tcp_target res k = (if k < 6 then 8 else int (length res))"

lemma tcp_answersD:
  assumes ok: "tcp_ok c" and ans: "answers c w res"
  shows "res ! 0 = getb w 0" "res ! 1 = getb w 1" "res ! 2 = 0" "res ! 3 = 0" "getb w 2 = 0" "getb w 3 = 0"
    "be16 (res ! 4) (res ! 5) + 6 = int (length res)" "res ! 6 = getb w 6"
    "res ! 7 = getb w 7 \<or> ((res ! 7 AND 0x80) \<noteq> 0 \<and> length res = 8)" "xmit w = flength w"
    "8 \<le> length res" "length res \<le> 260"
proof -
  let ?m = "\<lparr>msg_id = 0, req_id = 0, frame0 = w, frame1 = holding res\<rparr>"
  have hl: "header_length c = 8" and cbc: "cb c = modbusmq_tcp_cb" using ok by (auto simp: tcp_ok_def)
  have a: "is_writer w" "wf_frame w" "8 \<le> length res" "length res \<le> 260" "fst (modbusmq_tcp_msg_check ?m) = 0"
    using ans hl by (simp_all add: answers_def modbusmq_check_def cbc modbusmq_tcp_cb_def Let_def)
  have wf: "wf_msg ?m" using a holding_wf by (simp add: wf_msg_def paired_def)
  have len: "8 \<le> xmit (frame1 ?m)" using a by simp
  have g: "getb (holding res) 0 = res ! 0" "getb (holding res) 1 = res ! 1" "getb (holding res) 2 = res ! 2"
    "getb (holding res) 3 = res ! 3" "getb (holding res) 4 = res ! 4" "getb (holding res) 5 = res ! 5"
    "getb (holding res) 6 = res ! 6" "getb (holding res) 7 = res ! 7"
    using a(3) by (auto intro!: getb_holding)
  have n8: "int (length res) = 8 \<longleftrightarrow> length res = 8" by linarith
  note acc = tcp_msg_check_accepts [OF wf len, THEN iffD1, OF a(5),
      unfolded modbusmq_msg_t.select_convs g holding_simps n8]
  show "res ! 0 = getb w 0" "res ! 1 = getb w 1" "res ! 2 = 0" "res ! 3 = 0" "getb w 2 = 0" "getb w 3 = 0"
    "be16 (res ! 4) (res ! 5) + 6 = int (length res)" "res ! 6 = getb w 6"
    "res ! 7 = getb w 7 \<or> ((res ! 7 AND 0x80) \<noteq> 0 \<and> length res = 8)" "xmit w = flength w"
    "8 \<le> length res" "length res \<le> 260"
    using acc a(3,4) by blast+
qed

text \<open>The header check passes on every prefix of an answer, once the reader is sized by it.\<close>

lemma tcp_header_prefix:
  assumes p: "paired m" and wf: "wf_frame (frame1 m)" and rcv: "received (frame1 m) @ xs = res"
    and A: "res ! 0 = getb (frame0 m) 0" "res ! 1 = getb (frame0 m) 1" "res ! 2 = 0" "res ! 3 = 0"
      "getb (frame0 m) 2 = 0" "getb (frame0 m) 3 = 0" "be16 (res ! 4) (res ! 5) + 6 = int (length res)"
      "res ! 6 = getb (frame0 m) 6"
      "res ! 7 = getb (frame0 m) 7 \<or> ((res ! 7 AND 0x80) \<noteq> 0 \<and> length res = 8)"
    and len: "8 \<le> length res" "length res \<le> 260"
    and fl: "6 \<le> xmit (frame1 m) \<longrightarrow> flength (frame1 m) = int (length res)"
  shows "modbusmq_tcp_msg_check_header m = (0, m)"
proof -
  let ?r = "frame1 m" and ?w = "frame0 m"
  have ix: "writer_of m = ?w" "reader_of m = ?r" using p by simp_all
  have x: "xmit ?r \<le> int (length res)" using length_received [OF wf] rcv by auto
  have g: "getb ?r i = res ! i" if "int i < xmit ?r" for i by (rule getb_prefix [OF rcv wf that])
  have c1: "\<not> (2 \<le> xmit ?r \<and> \<not> (getb ?w 0 = getb ?r 0 \<and> getb ?w 1 = getb ?r 1))"
    using g [of 0] g [of 1] A(1,2) by auto
  have c2: "\<not> (4 \<le> xmit ?r \<and> \<not> (getb ?r 2 = 0 \<and> getb ?r 3 = 0 \<and> getb ?w 2 = 0 \<and> getb ?w 3 = 0))"
    using g [of 2] g [of 3] A(3-6) by auto
  have ml: "6 \<le> xmit ?r \<Longrightarrow> be16 (getb ?r 4) (getb ?r 5) + 6 = int (length res)"
    using g [of 4] g [of 5] A(7) by simp
  have c3: "\<not> (6 \<le> xmit ?r \<and> be16 (getb ?r 4) (getb ?r 5) + 6 \<noteq> xmit ?r
      \<and> \<not> (be16 (getb ?r 4) (getb ?r 5) + 6 > 6 \<and> be16 (getb ?r 4) (getb ?r 5) + 6 \<le> MODBUSMQ_FRAME_MAX))"
    using ml len by (auto simp: MODBUSMQ_FRAME_MAX_def)
  have c4: "\<not> (6 \<le> xmit ?r \<and> be16 (getb ?r 4) (getb ?r 5) + 6 \<noteq> xmit ?r
      \<and> be16 (getb ?r 4) (getb ?r 5) + 6 \<noteq> flength ?r)"
    using ml fl by auto
  have six: "\<not> (7 \<le> xmit ?r \<and> getb ?w 6 \<noteq> getb ?r 6)" using g [of 6] A(8) by auto
  have seven: "\<not> (8 \<le> xmit ?r \<and> getb ?w 7 \<noteq> getb ?r 7) \<or> ((getb ?r 7 AND 0x80) \<noteq> 0 \<and> xmit ?r < 9)"
    using g [of 7] A(9) x by auto
  have uf: "tcp_check_unit_function m = 0"
    unfolding tcp_check_unit_function_def Let_def ix using six seven by (simp only: if_False) auto
  show ?thesis
    unfolding modbusmq_tcp_msg_check_header_def Let_def ix
    by (simp only: c1 c2 c3 c4 if_False uf simp_thms)
qed

lemma tcp_read_reader:
  assumes sr: "sys_read (flength f - xmit f) c = (n, got, c1)" and "0 \<le> n" and "\<not> is_writer f"
    and "0 \<le> xmit f" and "xmit f < flength f" and "flength f \<le> 260"
  defines "g \<equiv> (copy_in got f)\<lparr>xmit := xmit f + n\<rparr>"
  shows "modbusmq_tcp_read c f =
      (if 6 \<le> xmit f + n then
         (if 6 + be16 (getb g 4) (getb g 5) < 8 \<or> 6 + be16 (getb g 4) (getb g 5) > 260 then (-1, c1, g)
          else (n, c1, g\<lparr>flength := 6 + be16 (getb g 4) (getb g 5)\<rparr>))
       else (n, c1, g))"
proof -
  have "flength f \<noteq> 0" "\<not> flength f \<le> xmit f" "\<not> 260 < flength f" "\<not> n < 0" using assms(2-6) by linarith+
  moreover have "\<not> is_writer (copy_in got f)" "\<not> is_writer g" "xmit g = xmit f + n"
    using assms(3) by (simp_all add: g_def)
  ultimately show ?thesis
    by (simp add: modbusmq_tcp_read_def sr MODBUSMQ_FRAME_MAX_def Let_def modbusmq_tcp_frame_check_def
        flip: g_def)
qed

lemma tcp_advance:
  assumes ok: "tcp_ok c" and nf: "\<not> line_fault c" and wf: "wf_msg m" and ans: "answers c (frame0 m) res"
    and fl: "flength (frame1 m) = tcp_target res (xmit (frame1 m))"
    and rcv: "received (frame1 m) @ line_in c @ rest = res" and lt: "xmit (frame1 m) < int (length res)"
  shows "\<exists>c' m'. read_ahead c m (min (flength (frame1 m) - xmit (frame1 m)) (int (length (line_in c)))) c' m'
           \<and> flength (frame1 m') = tcp_target res (xmit (frame1 m'))"
proof -
  let ?f = "frame1 m"
  note p = wf_msgD(1) [OF wf] and f = wf_frameD [OF wf_msgD(3) [OF wf]] and A = tcp_answersD [OF ok ans]
  have nw: "\<not> is_writer ?f" using p by (simp add: paired_def)
  have room: "xmit ?f < flength ?f" using fl lt by (auto simp: tcp_target_def)
  let ?n = "min (flength ?f - xmit ?f) (int (length (line_in c)))"
  let ?got = "take (nat (flength ?f - xmit ?f)) (line_in c)"
  let ?c = "c\<lparr>line_in := drop (nat (flength ?f - xmit ?f)) (line_in c)\<rparr>"
  have sr: "sys_read (flength ?f - xmit ?f) c = (?n, ?got, ?c)"
    using nf room by (auto simp: sys_read_def Let_def min_def)
  have n0: "0 \<le> ?n" using f by simp
  let ?g = "(copy_in ?got ?f)\<lparr>xmit := xmit ?f + ?n\<rparr>"
  note e = read_effect_sys_read [OF sr n0 wf_msgD(3) [OF wf] f(3)]
  have rg: "received ?g @ line_in ?c @ rest = res" using e(1) rcv by (auto simp: read_effect_def)
  have wg: "wf_frame ?g"
    using e f n0 by (auto simp: read_effect_def wf_frame_def MODBUSMQ_FRAME_MAX_def)
  let ?r = "if xmit ?f + ?n \<ge> 6 then ?g\<lparr>flength := int (length res)\<rparr> else ?g"
  have decl: "6 + be16 (getb ?g 4) (getb ?g 5) = int (length res)" if "6 \<le> xmit ?f + ?n"
    using getb_prefix [OF rg wg, of 4] getb_prefix [OF rg wg, of 5] that A(7) by simp
  have rd: "modbusmq_read c ?f = (?n, ?c, ?r)"
  proof -
    have "modbusmq_tcp_read c ?f =
      (if 6 \<le> xmit ?f + ?n then
         (if 6 + be16 (getb ?g 4) (getb ?g 5) < 8 \<or> 6 + be16 (getb ?g 4) (getb ?g 5) > 260 then (-1, ?c, ?g)
          else (?n, ?c, ?g\<lparr>flength := 6 + be16 (getb ?g 4) (getb ?g 5)\<rparr>))
       else (?n, ?c, ?g))"
      by (rule tcp_read_reader [OF sr n0 nw f(2) room f(4)])
    then show ?thesis
      using decl A(11,12) modbusmq_read_tcp [OF ok] by simp
  qed
  have len: "xmit ?f + ?n \<le> int (length res)" using length_received [OF wg] rg by auto
  have wr: "wf_frame ?r" using wg len A(12) by (auto simp: wf_frame_def MODBUSMQ_FRAME_MAX_def)
  have rr: "received ?r @ line_in ?c @ rest = res" using rg by (simp add: received_def)
  have nwr: "\<not> is_writer ?r" using nw by simp
  let ?m = "m\<lparr>frame1 := ?r\<rparr>"
  have "modbusmq_tcp_msg_check_header ?m = (0, ?m)"
    by (rule tcp_header_prefix [where res = res and xs = "line_in ?c @ rest"])
       (use p nwr wr rr A in \<open>simp_all add: paired_def\<close>)
  then have h: "modbusmq_check_header ?c ?m = (0, ?m)"
    using ok by (auto simp: modbusmq_check_header_def tcp_ok_def modbusmq_tcp_cb_def)
  have "read_effect c ?f ?n ?c ?r" using e(1) by simp
  then have "read_ahead c m ?n ?c ?m" using rd wr h n0 by (simp add: read_ahead_def)
  moreover have "flength ?r = tcp_target res (xmit ?r)"
    using fl n0 by (auto simp: tcp_target_def)
  ultimately show ?thesis by (intro exI [of _ ?c] exI [of _ ?m]) simp
qed

lemma tcp_accepts:
  assumes ok: "tcp_ok c" and wf: "wf_msg m" and ans: "answers c (frame0 m) res"
    and rcv: "received (frame1 m) = res" and full: "xmit (frame1 m) = flength (frame1 m)"
  shows "fst (modbusmq_tcp_msg_check m) = 0"
proof -
  note A = tcp_answersD [OF ok ans] and p = wf_msgD(1) [OF wf]
  have "xmit (frame1 m) = int (length res)" using length_received [OF wf_msgD(3) [OF wf]] rcv by simp
  then have "modbusmq_tcp_msg_check_header m = (0, m)"
    by (intro tcp_header_prefix [where res = res and xs = "[]"])
       (use p wf_msgD(3) [OF wf] rcv A full in simp_all)
  then show ?thesis using p A(10) full by (simp add: modbusmq_tcp_msg_check_def Let_def)
qed

interpretation tcp_stream: response_stream modbusmq_tcp_cb tcp_ok tcp_window tcp_target
proof (unfold_locales, goal_cases)
  case (1 c w res k)
  then show ?case using tcp_answersD(11) [OF 1(1,2)] by (simp add: tcp_target_def)
next
  case (2 c w res k)
  then show ?case using tcp_answersD(11) [OF 2(1,2)] by (auto simp: tcp_target_def)
next
  case (3 c res)
  then show ?case by (simp add: tcp_target_def tcp_ok_def)
next
  case (4 c)
  then show ?case by (simp add: tcp_ok_def)
next
  case (5 c m res rest)
  then show ?case by (rule tcp_advance)
next
  case (6 c m res)
  then show ?case using tcp_accepts by (simp add: modbusmq_tcp_cb_def)
qed

end
