(* ===== verification/Exchange.thy ===== *)
theory Exchange
  imports Assembly
begin

text \<open>
  One exchange as a transition system: the event loop works on the request in flight while
  bytes arrive, the descriptor changes its mood and time passes. Its invariants hold in every
  state that can be reached, whatever the order of these steps.
\<close>

section \<open>The request on the wire\<close>

lemma put_frame1_other [simp]: "frame0 (put_frame 1 f m) = frame0 m" "frame0 (put_frame (Suc 0) f m) = frame0 m"
  by simp_all

lemma line_only_out: "line_only c c' \<Longrightarrow> line_out c' = line_out c"
  by (rule line_only_fields)

lemma pending_out [simp]: "snd (pending c m 0 1) = (c, m)" "snd (pending c m 0 (Suc 0)) = (c, m)"
  by (simp_all add: pending_def)

lemma mismatch_request:
  assumes "mismatch_step c m 0 1 = (rc, c', m')"
  shows "line_out c' = line_out c" "frame0 m' = frame0 m"
proof -
  obtain drc r where d: "modbusmq_frame_drain c (frame1 m) = (drc, r)" by fastforce
  have fl: "line_out (snd (modbusmq_flush x)) = line_out x" for x by (rule line_only_out [OF flush_line_only])
  have "line_out c' = line_out c \<and> frame0 m' = frame0 m"
    using assms d fl [of "c\<lparr>err := err c + 1\<rparr>"]
    by (auto simp: mismatch_step_def pending_def Let_def split: if_splits)
  then show "line_out c' = line_out c" "frame0 m' = frame0 m" by blast+
qed

lemma read_keeps_writer: "modbusmq_read c f = (n, c', f') \<Longrightarrow> is_writer f' = is_writer f"
  by (auto simp: modbusmq_read_def modbusmq_rtu_read_def modbusmq_tcp_read_def Let_def
      modbusmq_rtu_frame_check_def modbusmq_tcp_frame_check_def
      split: transport.splits prod.splits if_splits)

lemma check_header_request:
  assumes "paired m" and "modbusmq_read x (frame1 m) = (n, c1, r)"
    and "modbusmq_check_header c1 (m\<lparr>frame1 := r\<rparr>) = (h, m2)"
  shows "frame0 m2 = frame0 m" "paired m2"
proof -
  have p: "paired (m\<lparr>frame1 := r\<rparr>)"
    using assms(1) read_keeps_writer [OF assms(2)] by (simp add: paired_def)
  have "cb c1 = modbusmq_rtu_cb \<or> cb c1 = modbusmq_tcp_cb" by (simp add: cb_def split: transport.split)
  then show "frame0 m2 = frame0 m" "paired m2"
    using assms(3) rtu.header_fields(1,7) [OF p] tcp.header_fields(1,7) [OF p]
    by (auto simp: modbusmq_check_header_def)
qed

lemma read_request:
  assumes "paired m" and "read_step c m 0 1 = (rc, c', m')"
  shows "line_out c' = line_out c \<and> frame0 m' = frame0 m"
proof -
  let ?c = "c\<lparr>ticks := Suc (ticks c), last_read_ms := clock c (ticks c)\<rparr>"
  obtain n c1 r where rd: "modbusmq_read ?c (frame1 m) = (n, c1, r)"
    by (cases "modbusmq_read ?c (frame1 m)")
  have lo: "line_out c1 = line_out c" using line_only_out [OF read_line_only [OF rd]] by simp
  obtain hrc m2 where h: "modbusmq_check_header c1 (m\<lparr>frame1 := r\<rparr>) = (hrc, m2)"
    by (cases "modbusmq_check_header c1 (m\<lparr>frame1 := r\<rparr>)")
  have f0: "frame0 m2 = frame0 m" "paired m2"
    using check_header_request [OF assms(1) rd h] by blast+
  note eq = read_step_eq [OF rd h]
  show ?thesis
    using assms(2) [unfolded eq] lo f0(1) mismatch_request [of c1 m2 rc c' m']
    by (auto simp: pending_def split: if_splits)
qed

text \<open>An entry of the loop sends the next bytes of the request, in order, or none.\<close>

lemma handle_request:
  assumes wf: "wf_msg m" and step: "modbusmq_handle_write_read c m revents = (rc, c', m')"
  shows "\<exists>n. 0 \<le> n \<and> n \<le> flength (frame0 m) - xmit (frame0 m)
     \<and> frame0 m' = (frame0 m)\<lparr>xmit := xmit (frame0 m) + n\<rparr>
     \<and> line_out c' = line_out c @ take (nat n) (drop (nat (xmit (frame0 m))) (wire (frame0 m)))"
proof -
  note p = wf_msgD(1) [OF wf] and w = wf_frameD [OF wf_msgD(2) [OF wf]]
  have same: ?thesis if "line_out c' = line_out c" "frame0 m' = frame0 m"
    using that w by (intro exI [of _ 0]) simp
  have eq: "modbusmq_handle_write_read c m revents =
    (if modbusmq_frame_incomplete c (frame0 m) \<noteq> 0 then
       (if has_event revents POLLOUT then write_step c m 0 1 else pending c m 0 1)
     else if modbusmq_frame_incomplete c (frame1 m) \<noteq> 0 then
       (if has_event revents POLLIN then read_step c m 0 1 else pending c m 0 1)
     else (0, c, m))"
    using p by (simp add: modbusmq_handle_write_read_def Let_def)
  consider "write_step c m 0 1 = (rc, c', m')" | "read_step c m 0 1 = (rc, c', m')" | "(c', m') = (c, m)"
    using step [unfolded eq] by (auto simp: pending_def split: if_splits)
  then show ?thesis
  proof cases
    case 1
    with wf show ?thesis
    proof (cases rule: write_step_cases)
      case (wrote n c4 w4)
      have "c' = c4 \<and> frame0 m' = w4" using wrote(7) by (auto simp: pending_def split: if_splits)
      then show ?thesis using wrote(1,2,4,6) by (intro exI [of _ n]) simp
    qed (use same in simp_all)
  next
    case 2
    then show ?thesis using read_request [OF p 2] same by blast
  next
    case 3
    then show ?thesis using same by simp
  qed
qed

section \<open>The transition system\<close>

text \<open>
  What can happen between and during the entries of the loop while a request is in flight.
  \<open>entry\<close> covers the entries after which the exchange goes on; the others end it.
\<close>

type_synonym exchange_state = "modbusmq_context_t \<times> modbusmq_msg_t"

inductive exchange_step :: "exchange_state \<Rightarrow> exchange_state \<Rightarrow> bool" where
  arrival: "exchange_step (c, m) (c\<lparr>line_in := line_in c @ bs\<rparr>, m)"
| burst: "exchange_step (c, m) (c\<lparr>line_late := bss\<rparr>, m)"
| descriptor: "exchange_step (c, m) (c\<lparr>line_room := n, line_fault := b\<rparr>, m)"
| entry: "modbusmq_handle_write_read c m revents = (rc, c', m') \<Longrightarrow> 0 < rc \<Longrightarrow>
    exchange_step (c, m) (c', m')"

inductive_cases exchange_stepE [consumes 1, case_names arrival burst descriptor entry]: "exchange_step (c, m) s"

context event_loop
begin

definition exchange_inv :: "exchange_state \<Rightarrow> exchange_state \<Rightarrow> bool" where
  "exchange_inv s0 s \<longleftrightarrow>
     (case (s0, s) of ((c0, m0), (c, m)) \<Rightarrow>
        ok c \<and> in_flight m \<and> same_link c0 c
        \<and> frame0 m = (frame0 m0)\<lparr>xmit := xmit (frame0 m)\<rparr>
        \<and> line_out c = line_out c0 @ take (nat (xmit (frame0 m))) (wire (frame0 m0)))"

lemma exchange_inv_env:
  assumes "exchange_inv (c0, m0) (c, m)" and "same_link c c'" and "line_out c' = line_out c"
  shows "exchange_inv (c0, m0) (c', m)"
  using assms same_link_trans [of c0 c c'] ok_same [of c c'] by (simp add: exchange_inv_def)

lemma exchange_inv_entry:
  assumes inv: "exchange_inv (c0, m0) (c, m)"
    and step: "modbusmq_handle_write_read c m revents = (rc, c', m')" and rc: "0 < rc"
  shows "exchange_inv (c0, m0) (c', m')"
proof -
  have I: "ok c" "in_flight m" "same_link c0 c" "frame0 m = (frame0 m0)\<lparr>xmit := xmit (frame0 m)\<rparr>"
    "line_out c = line_out c0 @ take (nat (xmit (frame0 m))) (wire (frame0 m0))"
    using inv by (simp_all add: exchange_inv_def)
  note H = handle_inv [OF I(1,2) step]
  have wf: "wf_msg m" using I(2) by (simp add: in_flight_def)
  obtain n where n: "0 \<le> n" "frame0 m' = (frame0 m)\<lparr>xmit := xmit (frame0 m) + n\<rparr>"
    "line_out c' = line_out c @ take (nat n) (drop (nat (xmit (frame0 m))) (wire (frame0 m)))"
    using handle_request [OF wf step] by blast
  have "wire (frame0 m) = wire (frame0 m0)" by (subst I(4)) (simp add: wire_def)
  moreover have "nat (xmit (frame0 m) + n) = nat (xmit (frame0 m)) + nat n"
    using n(1) wf_frameD [OF wf_msgD(2) [OF wf]] by (simp add: nat_add_distrib)
  ultimately have "line_out c' = line_out c0 @ take (nat (xmit (frame0 m'))) (wire (frame0 m0))"
    using n(2,3) I(5) by (simp add: take_add)
  moreover have "frame0 m' = (frame0 m0)\<lparr>xmit := xmit (frame0 m')\<rparr>"
    unfolding n(2) by (subst (1) I(4)) simp
  ultimately show ?thesis
    using H rc same_link_trans [OF I(3) H(1)] ok_same [OF H(1) I(1)] by (simp add: exchange_inv_def)
qed

lemma exchange_inv_reach:
  assumes "exchange_step\<^sup>*\<^sup>* s0 s" and "exchange_inv s0 s0"
  shows "exchange_inv s0 s"
  using assms
proof (induction rule: rtranclp_induct)
  case (step s t)
  obtain c0 m0 where s0: "s0 = (c0, m0)" by (cases s0)
  obtain c m where s: "s = (c, m)" by (cases s)
  have inv: "exchange_inv (c0, m0) (c, m)" using step.IH step.prems by (simp add: s0 s)
  have env: "exchange_inv (c0, m0) (c', m)"
    if "\<exists>a b n x. c' = c\<lparr>line_in := a, line_late := b, line_room := n, line_fault := x\<rparr>" for c'
    using that by (intro exchange_inv_env [OF inv]) (auto simp: same_link_def)
  have "exchange_step (c, m) t" using step.hyps(2) by (simp add: s)
  then show ?case
  proof (cases rule: exchange_stepE)
    case (arrival bs)
    have "c\<lparr>line_in := line_in c @ bs\<rparr>
        = c\<lparr>line_in := line_in c @ bs, line_late := line_late c, line_room := line_room c, line_fault := line_fault c\<rparr>"
      by simp
    then show ?thesis unfolding s0 arrival by (intro env) blast
  next
    case (burst bss)
    have "c\<lparr>line_late := bss\<rparr>
        = c\<lparr>line_in := line_in c, line_late := bss, line_room := line_room c, line_fault := line_fault c\<rparr>"
      by simp
    then show ?thesis unfolding s0 burst by (intro env) blast
  next
    case (descriptor b n)
    have "c\<lparr>line_room := n, line_fault := b\<rparr>
        = c\<lparr>line_in := line_in c, line_late := line_late c, line_room := n, line_fault := b\<rparr>"
      by simp
    then show ?thesis unfolding s0 descriptor by (intro env) blast
  next
    case (entry revents rc c' m')
    then show ?thesis using exchange_inv_entry [OF inv entry(2,3)] by (simp add: s0)
  qed
qed

lemma exchange_inv_start:
  assumes "ok c" and "wf_msg m" and "xmit (frame0 m) = 0" and "0 < flength (frame0 m)"
  shows "exchange_inv (c, m) (c, m)"
  using assms by (simp add: exchange_inv_def in_flight_def)

lemma exchange_invD:
  assumes "exchange_inv (c0, m0) (c, m)"
  shows "wf_msg m" "same_link c0 c" "frame0 m = (frame0 m0)\<lparr>xmit := xmit (frame0 m)\<rparr>"
    "line_out c = line_out c0 @ take (nat (xmit (frame0 m))) (wire (frame0 m0))"
  using assms by (simp_all add: exchange_inv_def in_flight_def)

end

end
