(* ===== verification/Stale.thy ===== *)
theory Stale
  imports Assembly
begin

text \<open>
  A late answer on an RTU line: the response to an earlier request comes in while another
  request waits. It is read to its own end, recognised by its CRC, and stepped over; the answer
  behind it is assembled as if nothing had happened.
\<close>

section \<open>Recognising the stale frame piece by piece\<close>

lemma rtu_frame_size_cong:
  assumes "getb f 1 = getb g 1" and "getb f 2 = getb g 2" and "header_length c = header_length d"
  shows "rtu_frame_size c f = rtu_frame_size d g"
  unfolding rtu_frame_size_def assms ..

lemma rtu_answers_size:
  assumes ok: "rtu_ok c" and ans: "answers c w st"
  shows "rtu_frame_size c (holding st) = int (length st)" "4 \<le> length st"
proof -
  let ?m = "\<lparr>msg_id = 0, req_id = 0, frame0 = w, frame1 = holding st\<rparr>"
  have hl: "header_length c = 3" and cbc: "cb c = modbusmq_rtu_cb" using ok by (auto simp: rtu_ok_def)
  have a: "is_writer w" "wf_frame w" "3 \<le> length st" "length st \<le> 260"
    "\<not> modbusmq_rtu_msg_broadcast ?m" "fst (modbusmq_rtu_msg_check c ?m) = 0"
    using ans hl by (simp_all add: answers_def modbusmq_msg_broadcast_def modbusmq_check_def cbc
        modbusmq_rtu_cb_def Let_def)
  have "wf_msg ?m" using a holding_wf by (simp add: wf_msg_def paired_def)
  then have d: "modbusmq_rtu_frame_drain c (holding st) = (1, holding st)"
    using rtu_accepted_drains [of ?m c] hl a by simp
  have three: "3 \<le> xmit (holding st)" using a(3) by simp
  note sized = rtu_frame_drain_sized [OF three, of c, unfolded d Let_def]
  show "rtu_frame_size c (holding st) = int (length st)" "4 \<le> length st"
    using sized by (simp_all split: if_splits)
qed

lemma rtu_drain_prefix:
  assumes ok: "rtu_ok c" and ans: "answers c w st" and wf: "wf_frame f"
    and rcv: "received f @ xs = st" and three: "3 \<le> xmit f"
  shows "modbusmq_rtu_frame_drain c f =
    (if xmit f < int (length st) then (0, f\<lparr>flength := int (length st)\<rparr>) else (1, f))"
proof -
  note A = rtu_answersD [OF ok ans] and S = rtu_answers_size [OF ok ans]
  have g: "getb f i = getb (holding st) i" if "i < 3" for i
    using getb_prefix [OF rcv wf] that three A(9) by (simp add: getb_holding)
  have size: "rtu_frame_size c f = int (length st)"
    by (rule trans [OF rtu_frame_size_cong S(1)]) (simp_all add: g)
  have x: "xmit f \<le> int (length st)" using length_received [OF wf] rcv by auto
  show ?thesis
  proof (cases "xmit f < int (length st)")
    case True
    then show ?thesis using S(2) A(10) by (simp add: rtu_frame_drain_sized [OF three] size Let_def)
  next
    case False
    then have full: "xmit f = int (length st)" using x by simp
    then have "length (received f) = length st" using length_received [OF wf] by linarith
    then have "received f = st" using rcv by (metis append_Nil2 append_eq_append_conv)
    then have "take (length st) (fbuf f) = st" using full by (simp add: received_def)
    then have "be16 (getb f (nat (int (length st) - 1))) (getb f (nat (int (length st) - 2)))
        = uint (modbusmq_rtu_crc16 (fbuf f) (int (length st) - 2))"
      using frame_crc_residue [of f "int (length st)"] wf_frameD [OF wf] A(6,10) S(2) by simp
    then show ?thesis using full S(2) A(10) by (simp add: rtu_frame_drain_sized [OF three] size Let_def)
  qed
qed

section \<open>One entry while the stale frame comes in\<close>

text \<open>\<open>st\<close> differs from the request in the slave, the function or the byte count.\<close>

definition rtu_foreign :: "modbusmq_frame_t \<Rightarrow> byte list \<Rightarrow> bool" where
  "rtu_foreign w st \<longleftrightarrow>
     \<not> (getb w 0 = st ! 0 \<and> getb w 1 = st ! 1 \<and> rtu_count_ok w (holding st))"

definition skipping ::
    "modbusmq_context_t \<Rightarrow> modbusmq_msg_t \<Rightarrow> byte list \<Rightarrow> byte list \<Rightarrow> byte list \<Rightarrow> bool" where
  "skipping c m st res rest \<longleftrightarrow> rtu_ok c \<and> \<not> line_fault c \<and> wf_msg m \<and> (\<exists>v. answers c v st)
     \<and> answers c (frame0 m) res \<and> rtu_foreign (frame0 m) st
     \<and> xmit (frame0 m) = flength (frame0 m) \<and> req_header_min c \<le> flength (frame0 m)
     \<and> flength (frame1 m) = rtu_target st (xmit (frame1 m)) \<and> xmit (frame1 m) < int (length st)
     \<and> received (frame1 m) @ line_in c @ rest = st @ res"

lemma rtu_foreign_header:
  assumes "paired m" and "rtu_foreign (frame0 m) st" and "(st ! 1 AND 0x80) = 0" and "3 \<le> length st"
    and "wf_frame (frame1 m)" and "received (frame1 m) @ xs = st" and "3 \<le> xmit (frame1 m)"
  shows "fst (modbusmq_rtu_msg_check_header c m) < 0" "snd (modbusmq_rtu_msg_check_header c m) = m"
    "modbusmq_rtu_msg_exception m = 0"
proof -
  have g: "getb (frame1 m) i = st ! i" if "i < 3" for i
    using getb_prefix [OF assms(6,5)] that assms(7) by simp
  have g01: "getb (frame1 m) 0 = st ! 0" "getb (frame1 m) 1 = st ! 1" by (rule g, simp)+
  have h2: "getb (holding st) 2 = st ! 2" using assms(4) by (intro getb_holding) simp
  have co: "rtu_count_ok (frame0 m) (frame1 m) = rtu_count_ok (frame0 m) (holding st)"
    using g [of 2] h2 by (intro rtu_count_ok_cong) simp
  have ne: "st ! 1 \<noteq> (getb (frame0 m) 1 OR 0x80)"
  proof
    assume "st ! 1 = (getb (frame0 m) 1 OR 0x80)"
    then have "(st ! 1 AND 0x80) = (0x80 :: byte)" by simp
    then show False using assms(3) by simp
  qed
  have eq: "modbusmq_rtu_msg_check_header c m =
      (if getb (frame0 m) 0 \<noteq> st ! 0 then (-2, m)
       else if getb (frame0 m) 1 = st ! 1 then (-4, m) else (-3, m))"
    unfolding rtu_check_header_paired [OF assms(1)] Let_def g01 co
    using assms(2,7) ne unfolding rtu_foreign_def not_less [symmetric]
    by (cases "getb (frame0 m) 0 = st ! 0"; cases "getb (frame0 m) 1 = st ! 1") simp_all
  then show "fst (modbusmq_rtu_msg_check_header c m) < 0" "snd (modbusmq_rtu_msg_check_header c m) = m"
    by simp_all
  have flag: "((getb (frame1 m) 1 AND 0x80) = 0) = True" unfolding g01 using assms(3) by simp
  show "modbusmq_rtu_msg_exception m = 0"
    unfolding modbusmq_rtu_msg_exception_def modbusmq_rtu_frame_exception_def Let_def flag
    by (simp only: if_True if_cancel order_refl)
qed

lemma stepped_over:
  assumes "\<not> cb_msg_exception (cb c) m > 0"
  shows "modbusmq_frame_drain c (frame1 m) = (0, r) \<Longrightarrow>
      mismatch_step c m 0 1 = pending c (m\<lparr>frame1 := r\<rparr>) 0 1"
    and "modbusmq_frame_drain c (frame1 m) = (1, r) \<Longrightarrow>
      mismatch_step c m 0 1 = pending c (m\<lparr>frame1 := fresh_reader c\<rparr>) 0 1"
  using assms by (simp_all add: mismatch_step_def Let_def)

text \<open>
  One entry: more of the stale frame, or its end. At its end the reader is armed afresh and
  nothing else has changed: no error is counted, nothing is flushed.
\<close>

lemma skipping_step:
  assumes a: "skipping c m st res rest"
    and step: "modbusmq_handle_write_read c m POLLIN = (rc, c', m')"
  defines "k \<equiv> min (rtu_target st (xmit (frame1 m))) (xmit (frame1 m) + int (length (line_in c)))"
  shows "0 < rc"
    and "k = int (length st) \<longrightarrow> rtu_stream.assembling c' m' res rest \<and> xmit (frame1 m') = 0"
    and "k < int (length st) \<longrightarrow> skipping c' m' st res rest \<and> xmit (frame1 m') = k"
proof -
  have A: "rtu_ok c" "\<not> line_fault c" "wf_msg m" "answers c (frame0 m) res" "rtu_foreign (frame0 m) st"
    "xmit (frame0 m) = flength (frame0 m)" "req_header_min c \<le> flength (frame0 m)"
    "flength (frame1 m) = rtu_target st (xmit (frame1 m))" "xmit (frame1 m) < int (length st)"
    "received (frame1 m) @ line_in c @ rest = st @ res"
    using a by (simp_all add: skipping_def)
  obtain v where v: "answers c v st" using a by (auto simp: skipping_def)
  let ?f = "frame1 m" and ?c = "c\<lparr>ticks := Suc (ticks c), last_read_ms := clock c (ticks c)\<rparr>"
  note p = wf_msgD(1) [OF A(3)] and f = wf_frameD [OF wf_msgD(3) [OF A(3)]] and S = rtu_answersD [OF A(1) v]
  have sc: "same_link c ?c" by (simp add: same_link_def)
  have okc: "rtu_ok ?c" by (rule rtu_loop.ok_same [OF sc A(1)])
  have nw: "\<not> is_writer ?f" using p by (simp add: paired_def)
  have room: "0 < flength ?f" "xmit ?f < flength ?f" "flength ?f \<le> int (length st)" "flength ?f \<noteq> 0"
    using A(8,9) S(9) f(2) by (auto simp: rtu_target_def)
  obtain rt where rd: "modbusmq_read ?c ?f = modbusmq_rtu_read rt ?c ?f" using modbusmq_read_rtu [OF okc] by blast
  obtain n c2 f' where rr: "modbusmq_rtu_read rt ?c ?f = (n, c2, f')"
    and n: "n = min (flength ?f - xmit ?f) (int (length (line_in c)))"
    using rtu_read_total [OF _ nw room(4) f(3), of ?c rt] A(2) by fastforce
  have n0: "0 \<le> n" unfolding n using f by simp
  note eff = rtu_read_effect [OF wf_msgD(3) [OF A(3)] nw room(4) rr n0]
  have x: "xmit f' = k" using eff(1) A(8) unfolding k_def n by (auto simp: read_effect_def)
  have kle: "k \<le> int (length st)" using room A(8) unfolding k_def by simp
  have "received f' @ line_in c2 = received ?f @ line_in c" using eff(1) by (auto simp: read_effect_def)
  then have rcv: "received f' @ line_in c2 @ rest = st @ res" using A(10) by (metis append.assoc)
  have lr: "int (length (received f')) = k" using length_received [OF eff(2)] x by simp
  obtain xs where xs: "received f' @ xs = st" "line_in c2 @ rest = xs @ res"
    using rcv [unfolded append_eq_append_conv2] lr kle by fastforce
  have c2: "c2 = ?c\<lparr>line_in := line_in c2\<rparr>" using eff(1) unfolding read_effect_def by blast
  have s2: "same_link c c2" by (subst c2) (simp add: same_link_def)
  have nf: "\<not> line_fault c2" using A(2) by (subst c2) simp
  have ok2: "rtu_ok c2" by (rule rtu_loop.ok_same [OF s2 A(1)])
  note ans2 = answers_same_link [OF s2]
  have nw': "\<not> is_writer f'" using eff(1) nw by (auto simp: read_effect_def)
  let ?m = "m\<lparr>frame1 := f'\<rparr>"
  have p': "paired ?m" using p nw' by (simp add: paired_def)
  have entry: "modbusmq_handle_write_read c m 1 = read_step c m 0 1"
    by (rule read_entry [OF A(3,6,7) room(1,2)])
  have cb2: "cb c2 = modbusmq_rtu_cb" using ok2 by (auto simp: rtu_ok_def)
  have on: "skipping c2 (m\<lparr>frame1 := g\<rparr>) st res rest"
    if "wf_frame g" "\<not> is_writer g" "received g = received f'" "xmit g = k"
      "flength g = rtu_target st k" "k < int (length st)" for g
    using that wf_put_frame(2) [OF A(3)] ok2 nf v A(4-7) ans2 s2 rcv
    by (auto simp: skipping_def same_link_def)
  have pend: "pending c2 (m\<lparr>frame1 := g\<rparr>) 0 1 = (flength g - xmit g, c2, m\<lparr>frame1 := g\<rparr>)"
    if "xmit g < flength g" for g
    using that A(6) by (simp add: pending_def pending_bytes_def Let_def)
  have "0 < rc \<and> (k = int (length st) \<longrightarrow> rtu_stream.assembling c' m' res rest \<and> xmit (frame1 m') = 0)
      \<and> (k < int (length st) \<longrightarrow> skipping c' m' st res rest \<and> xmit (frame1 m') = k)"
  proof (cases "k < 3")
    case True
    have h: "modbusmq_check_header c2 ?m = (1, ?m)"
      using True x rtu_check_header_paired [OF p', of c2] by (simp add: modbusmq_check_header_def cb2 modbusmq_rtu_cb_def)
    have fl: "flength f' = 3" "k < int (length st)"
      using eff(3) A(8) True x eff(1) n0 S(9) by (auto simp: rtu_target_def read_effect_def)
    have "(rc, c', m') = (if n \<noteq> 0 then n else 3 - k, c2, ?m)"
      using step entry read_step_eq [OF rd [unfolded rr] h] n0 pend [of f'] x fl True by simp
    then show ?thesis using n0 True on [OF eff(2) nw' refl x] fl x by (simp add: rtu_target_def)
  next
    case False
    have three: "3 \<le> xmit (frame1 ?m)" using False x by simp
    have "rtu_foreign (frame0 ?m) st" "wf_frame (frame1 ?m)" "received (frame1 ?m) @ xs = st"
      using A(5) eff(2) xs(1) by simp_all
    note fh = rtu_foreign_header [OF p' this(1) S(3) S(9) this(2,3) three]
    obtain h where h: "modbusmq_check_header c2 ?m = (h, ?m)" "h < 0"
      using fh(1,2) [of c2] by (cases "modbusmq_rtu_msg_check_header c2 ?m")
        (simp add: modbusmq_check_header_def cb2 modbusmq_rtu_cb_def)
    have ms: "mismatch_step c2 ?m 0 1 = (rc, c', m')"
      using step entry read_step_eq [OF rd [unfolded rr] h(1)] h(2) n0 by simp
    have vs: "answers c2 v st" using v ans2 by simp
    note dp = rtu_drain_prefix [OF ok2 vs eff(2) xs(1) three [simplified]]
    let ?g = "f'\<lparr>flength := int (length st)\<rparr>"
    have dr: "modbusmq_frame_drain c2 (frame1 ?m) = (if k < int (length st) then (0, ?g) else (1, f'))"
      using dp x by (simp add: modbusmq_frame_drain_def cb2 modbusmq_rtu_cb_def)
    have ex: "\<not> cb_msg_exception (cb c2) ?m > 0" using fh(3) by (simp add: cb2 modbusmq_rtu_cb_def)
    show ?thesis
    proof (cases "k < int (length st)")
      case True
      have "(rc, c', m') = pending c2 (m\<lparr>frame1 := ?g\<rparr>) 0 1"
        using stepped_over(1) [OF ex dr [unfolded if_P [OF True]]] ms by simp
      moreover have "wf_frame ?g" using wf_frameD [OF eff(2)] x True S(10) by (simp add: wf_frame_def MODBUSMQ_FRAME_MAX_def)
      ultimately show ?thesis
        using pend [of ?g] on [of ?g] True False x nw' by (simp add: rtu_target_def received_def)
    next
      case whole: False
      then have k: "k = int (length st)" using kle by simp
      let ?r = "fresh_reader c2"
      have hl: "header_length c2 = 3" using ok2 by (auto simp: rtu_ok_def)
      have fr: "xmit ?r < flength ?r" using hl by simp
      have "(rc, c', m') = pending c2 (m\<lparr>frame1 := ?r\<rparr>) 0 1"
        using stepped_over(2) [OF ex dr [unfolded if_not_P [OF whole]]] ms by simp
      then have out: "rc = 3" "c' = c2" "m' = m\<lparr>frame1 := ?r\<rparr>" using pend [OF fr] hl by simp_all
      have "length (received f') = length st" using lr k by linarith
      then have "line_in c2 @ rest = res" using xs by (metis append_Nil append_eq_append_conv append_Nil2)
      moreover have "wf_msg (m\<lparr>frame1 := ?r\<rparr>)"
        using wf_put_frame(2) [OF A(3) rtu_loop.fresh_window(1) [OF ok2]] by simp
      moreover have a2: "answers c2 (frame0 m) res" using A(4) ans2 by simp
      moreover have "0 < int (length res)" using rtu_answersD(9) [OF ok2 a2] by linarith
      ultimately have "rtu_stream.assembling c2 (m\<lparr>frame1 := ?r\<rparr>) res rest"
        using ok2 nf A(6,7) s2 hl by (simp add: rtu_stream.assembling_def rtu_target_def same_link_def)
      then show ?thesis using out whole by simp
    qed
  qed
  then show "0 < rc" "k = int (length st) \<longrightarrow> rtu_stream.assembling c' m' res rest \<and> xmit (frame1 m') = 0"
    "k < int (length st) \<longrightarrow> skipping c' m' st res rest \<and> xmit (frame1 m') = k" by blast+
qed

section \<open>The whole run\<close>

lemma skipping_arrival:
  assumes "skipping c m st res (b @ rest)"
  shows "skipping (c\<lparr>line_in := line_in c @ b\<rparr>) m st res rest"
proof -
  have "same_link c (c\<lparr>line_in := line_in c @ b\<rparr>)" by (simp add: same_link_def)
  then show ?thesis
    using assms rtu_loop.ok_same answers_same_link by (auto simp: skipping_def)
qed

lemma skipping_k:
  assumes "skipping c m st res rest"
  shows "min (rtu_target st (xmit (frame1 m))) (xmit (frame1 m) + int (length (line_in c))) \<le> int (length st)"
proof -
  obtain v where "rtu_ok c" "answers c v st" using assms by (auto simp: skipping_def)
  then have "3 \<le> length st" by (rule rtu_answersD(9))
  then show ?thesis by (simp add: rtu_target_def min_le_iff_disj)
qed

lemma skipping_keeps:
  assumes "skipping c m st res (concat bs @ rest)" and "deliver c m bs = (rc, c', m')"
  shows "(rc = 0 \<and> rtu_stream.assembled c' m' res \<and> rest = [])
    \<or> (0 < rc \<and> (skipping c' m' st res rest \<or> rtu_stream.assembling c' m' res rest))"
  using assms
proof (induction bs arbitrary: c m)
  case (Cons b bs)
  let ?c = "c\<lparr>line_in := line_in c @ b\<rparr>"
  have a: "skipping ?c m st res (concat bs @ rest)"
    by (rule skipping_arrival) (use Cons.prems(1) in simp)
  obtain rc1 c1 m1 where h: "modbusmq_handle_write_read ?c m POLLIN = (rc1, c1, m1)"
    by (cases "modbusmq_handle_write_read ?c m POLLIN")
  note st = skipping_step [OF a h] and k = skipping_k [OF a]
  have d: "deliver c1 m1 bs = (rc, c', m')" using Cons.prems(2) st(1) by (simp add: h)
  consider "skipping c1 m1 st res (concat bs @ rest)" | "rtu_stream.assembling c1 m1 res (concat bs @ rest)"
    using st(2,3) k by linarith
  then show ?case
  proof cases
    case 1
    then show ?thesis by (rule Cons.IH [OF _ d])
  next
    case 2
    then show ?thesis using rtu_stream.deliver_keeps [OF 2 d] by blast
  qed
qed simp

lemma skipping_done:
  assumes "skipping c m st res res'" and "res' = []"
  shows "\<exists>c' m'. deliver c m [[], [], [], []] = (0, c', m') \<and> rtu_stream.assembled c' m' res"
proof -
  have whole: "xmit (frame1 x) + int (length (line_in d)) \<ge> int (length st)" if "skipping d x st res []" for d x
  proof -
    have "received (frame1 x) @ line_in d = st @ res" "wf_msg x" using that by (simp_all add: skipping_def)
    then have "length (received (frame1 x)) + length (line_in d) = length st + length res"
      by (metis length_append)
    then show ?thesis using length_received [OF wf_msgD(3) [OF \<open>wf_msg x\<close>]] by linarith
  qed
  have a: "skipping c m st res []" using assms by simp
  obtain v where v: "rtu_ok c" "answers c v st" using a by (auto simp: skipping_def)
  have t: "rtu_target st k = (if k < 3 then 3 else int (length st))" for k by (simp add: rtu_target_def)
  have finish: "\<exists>c' m'. deliver d x (ds @ [[], []]) = (0, c', m') \<and> rtu_stream.assembled c' m' res"
    if "rtu_stream.assembling d x res []" "concat ds = []" for d x ds
    by (rule rtu_stream.deliver_assembles) (simp only: that)
  obtain rc1 c1 m1 where h: "modbusmq_handle_write_read c m POLLIN = (rc1, c1, m1)"
    by (cases "modbusmq_handle_write_read c m POLLIN")
  note s1 = skipping_step [OF a h]
  have d1: "deliver c m ([] # ds) = deliver c1 m1 ds" for ds using s1(1) h by simp
  show ?thesis
  proof (cases "rtu_target st (xmit (frame1 m)) = int (length st)")
    case True
    then have "rtu_stream.assembling c1 m1 res []" using s1(2) whole [OF a] by simp
    then show ?thesis unfolding d1 using finish [of c1 m1 "[[]]"] by simp
  next
    case False
    then have lt: "rtu_target st (xmit (frame1 m)) = 3" "3 < int (length st)"
      using rtu_answersD(9) [OF v] by (auto simp: t split: if_splits)
    then have a1: "skipping c1 m1 st res []" "xmit (frame1 m1) = 3" using s1(3) whole [OF a] by auto
    obtain rc2 c2 m2 where h2: "modbusmq_handle_write_read c1 m1 POLLIN = (rc2, c2, m2)"
      by (cases "modbusmq_handle_write_read c1 m1 POLLIN")
    note s2 = skipping_step [OF a1(1) h2]
    have d2: "deliver c1 m1 ([] # ds) = deliver c2 m2 ds" for ds using s2(1) h2 by simp
    have "rtu_stream.assembling c2 m2 res []" using s2(2) whole [OF a1(1)] a1(2) by (simp add: t)
    then show ?thesis unfolding d1 d2 using finish [of c2 m2 "[]"] by simp
  qed
qed

lemma skipping_assembles:
  assumes "skipping c m st res (concat bs)"
  shows "\<exists>c' m'. deliver c m (bs @ [[], [], [], []]) = (0, c', m') \<and> rtu_stream.assembled c' m' res"
proof -
  obtain rc c1 m1 where d: "deliver c m bs = (rc, c1, m1)" by (cases "deliver c m bs")
  have "(rc = 0 \<and> rtu_stream.assembled c1 m1 res \<and> [] = ([] :: byte list))
    \<or> (0 < rc \<and> (skipping c1 m1 st res [] \<or> rtu_stream.assembling c1 m1 res []))"
    by (rule skipping_keeps [OF _ d]) (use assms in simp)
  then show ?thesis
    using skipping_done [of c1 m1 st res "[]"] rtu_stream.deliver_assembles [of c1 m1 res "[[], []]"]
    by (auto simp: rtu_stream.deliver_append d)
qed

end
