(* ===== verification/Subscribe.thy ===== *)
theory Subscribe
  imports Backoff_Facts
begin

text \<open>
  Subscriptions: \<open>modbusmq_msg_input\<close> and \<open>modbusmq_subscribe\<close> of lib/modbusmq.c, with
  the three ways a timer joins the list (parallel, series, rounds).
\<close>

abbreviation (input) MODBUSMQ_INTERVAL_ONCE :: int where "MODBUSMQ_INTERVAL_ONCE \<equiv> - 1"
abbreviation (input) MODBUSMQ_ONCE_RETRY_MS :: millitime_t where "MODBUSMQ_ONCE_RETRY_MS \<equiv> 10000"

definition modbusmq_msg_input :: "modbusmq_context_t \<Rightarrow> modbusmq_msg_t \<Rightarrow> modbusmq_input_t option" where
  "modbusmq_msg_input c m =
     (case config c of None \<Rightarrow> None
      | Some cfg \<Rightarrow>
          (let function = modbusmq_frame_function c (frame0 m);
               address = modbusmq_frame_addr c (frame0 m);
               slave = modbusmq_frame_slave c (frame0 m)
           in find (\<lambda>i. in_slave i = slave \<and> in_type i = function
                        \<and> in_address i + in_address_offset i = address) (inputs cfg)))"

text \<open>
  Parallel mode: in front of the head when the interval is shorter than the head's, otherwise
  before the first element with a longer interval, otherwise at the end.
\<close>

fun insert_before_longer :: "modbusmq_timer_t \<Rightarrow> modbusmq_timer_t list \<Rightarrow> modbusmq_timer_t list" where
  "insert_before_longer t [] = [t]"
| "insert_before_longer t (e # es) =
     (if timer_interval t < timer_interval e then t # e # es else e # insert_before_longer t es)"

text \<open>
  Series mode: append, start one own interval after the tail, and give every timer that is
  not a once read the sum of all intervals.
\<close>

definition insert_series :: "modbusmq_timer_t \<Rightarrow> modbusmq_timer_t list \<Rightarrow> modbusmq_timer_t list" where
  "insert_series t ts =
     (let total = sum_list (map orig_interval ts) + orig_interval t;
          t = t\<lparr>timer_next_time := timer_next_time (last ts) + orig_interval t\<rparr>
      in map (\<lambda>e. if is_once e then e else e\<lparr>timer_interval := total\<rparr>) (ts @ [t]))"

definition timer_add ::
    "modbusmq_query_mode_e \<Rightarrow> modbusmq_timer_t \<Rightarrow> modbusmq_timer_t list \<Rightarrow> modbusmq_timer_t list" where
  "timer_add mode t ts =
     (case ts of [] \<Rightarrow> [t]
      | h # rest \<Rightarrow>
          if is_once t \<and> mode \<noteq> query_mode_rounds then t # ts
          else (case mode of
                  query_mode_rounds \<Rightarrow> ts @ [t]
                | query_mode_parallell \<Rightarrow>
                    insert_before_longer
                      (t\<lparr>timer_start := timer_start h, timer_next_time := timer_start h\<rparr>) ts
                | query_mode_series \<Rightarrow> insert_series (t\<lparr>timer_start := timer_start h\<rparr>) ts))"

text \<open>
  An interval that is neither positive nor \<open>MODBUSMQ_INTERVAL_ONCE\<close> is an assertion failure
  outside rounds mode, \<open>None\<close> here.
\<close>

definition modbusmq_subscribe ::
    "modbusmq_context_t \<Rightarrow> modbusmq_msg_t \<Rightarrow> int \<Rightarrow> (int \<times> modbusmq_context_t) option" where
  "modbusmq_subscribe c m interval =
     (case config c of None \<Rightarrow> Some (-1, c)
      | Some cfg \<Rightarrow>
          (let mode = query_mode cfg; rounds = (mode = query_mode_rounds)
           in if \<not> rounds \<and> \<not> (interval > 0 \<or> interval = MODBUSMQ_INTERVAL_ONCE) then None
              else
                (let (tid, c) = modbusmq_timer_id c;
                     (start, c) = millitime c;
                     once = (interval = MODBUSMQ_INTERVAL_ONCE);
                     t = \<lparr>timer_id = tid, timer_start = start, timer_next_time = start,
                          timer_interval = (if once then MODBUSMQ_ONCE_RETRY_MS else word_of_int interval),
                          orig_interval = (if once then 0 else word_of_int interval),
                          timer_tier = tier_fast,
                          timer_slave = modbusmq_frame_slave c (frame0 m),
                          is_once = once, misses = 0, unresponsive = False, retry_ms = 0,
                          retry_at = 0, tmsg = m\<rparr>;
                     t = (if rounds then
                            (case modbusmq_msg_input c m of
                               None \<Rightarrow> t | Some i \<Rightarrow> t\<lparr>timer_tier := in_tier i\<rparr>)
                          else t)
                 in Some (0, c\<lparr>timers := timer_add mode t (timers c)\<rparr>))))"

end
