(* ===== verification/Rounds.thy ===== *)
theory Rounds
  imports Loop Subscribe
begin

text \<open>
  The polling half of the event loop of lib/modbusmq.c: the rounds mode
  (\<open>modbusmq_round_busy\<close> to \<open>modbusmq_round_start\<close>), the timer walk of
  \<open>modbusmq_loop_prepare_subscription\<close> and \<open>modbusmq_loop_prepare\<close>.
\<close>

section \<open>Rounds\<close>

definition modbusmq_round_busy :: "modbusmq_context_t \<Rightarrow> bool" where
  "modbusmq_round_busy c \<longleftrightarrow> (\<exists>w \<in> set (msg_queue c). flags w = MODBUSMQ_MSG_SUBSCRIBE)"

text \<open>
  The slaves with deep inputs in config order, each once. An unresponsive one is asked for the
  time and left out until its probe is due; \<open>seen\<close> keeps the slaves already taken.
\<close>

fun deep_order ::
    "modbusmq_context_t \<Rightarrow> int list \<Rightarrow> modbusmq_timer_t list \<Rightarrow> int list \<times> modbusmq_context_t" where
  "deep_order c seen [] = ([], c)"
| "deep_order c seen (t # ts) =
     (if timer_tier t \<noteq> tier_deep \<or> timer_slave t < 0 \<or> timer_slave t > 255
         \<or> timer_slave t \<in> set seen
      then deep_order c seen ts
      else
        (let (wait, c) = (if unresponsive t
                          then (let (now, c) = millitime c in (now < retry_at t, c)) else (False, c))
         in if wait then deep_order c seen ts
            else (let (order, c) = deep_order c (timer_slave t # seen) ts
                  in (timer_slave t # order, c))))"

text \<open>The slave after the one of the last round, wrapping, or the first.\<close>

fun next_in :: "int \<Rightarrow> int list \<Rightarrow> int list \<Rightarrow> int" where
  "next_in cur order [] = hd order"
| "next_in cur order (s # ss) =
     (if s = cur then (case ss of [] \<Rightarrow> hd order | n # _ \<Rightarrow> n) else next_in cur order ss)"

definition modbusmq_round_next_deep_slave :: "modbusmq_context_t \<Rightarrow> int \<times> modbusmq_context_t" where
  "modbusmq_round_next_deep_slave c =
     (let (order, c) = deep_order c [] (timers c)
      in if order = [] then (-1, c) else (next_in (round_deep_slave c) order order, c))"

text \<open>
  The timer a loop is at, by its position: the gate and the post change the list under it.
\<close>

definition round_post_one ::
    "modbusmq_tier_e \<Rightarrow> int \<Rightarrow> nat \<Rightarrow> modbusmq_context_t \<Rightarrow> modbusmq_context_t" where
  "round_post_one tier slave i c =
     (let elem = timers c ! i
      in if timer_tier elem \<noteq> tier \<or> (slave \<ge> 0 \<and> timer_slave elem \<noteq> slave) then c
         else if is_once elem \<and> timer_next_time elem = -1 then c
         else
           (let (now, c) = millitime c;
                (open, ts) = modbusmq_slave_gate (timers c) elem now;
                c = c\<lparr>timers := ts\<rparr>
            in if \<not> open then c
               else
                 (let m = (tmsg (timers c ! i))\<lparr>msg_id := timer_id elem\<rparr>;
                      (rc, c, m) = modbusmq_post_internal c m MODBUSMQ_MSG_SUBSCRIBE
                  in c\<lparr>timers := (timers c)[i := (timers c ! i)\<lparr>tmsg := m\<rparr>]\<rparr>)))"

definition modbusmq_round_post ::
    "modbusmq_tier_e \<Rightarrow> int \<Rightarrow> modbusmq_context_t \<Rightarrow> modbusmq_context_t" where
  "modbusmq_round_post tier slave c = fold (round_post_one tier slave) [0..<length (timers c)] c"

definition start_round :: "millitime_t \<Rightarrow> modbusmq_context_t \<Rightarrow> modbusmq_context_t" where
  "start_round time_now c =
     (let (deep_slave, c) = modbusmq_round_next_deep_slave c;
          c = c\<lparr>round_active := True, round_start_ms := time_now, round_count := round_count c + 1\<rparr>;
          c = modbusmq_round_post tier_fast (-1) c;
          c = (if deep_slave \<ge> 0
               then (modbusmq_round_post tier_deep deep_slave c)\<lparr>round_deep_slave := deep_slave\<rparr> else c)
      in if round_focus c \<ge> 0 \<and> round_focus c \<noteq> deep_slave
         then modbusmq_round_post tier_deep (round_focus c) c else c)"

definition modbusmq_loop_prepare_rounds ::
    "modbusmq_config_t \<Rightarrow> modbusmq_context_t \<Rightarrow> millitime_t \<Rightarrow> modbusmq_context_t \<times> millitime_t" where
  "modbusmq_loop_prepare_rounds cfg c sleep_time =
     (let millisleep = (if sleep_time > 0 then sleep_time else 1000);
          (time_now, c) = millitime c;
          c = (if round_active c \<and> \<not> modbusmq_round_busy c
               then c\<lparr>round_active := False, round_last_ms := time_now - round_start_ms c\<rparr> else c)
      in if \<not> round_active c \<and> timers c \<noteq> [] then
           (let due = round_start_ms c + word_of_int (round_interval_ms cfg)
            in if time_now \<ge> due then (start_round time_now c, millisleep)
               else (c, min millisleep (due - time_now)))
         else (c, millisleep))"

definition modbusmq_set_focus :: "modbusmq_context_t \<Rightarrow> int \<Rightarrow> int \<times> modbusmq_context_t" where
  "modbusmq_set_focus c slave =
     (case config c of
        None \<Rightarrow> (-1, c)
      | Some cfg \<Rightarrow>
          if query_mode cfg \<noteq> query_mode_rounds then (-1, c)
          else if slave = -1 then (0, c\<lparr>round_focus := -1\<rparr>)
          else if \<exists>t \<in> set (timers c). timer_tier t = tier_deep \<and> timer_slave t = slave
          then (0, c\<lparr>round_focus := slave\<rparr>)
          else (-1, c))"

definition modbusmq_module_slave :: "modbusmq_context_t \<Rightarrow> int \<Rightarrow> int" where
  "modbusmq_module_slave c index =
     (case config c of
        None \<Rightarrow> -1
      | Some cfg \<Rightarrow>
          if index < 0 \<or> index \<ge> module_count cfg then -1 else module_slave_first cfg + index)"

definition modbusmq_get_focus :: "modbusmq_context_t \<Rightarrow> int" where
  "modbusmq_get_focus c = round_focus c"

definition modbusmq_round_stats :: "modbusmq_context_t \<Rightarrow> u32 \<times> int" where
  "modbusmq_round_stats c = (round_count c, sint (ucast (round_last_ms c) :: u32))"

definition modbusmq_round_start :: "modbusmq_context_t \<Rightarrow> int \<times> millitime_t" where
  "modbusmq_round_start c = (0, round_start_ms c)"

section \<open>The timer walk\<close>

definition poll_queued :: "modbusmq_context_t \<Rightarrow> int \<Rightarrow> bool" where
  "poll_queued c tid \<longleftrightarrow> (\<exists>w \<in> set (msg_queue c). msg_id (wmsg w) = tid)"

definition walk_one ::
    "millitime_t \<Rightarrow> nat \<Rightarrow> modbusmq_context_t \<times> millitime_t \<Rightarrow> modbusmq_context_t \<times> millitime_t" where
  "walk_one time_now i s =
     (let (c, millisleep) = s; elem = timers c ! i;
          c = (if timer_next_time elem \<le> time_now \<and> \<not> poll_queued c (timer_id elem) then
                 (let (open, ts) = modbusmq_slave_gate (timers c) elem time_now;
                      c = c\<lparr>timers := ts\<rparr>;
                      c = (if open then
                             (let m = (tmsg (timers c ! i))\<lparr>msg_id := timer_id elem\<rparr>;
                                  (rc, c, m) = modbusmq_post_internal c m MODBUSMQ_MSG_SUBSCRIBE
                              in c\<lparr>timers := (timers c)[i := (timers c ! i)\<lparr>tmsg := m\<rparr>]\<rparr>)
                           else c);
                      t = timers c ! i
                  in c\<lparr>timers := (timers c)[i := t\<lparr>timer_next_time := timer_next_time t + timer_interval t\<rparr>]\<rparr>)
               else c)
      in (c, min millisleep (timer_next_time (timers c ! i) - time_now)))"

definition prepare_walk :: "modbusmq_context_t \<Rightarrow> millitime_t \<Rightarrow> modbusmq_context_t \<times> millitime_t" where
  "prepare_walk c sleep_time =
     (let millisleep = (if sleep_time > 0 then sleep_time else 1000)
      in if timers c = [] then (c, millisleep)
         else (let (time_now, c) = millitime c
               in fold (walk_one time_now) [0..<length (timers c)] (c, millisleep)))"

definition modbusmq_loop_prepare_subscription ::
    "modbusmq_context_t \<Rightarrow> millitime_t \<Rightarrow> modbusmq_context_t \<times> millitime_t" where
  "modbusmq_loop_prepare_subscription c sleep_time =
     (case config c of
        Some cfg \<Rightarrow>
          if query_mode cfg = query_mode_rounds then modbusmq_loop_prepare_rounds cfg c sleep_time
          else prepare_walk c sleep_time
      | None \<Rightarrow> prepare_walk c sleep_time)"

section \<open>Preparing a poll\<close>

text \<open>The head of the queue that waited too long, before or after it went out.\<close>

definition expire_head :: "modbusmq_context_t \<Rightarrow> modbusmq_context_t" where
  "expire_head c =
     (case msg_queue c of [] \<Rightarrow> c
      | w # ws \<Rightarrow>
          (let (time_now, c) = millitime c;
               w = (if head_since_ms w = 0 then w\<lparr>head_since_ms := time_now\<rparr> else w);
               c = c\<lparr>msg_queue := w # ws\<rparr>;
               head_writer = writer_of (wmsg w);
               request_sent = (flength head_writer > 0 \<and> xmit head_writer = flength head_writer)
           in if request_sent \<and> time_now - last_write_ms c \<ge> frame_timeout_ms c then
                (let c = drop_head (modbusmq_report_error c (wmsg w) MODBUSMQ_ERR_TIMEOUT);
                     c = c\<lparr>err := err c + 1, tx := tx c + 1, last_write_ms := 0, last_read_ms := time_now\<rparr>
                 in (snd (modbusmq_flush c))\<lparr>resync_pending := True\<rparr>)
              else if \<not> request_sent \<and> time_now - head_since_ms w \<ge> frame_timeout_ms c then
                (let c = drop_head (modbusmq_report_error c (wmsg w) MODBUSMQ_ERR_TIMEOUT);
                     c = c\<lparr>err := err c + 1, last_write_ms := 0\<rparr>
                 in (snd (modbusmq_flush c))\<lparr>resync_pending := True\<rparr>)
              else c))"

text \<open>
  The writer and the reader of the head are marked as such again; when neither frame is
  marked the second one becomes the writer.
\<close>

definition mark_frames :: "modbusmq_msg_t \<Rightarrow> modbusmq_msg_t" where
  "mark_frames m =
     (if is_writer (frame0 m) then m\<lparr>frame1 := (frame1 m)\<lparr>is_writer := False\<rparr>\<rparr>
      else m\<lparr>frame1 := (frame1 m)\<lparr>is_writer := True\<rparr>, frame0 := (frame0 m)\<lparr>is_writer := False\<rparr>\<rparr>)"

text \<open>The descriptor to poll, the sleep time and the event mask.\<close>

definition modbusmq_loop_prepare ::
    "modbusmq_context_t \<Rightarrow> millitime_t \<Rightarrow> int \<times> modbusmq_context_t \<times> millitime_t \<times> int" where
  "modbusmq_loop_prepare c sleep_time =
     (if fd c < 0 then (-1, c, sleep_time, 0)
      else
        (let c = expire_head c;
             (c, sleep_time) = modbusmq_loop_prepare_subscription c sleep_time
         in case msg_queue c of
              [] \<Rightarrow> (fd c, c, sleep_time, 0)
            | w # ws \<Rightarrow>
                (let m = mark_frames (wmsg w); c = set_head m c;
                     wi = writer_ix m; ri = reader_ix m
                 in if modbusmq_frame_incomplete c (frame_at m wi) \<noteq> 0 then
                      (if xmit (frame_at m wi) = 0 then
                         (let (now, c) = millitime c; delay_left = modbusmq_frame_delay_left c now
                          in if delay_left > 0
                             then (fd c, c, if delay_left < sleep_time then delay_left else sleep_time, 0)
                             else (fd c, c, sleep_time, POLLOUT))
                       else (fd c, c, sleep_time, POLLOUT))
                    else if modbusmq_frame_incomplete c (frame_at m ri) \<noteq> 0
                    then (fd c, c, sleep_time, POLLIN)
                    else (fd c, c, sleep_time, 0))))"

end
