(* ===== verification/Exchange_Props.thy ===== *)
theory Exchange_Props
  imports Link_Props Exchange Stale Rounds
begin

text \<open>
  Properties of one exchange as the event loop sees it: assembling the response from the
  pieces in which it arrives, stepping over a late answer, what an entry of the loop may
  conclude, and the quiet gap in front of a request.
\<close>

lemma sample_rtu_ok: "rtu_ok sample_rtu" "\<not> line_fault sample_rtu" "line_in sample_rtu = []"
    "clock sample_rtu = (\<lambda>n. of_nat n + 1)" "config sample_rtu = None"
  by (simp_all add: sample_rtu_def modbusmq_rtu_context_def context_zero_def rtu_ok_def Let_def)

lemma sample_tcp_ok: "tcp_ok sample_tcp" "\<not> line_fault sample_tcp" "line_in sample_tcp = []"
proof -
  have "header_length sample_tcp = 8" "req_header_min sample_tcp = 6" "res_header_min sample_tcp = 6"
    by (code_simp, code_simp, code_simp)
  moreover have "link sample_tcp = Tcp \<lparr>tcp_hostname = ''plc'', tcp_port = 502, transaction_id = 0\<rparr>"
    by code_simp
  ultimately show "tcp_ok sample_tcp" by (simp add: tcp_ok_def wf_tcp_def)
  show "\<not> line_fault sample_tcp" "line_in sample_tcp = []" by (code_simp, code_simp)
qed

text \<open>A request that is out, with the reader the loop arms for it.\<close>

definition waiting :: "modbusmq_context_t \<Rightarrow> byte list \<Rightarrow> modbusmq_msg_t" where
  "waiting c req = (exchange req [])\<lparr>frame1 := fresh_reader c\<rparr>"

section \<open>Assembling the response\<close>

text \<open>
  C3. Once a request is out on an RTU line, the response that the acceptance check accepts is
  assembled byte for byte, however it is cut into pieces: the loop, entered once per piece
  and at most twice more, ends the exchange, and its acceptance check passes.
\<close>

theorem rtu_response_assembled:
  assumes "rtu_ok c" and "\<not> line_fault c" and "line_in c = []"
    and "answers c (frame0 m) (concat pieces)" and "8 \<le> flength (frame0 m)" and "frame1 m = fresh_reader c"
  shows "\<exists>c' m'. deliver c m (pieces @ [[], []]) = (0, c', m')
           \<and> received (frame1 m') = concat pieces \<and> fst (modbusmq_check c' m') = 0"
proof -
  have "xmit (frame0 m) = flength (frame0 m)" by (rule rtu_answersD(7) [OF assms(1,4)])
  moreover have "req_header_min c \<le> flength (frame0 m)" using assms(1,5) by (simp add: rtu_ok_def)
  ultimately have "rtu_stream.assembling c m (concat pieces) (concat pieces)"
    by (rule rtu_stream.fresh_assembling [OF assms(1-4) _ _ assms(6)])
  from rtu_stream.deliver_assembles [OF this] show ?thesis by (auto simp: rtu_stream.assembled_def)
qed

lemma sample_rtu_answer: "answers sample_rtu (frame0 (waiting sample_rtu rtu_read_req)) (concat [[0x01], [0x03, 0x02, 0x00], [0x05, 0x78], [0x47]])"
    "8 \<le> flength (frame0 (waiting sample_rtu rtu_read_req))"
    "frame1 (waiting sample_rtu rtu_read_req) = fresh_reader sample_rtu"
  by (code_simp, code_simp, simp add: waiting_def)

theorem rtu_response_assembled_witness:
  "\<exists>c' m'. deliver sample_rtu (waiting sample_rtu rtu_read_req)
       ([[0x01], [0x03, 0x02, 0x00], [0x05, 0x78], [0x47]] @ [[], []]) = (0, c', m')
     \<and> received (frame1 m') = concat [[0x01], [0x03, 0x02, 0x00], [0x05, 0x78], [0x47]]
     \<and> fst (modbusmq_check c' m') = 0"
  by (rule rtu_response_assembled [OF sample_rtu_ok(1-3) sample_rtu_answer])

text \<open>
  C4. The same on TCP: the response whose MBAP header and unit match the request is assembled
  from any pieces and accepted.
\<close>

theorem tcp_response_assembled:
  assumes "tcp_ok c" and "\<not> line_fault c" and "line_in c = []"
    and "answers c (frame0 m) (concat pieces)" and "6 \<le> flength (frame0 m)" and "frame1 m = fresh_reader c"
  shows "\<exists>c' m'. deliver c m (pieces @ [[], []]) = (0, c', m')
           \<and> received (frame1 m') = concat pieces \<and> fst (modbusmq_check c' m') = 0"
proof -
  have "xmit (frame0 m) = flength (frame0 m)" by (rule tcp_answersD(10) [OF assms(1,4)])
  moreover have "req_header_min c \<le> flength (frame0 m)" using assms(1,5) by (auto simp: tcp_ok_def)
  ultimately have "tcp_stream.assembling c m (concat pieces) (concat pieces)"
    by (rule tcp_stream.fresh_assembling [OF assms(1-4) _ _ assms(6)])
  from tcp_stream.deliver_assembles [OF this] show ?thesis by (auto simp: tcp_stream.assembled_def)
qed

lemma sample_tcp_answer: "answers sample_tcp (frame0 (waiting sample_tcp tcp_read_req)) (concat [[0, 7, 0, 0, 0], [5, 1, 3, 2, 0], [5]])"
    "6 \<le> flength (frame0 (waiting sample_tcp tcp_read_req))"
    "frame1 (waiting sample_tcp tcp_read_req) = fresh_reader sample_tcp"
  by (code_simp, code_simp, simp add: waiting_def)

theorem tcp_response_assembled_witness:
  "\<exists>c' m'. deliver sample_tcp (waiting sample_tcp tcp_read_req)
       ([[0, 7, 0, 0, 0], [5, 1, 3, 2, 0], [5]] @ [[], []]) = (0, c', m')
     \<and> received (frame1 m') = concat [[0, 7, 0, 0, 0], [5, 1, 3, 2, 0], [5]]
     \<and> fst (modbusmq_check c' m') = 0"
  by (rule tcp_response_assembled [OF sample_tcp_ok sample_tcp_answer])

text \<open>
  C11. As long as bytes of the response are outstanding, the loop neither fails nor ends the
  exchange: every byte that came is in the reader or still on the line, in order.
\<close>

theorem partial_response_kept:
  assumes "rtu_ok c \<and> 8 \<le> flength (frame0 m) \<or> tcp_ok c \<and> 6 \<le> flength (frame0 m)"
    and "\<not> line_fault c" and "line_in c = []"
    and "answers c (frame0 m) (concat pieces @ outstanding)" and "outstanding \<noteq> []"
    and "frame1 m = fresh_reader c" and "deliver c m pieces = (rc, c', m')"
  shows "0 < rc \<and> received (frame1 m') @ line_in c' = concat pieces"
  using assms(1)
proof (elim disjE conjE)
  assume r: "rtu_ok c" "8 \<le> flength (frame0 m)"
  have "xmit (frame0 m) = flength (frame0 m)" by (rule rtu_answersD(7) [OF r(1) assms(4)])
  moreover have "req_header_min c \<le> flength (frame0 m)" using r by (simp add: rtu_ok_def)
  ultimately have "rtu_stream.assembling c m (concat pieces @ outstanding) (concat pieces @ outstanding)"
    by (rule rtu_stream.fresh_assembling [OF r(1) assms(2-4) _ _ assms(6)])
  from rtu_stream.deliver_keeps [OF this assms(7)] show ?thesis
    using assms(5) by (auto simp: rtu_stream.assembling_def)
next
  assume t: "tcp_ok c" "6 \<le> flength (frame0 m)"
  have "xmit (frame0 m) = flength (frame0 m)" by (rule tcp_answersD(10) [OF t(1) assms(4)])
  moreover have "req_header_min c \<le> flength (frame0 m)" using t by (auto simp: tcp_ok_def)
  ultimately have "tcp_stream.assembling c m (concat pieces @ outstanding) (concat pieces @ outstanding)"
    by (rule tcp_stream.fresh_assembling [OF t(1) assms(2-4) _ _ assms(6)])
  from tcp_stream.deliver_keeps [OF this assms(7)] show ?thesis
    using assms(5) by (auto simp: tcp_stream.assembling_def)
qed

theorem partial_response_kept_witness:
  "0 < fst (deliver sample_rtu (waiting sample_rtu rtu_read_req) [[0x01, 0x03], [0x02, 0x00]])"
proof -
  let ?d = "deliver sample_rtu (waiting sample_rtu rtu_read_req) [[0x01, 0x03], [0x02, 0x00]]"
  obtain rc c' m' where d: "?d = (rc, c', m')" by (cases ?d)
  have a: "answers sample_rtu (frame0 (waiting sample_rtu rtu_read_req))
      (concat [[0x01, 0x03], [0x02, 0x00]] @ [0x05, 0x78, 0x47])"
    using sample_rtu_answer(1) by simp
  have "0 < rc"
    using partial_response_kept [OF _ sample_rtu_ok(2,3) a _ sample_rtu_answer(3) d] sample_rtu_ok(1)
      sample_rtu_answer(2) by blast
  then show ?thesis unfolding d by simp
qed





section \<open>Every reachable state of an exchange\<close>

text \<open>
  C5. In every state that an exchange can reach, whatever arrives on the line and whatever the
  descriptor accepts or refuses: what went out is exactly the first part of the request, in
  order and without repetition; both frames stay inside their buffers; and the queue, the
  timers and the callbacks made are those of the start.
\<close>

theorem exchange_reachable_safe:
  assumes "rtu_ok c0 \<or> tcp_ok c0" and "wf_msg m0" and "xmit (frame0 m0) = 0" and "0 < flength (frame0 m0)"
    and "exchange_step\<^sup>*\<^sup>* (c0, m0) (c, m)"
  shows "line_out c = line_out c0 @ take (nat (xmit (frame0 m))) (wire (frame0 m0))
    \<and> wf_msg m \<and> msg_queue c = msg_queue c0 \<and> timers c = timers c0 \<and> events c = events c0"
proof -
  have "rtu_loop.exchange_inv (c0, m0) (c, m) \<or> tcp_loop.exchange_inv (c0, m0) (c, m)"
    using assms(1) rtu_loop.exchange_inv_reach [OF assms(5) rtu_loop.exchange_inv_start [OF _ assms(2-4)]]
      tcp_loop.exchange_inv_reach [OF assms(5) tcp_loop.exchange_inv_start [OF _ assms(2-4)]] by blast
  then show ?thesis
    using rtu_loop.exchange_invD [of c0 m0 c m] tcp_loop.exchange_invD [of c0 m0 c m]
    by (auto simp: same_link_def)
qed

definition unsent :: "byte list \<Rightarrow> modbusmq_msg_t" where
  "unsent req = (let m = exchange req [] in m\<lparr>frame0 := (frame0 m)\<lparr>xmit := 0\<rparr>, frame1 := (frame1 m)\<lparr>flength := 3\<rparr>\<rparr>)"

lemma unsent_sample: "wf_msg (unsent rtu_read_req)" "xmit (frame0 (unsent rtu_read_req)) = 0"
    "0 < flength (frame0 (unsent rtu_read_req))"
  by (code_simp, code_simp, code_simp)

text \<open>A descriptor that takes 5 of the 8 bytes of the request.\<close>

theorem exchange_reachable_safe_witness:
  "let c = sample_rtu\<lparr>line_room := 5, line_fault := False\<rparr>; r = modbusmq_handle_write_read c (unsent rtu_read_req) POLLOUT
   in line_out (fst (snd r)) = take 5 rtu_read_req"
proof -
  let ?c = "sample_rtu\<lparr>line_room := 5, line_fault := False\<rparr>"
  obtain rc c m where r: "modbusmq_handle_write_read ?c (unsent rtu_read_req) POLLOUT = (rc, c, m)"
    by (cases "modbusmq_handle_write_read ?c (unsent rtu_read_req) POLLOUT")
  have "0 < fst (modbusmq_handle_write_read ?c (unsent rtu_read_req) POLLOUT)" by code_simp
  then have "0 < rc" by (simp add: r)
  then have "exchange_step (?c, unsent rtu_read_req) (c, m)" by (rule exchange_step.entry [OF r])
  then have run: "exchange_step\<^sup>*\<^sup>* (?c, unsent rtu_read_req) (c, m)" by (rule r_into_rtranclp)
  have start: "exchange_step (sample_rtu, unsent rtu_read_req) (?c, unsent rtu_read_req)"
    by (rule exchange_step.descriptor)
  have "exchange_step\<^sup>*\<^sup>* (sample_rtu, unsent rtu_read_req) (c, m)"
    by (rule converse_rtranclp_into_rtranclp [where r = exchange_step, OF start run])
  note safe = exchange_reachable_safe [OF disjI1 [OF sample_rtu_ok(1)] unsent_sample this]
  have "xmit (frame0 (snd (snd (modbusmq_handle_write_read ?c (unsent rtu_read_req) POLLOUT)))) = 5" by code_simp
  then have "xmit (frame0 m) = 5" by (simp add: r)
  moreover have "line_out sample_rtu = []" "wire (frame0 (unsent rtu_read_req)) = rtu_read_req"
    by (code_simp, code_simp)
  ultimately show ?thesis using safe by (simp add: r)
qed




end
