(* ===== verification/Rounds_Facts.thy ===== *)
theory Rounds_Facts
  imports Rounds "HOL-Library.Sublist"
begin

text \<open>
  What polling does to the queue: which polls it adds and in which order, that a timer never
  has two polls in the queue, and how the deep tier walks over the slaves.
\<close>

section \<open>What polling leaves alone\<close>

definition steady :: "modbusmq_context_t \<Rightarrow> modbusmq_context_t \<Rightarrow> bool" where
  "steady c c' \<longleftrightarrow> clock c' = clock c \<and> config c' = config c \<and> fd c' = fd c
     \<and> last_read_ms c' = last_read_ms c \<and> last_write_ms c' = last_write_ms c
     \<and> line_in c' = line_in c \<and> line_out c' = line_out c \<and> resync_pending c' = resync_pending c
     \<and> err c' = err c \<and> events c' = events c \<and> ticks c \<le> ticks c'
     \<and> req_header_min c' = req_header_min c \<and> res_header_min c' = res_header_min c
     \<and> header_length c' = header_length c"

lemma steady_refl [simp]: "steady c c"
  by (simp add: steady_def)

lemma steady_trans: "steady a b \<Longrightarrow> steady b c \<Longrightarrow> steady a c"
  by (simp add: steady_def)

lemma steady_updates [simp]:
  "steady c (c\<lparr>timers := ts\<rparr>)" "steady c (c\<lparr>ticks := Suc (ticks c)\<rparr>)" "steady c (c\<lparr>msg_queue := q\<rparr>)"
  "steady c (c\<lparr>round_active := b, round_start_ms := s, round_count := n\<rparr>)"
  "steady c (c\<lparr>round_deep_slave := d\<rparr>)" "steady c (c\<lparr>round_active := b, round_last_ms := s\<rparr>)"
  "steady c (c\<lparr>link := l, req_id_next := r, msg_queue := q\<rparr>)"
  by (simp_all add: steady_def)

lemma steady_post: "modbusmq_post_internal c m fl = (rc, c', m') \<Longrightarrow> steady c c'"
  using post_internal_state by fastforce

section \<open>One poll\<close>

text \<open>
  A poll goes to the end of the queue under the id of its timer; the timer's message is
  stamped and nothing else about the timers changes.
\<close>

definition poll_of :: "int \<Rightarrow> modbusmq_msg_wrapper_t \<Rightarrow> bool" where
  "poll_of tid w \<longleftrightarrow> flags w = MODBUSMQ_MSG_SUBSCRIBE \<and> msg_id (wmsg w) = tid"

lemma subscribe_post:
  assumes "modbusmq_post_internal c (m\<lparr>msg_id := tid\<rparr>) MODBUSMQ_MSG_SUBSCRIBE = (rc, c', m')"
  shows "\<exists>w. poll_of tid w \<and> msg_queue c' = msg_queue c @ [w] \<and> timers c' = timers c \<and> steady c c'"
proof -
  obtain w where w: "flags w = MODBUSMQ_MSG_SUBSCRIBE" "msg_id (wmsg w) = tid"
    "msg_queue c' = queue_insert w (msg_queue c)"
    using post_internal_queue(1) [OF assms] by auto
  then have "msg_queue c' = msg_queue c @ [w]" using rq.insert_other [of w "msg_queue c"] by simp
  then show ?thesis
    using w(1,2) post_internal_queue(2) [OF assms] steady_post [OF assms] by (auto simp: poll_of_def)
qed

text \<open>Which fields of a timer decide about its polls; the walk keeps them.\<close>

definition poll_key :: "modbusmq_timer_t \<Rightarrow> int \<times> modbusmq_tier_e \<times> int \<times> bool" where
  "poll_key t = (timer_id t, timer_tier t, timer_slave t, is_once t)"

lemma gate_keys:
  assumes "modbusmq_slave_gate ts t now = (ok, ts')"
  shows "map poll_key ts' = map poll_key ts" "map timer_next_time ts' = map timer_next_time ts"
    "map unresponsive ts' = map unresponsive ts" "length ts' = length ts"
    "\<not> unresponsive t \<Longrightarrow> ok \<and> ts' = ts"
  using assms by (auto simp: modbusmq_slave_gate_def poll_key_def split: if_splits)

definition same_polls :: "modbusmq_timer_t list \<Rightarrow> modbusmq_timer_t list \<Rightarrow> bool" where
  "same_polls ts ts' \<longleftrightarrow> map poll_key ts' = map poll_key ts
     \<and> map timer_next_time ts' = map timer_next_time ts \<and> map unresponsive ts' = map unresponsive ts"

lemma same_polls_refl [simp]: "same_polls ts ts"
  by (simp add: same_polls_def)

lemma same_polls_trans: "same_polls a b \<Longrightarrow> same_polls b c \<Longrightarrow> same_polls a c"
  by (simp add: same_polls_def)

lemma same_polls_gate: "modbusmq_slave_gate ts t now = (ok, ts') \<Longrightarrow> same_polls ts ts'"
  using gate_keys by (simp add: same_polls_def)

lemma map_nth_eq: "map f xs = map f ys \<Longrightarrow> i < length xs \<Longrightarrow> f (xs ! i) = f (ys ! i)"
  by (metis map_eq_imp_length_eq nth_map)

lemma same_polls_nth:
  assumes "same_polls ts ts'" and "i < length ts"
  shows "i < length ts'" "timer_id (ts' ! i) = timer_id (ts ! i)" "timer_tier (ts' ! i) = timer_tier (ts ! i)"
    "timer_slave (ts' ! i) = timer_slave (ts ! i)" "is_once (ts' ! i) = is_once (ts ! i)"
    "timer_next_time (ts' ! i) = timer_next_time (ts ! i)" "unresponsive (ts' ! i) = unresponsive (ts ! i)"
proof -
  have len: "length ts' = length ts" using assms(1) map_eq_imp_length_eq unfolding same_polls_def by blast
  then show "i < length ts'" using assms(2) by simp
  note n = map_nth_eq [OF _ this]
  show "timer_id (ts' ! i) = timer_id (ts ! i)" "timer_tier (ts' ! i) = timer_tier (ts ! i)"
    "timer_slave (ts' ! i) = timer_slave (ts ! i)" "is_once (ts' ! i) = is_once (ts ! i)"
    "timer_next_time (ts' ! i) = timer_next_time (ts ! i)" "unresponsive (ts' ! i) = unresponsive (ts ! i)"
    using n [of poll_key ts] n [of timer_next_time ts] n [of unresponsive ts] assms(1)
    unfolding same_polls_def poll_key_def by auto
qed

lemma same_polls_stamp: "i < length ts \<Longrightarrow> same_polls ts (ts[i := (ts ! i)\<lparr>tmsg := m\<rparr>])"
  unfolding same_polls_def map_update
  by (simp add: poll_key_def list_update_same_conv)

text \<open>The statements that post the poll of timer \<open>i\<close> and keep the stamped message.\<close>

definition post_poll :: "nat \<Rightarrow> int \<Rightarrow> modbusmq_context_t \<Rightarrow> modbusmq_context_t" where
  "post_poll i tid c =
     (let m = (tmsg (timers c ! i))\<lparr>msg_id := tid\<rparr>;
          (rc, c, m) = modbusmq_post_internal c m MODBUSMQ_MSG_SUBSCRIBE
      in c\<lparr>timers := (timers c)[i := (timers c ! i)\<lparr>tmsg := m\<rparr>]\<rparr>)"

lemma post_poll_effect:
  assumes "i < length (timers c)"
  shows "steady c (post_poll i tid c)" "same_polls (timers c) (timers (post_poll i tid c))"
    "\<exists>w. poll_of tid w \<and> msg_queue (post_poll i tid c) = msg_queue c @ [w]"
proof -
  let ?m = "(tmsg (timers c ! i))\<lparr>msg_id := tid\<rparr>"
  obtain rc c1 m1 where p: "modbusmq_post_internal c ?m MODBUSMQ_MSG_SUBSCRIBE = (rc, c1, m1)"
    by (cases "modbusmq_post_internal c ?m MODBUSMQ_MSG_SUBSCRIBE")
  note sp = subscribe_post [OF p]
  have e: "post_poll i tid c = c1\<lparr>timers := (timers c1)[i := (timers c1 ! i)\<lparr>tmsg := m1\<rparr>]\<rparr>"
    by (simp add: post_poll_def p Let_def)
  show "steady c (post_poll i tid c)" "\<exists>w. poll_of tid w \<and> msg_queue (post_poll i tid c) = msg_queue c @ [w]"
    unfolding e using sp steady_trans [OF _ steady_updates(1)] by auto
  show "same_polls (timers c) (timers (post_poll i tid c))"
    unfolding e using sp assms same_polls_stamp by auto
qed

section \<open>Posting a round\<close>

definition round_wants :: "modbusmq_tier_e \<Rightarrow> int \<Rightarrow> modbusmq_timer_t \<Rightarrow> bool" where
  "round_wants tier slave t \<longleftrightarrow> timer_tier t = tier \<and> (slave < 0 \<or> timer_slave t = slave)
     \<and> \<not> (is_once t \<and> timer_next_time t = -1)"

lemma round_post_one_eq:
  "round_post_one tier slave i c =
    (if \<not> round_wants tier slave (timers c ! i) then c
     else (let tid = timer_id (timers c ! i);
               (ok, ts) = modbusmq_slave_gate (timers c) (timers c ! i) (clock c (ticks c));
               c = c\<lparr>ticks := Suc (ticks c), timers := ts\<rparr>
           in if ok then post_poll i tid c else c))"
  by (auto simp: round_post_one_def round_wants_def post_poll_def millitime_def Let_def split: prod.splits)

lemma round_post_one_effect:
  fixes tier :: modbusmq_tier_e and slave :: int
  assumes i: "i < length (timers c)"
  defines "c' \<equiv> round_post_one tier slave i c" and "t \<equiv> timers c ! i"
  shows "steady c c'" "same_polls (timers c) (timers c')"
    "\<exists>ws. msg_queue c' = msg_queue c @ ws
       \<and> (ws = [] \<or> round_wants tier slave t \<and> (\<exists>w. ws = [w] \<and> poll_of (timer_id t) w))
       \<and> (round_wants tier slave t \<and> \<not> unresponsive t \<longrightarrow> ws \<noteq> [])"
proof -
  obtain ok ts where g: "modbusmq_slave_gate (timers c) t (clock c (ticks c)) = (ok, ts)"
    by (cases "modbusmq_slave_gate (timers c) t (clock c (ticks c))")
  let ?c = "c\<lparr>ticks := Suc (ticks c), timers := ts\<rparr>"
  have sp: "same_polls (timers c) ts" by (rule same_polls_gate [OF g])
  have it: "i < length (timers ?c)" using same_polls_nth(1) [OF sp i] by simp
  have sc: "steady c ?c" by (simp add: steady_def)
  note pp = post_poll_effect [OF it, of "timer_id t"]
  have eq: "c' = (if \<not> round_wants tier slave t then c else if ok then post_poll i (timer_id t) ?c else ?c)"
    unfolding c'_def round_post_one_eq t_def [symmetric] g by simp
  have gate_open: "ok" if "\<not> unresponsive t" using gate_keys(5) [OF g that] by simp
  consider "\<not> round_wants tier slave t" | "round_wants tier slave t" "ok"
    | "round_wants tier slave t" "\<not> ok" by blast
  then have "steady c c' \<and> same_polls (timers c) (timers c') \<and>
    (\<exists>ws. msg_queue c' = msg_queue c @ ws
       \<and> (ws = [] \<or> round_wants tier slave t \<and> (\<exists>w. ws = [w] \<and> poll_of (timer_id t) w))
       \<and> (round_wants tier slave t \<and> \<not> unresponsive t \<longrightarrow> ws \<noteq> []))"
  proof cases
    case 2
    then show ?thesis
      using eq pp steady_trans [OF sc pp(1)] same_polls_trans [OF sp] by auto
  next
    case 3
    then show ?thesis using eq sc sp gate_open by auto
  qed (use eq in simp)
  then show "steady c c'" "same_polls (timers c) (timers c')"
    "\<exists>ws. msg_queue c' = msg_queue c @ ws
       \<and> (ws = [] \<or> round_wants tier slave t \<and> (\<exists>w. ws = [w] \<and> poll_of (timer_id t) w))
       \<and> (round_wants tier slave t \<and> \<not> unresponsive t \<longrightarrow> ws \<noteq> [])" by blast+
qed

text \<open>
  The polls of a round, \<open>ws\<close>, for the timers at positions \<open>is\<close>: the wanted ones in list
  order, each once, less those the gate holds back.
\<close>

definition poll_ids :: "modbusmq_msg_wrapper_t list \<Rightarrow> int list" where
  "poll_ids ws = map (msg_id \<circ> wmsg) ws"

lemma poll_ids_Nil [simp]: "poll_ids [] = []"
  by (simp add: poll_ids_def)

definition wanted_ids :: "modbusmq_tier_e \<Rightarrow> int \<Rightarrow> modbusmq_timer_t list \<Rightarrow> int list" where
  "wanted_ids tier slave ts = map timer_id (filter (round_wants tier slave) ts)"

definition round_polls ::
    "modbusmq_tier_e \<Rightarrow> int \<Rightarrow> modbusmq_timer_t list \<Rightarrow> modbusmq_msg_wrapper_t list \<Rightarrow> bool" where
  "round_polls tier slave ts ws \<longleftrightarrow> (\<forall>w \<in> set ws. flags w = MODBUSMQ_MSG_SUBSCRIBE)
     \<and> subseq (poll_ids ws) (wanted_ids tier slave ts)
     \<and> ((\<forall>t \<in> set ts. \<not> unresponsive t) \<longrightarrow> poll_ids ws = wanted_ids tier slave ts)"

lemma round_polls_Nil [simp]: "round_polls tier slave [] []"
  by (simp add: round_polls_def poll_ids_def wanted_ids_def)

lemma round_polls_Cons:
  assumes "ws = [] \<or> round_wants tier slave t \<and> (\<exists>w. ws = [w] \<and> poll_of (timer_id t) w)"
    and "round_wants tier slave t \<and> \<not> unresponsive t \<longrightarrow> ws \<noteq> []" and "round_polls tier slave ts vs"
  shows "round_polls tier slave (t # ts) (ws @ vs)"
  using assms
  by (auto simp: round_polls_def poll_ids_def wanted_ids_def poll_of_def intro: subseq_Cons')

lemma round_polls_cong:
  assumes "map poll_key ts' = map poll_key ts" and "map timer_next_time ts' = map timer_next_time ts"
    and "map unresponsive ts' = map unresponsive ts"
  shows "round_polls tier slave ts' ws = round_polls tier slave ts ws"
proof -
  have w: "wanted_ids tier slave ts' = wanted_ids tier slave ts"
    using map_eq_imp_length_eq [OF assms(1)] assms(1,2)
  proof (induction ts' ts rule: list_induct2)
    case (Cons t' ts' t ts)
    have "round_wants tier slave t' = round_wants tier slave t" "timer_id t' = timer_id t"
      using Cons.prems by (simp_all add: round_wants_def poll_key_def)
    then show ?case using Cons by (simp add: wanted_ids_def)
  qed simp
  have "(\<forall>t \<in> set ts'. \<not> unresponsive t) = (\<forall>t \<in> set ts. \<not> unresponsive t)"
    using arg_cong [OF assms(3), of set] by (metis (mono_tags) imageE imageI list.set_map)
  then show ?thesis unfolding round_polls_def w by simp
qed

lemma fold_round_post:
  assumes "\<forall>i \<in> set is. i < length (timers c)"
  shows "steady c (fold (round_post_one tier slave) is c)
    \<and> same_polls (timers c) (timers (fold (round_post_one tier slave) is c))
    \<and> (\<exists>ws. msg_queue (fold (round_post_one tier slave) is c) = msg_queue c @ ws
         \<and> round_polls tier slave (map (\<lambda>i. timers c ! i) is) ws)"
  using assms
proof (induction "is" arbitrary: c)
  case (Cons i "is")
  let ?c = "round_post_one tier slave i c"
  have i: "i < length (timers c)" using Cons.prems by simp
  note one = round_post_one_effect [OF i, of tier slave]
  have "length (timers ?c) = length (timers c)"
    using one(2) map_eq_imp_length_eq unfolding same_polls_def by blast
  then have "\<forall>j \<in> set is. j < length (timers ?c)" using Cons.prems by simp
  note ih = Cons.IH [OF this]
  obtain vs where vs: "msg_queue ?c = msg_queue c @ vs"
    "vs = [] \<or> round_wants tier slave (timers c ! i) \<and> (\<exists>w. vs = [w] \<and> poll_of (timer_id (timers c ! i)) w)"
    "round_wants tier slave (timers c ! i) \<and> \<not> unresponsive (timers c ! i) \<longrightarrow> vs \<noteq> []"
    using one(3) by blast
  obtain ws where ws: "msg_queue (fold (round_post_one tier slave) is ?c) = msg_queue ?c @ ws"
    "round_polls tier slave (map (\<lambda>i. timers ?c ! i) is) ws"
    using ih by blast
  have "round_polls tier slave (map (\<lambda>i. timers ?c ! i) is) ws
      = round_polls tier slave (map (\<lambda>i. timers c ! i) is) ws"
    using same_polls_nth [OF one(2)] Cons.prems
    by (intro round_polls_cong) (simp_all add: poll_key_def)
  then have "round_polls tier slave (map (\<lambda>i. timers c ! i) (i # is)) (vs @ ws)"
    using round_polls_Cons [OF vs(2,3)] ws(2) by simp
  then have "\<exists>us. msg_queue (fold (round_post_one tier slave) (i # is) c) = msg_queue c @ us
      \<and> round_polls tier slave (map (\<lambda>i. timers c ! i) (i # is)) us"
    using vs(1) ws(1) by auto
  then show ?case
    using ih steady_trans [OF one(1)] same_polls_trans [OF one(2)] by simp
qed simp

lemma round_post_effect:
  shows "steady c (modbusmq_round_post tier slave c)"
    "same_polls (timers c) (timers (modbusmq_round_post tier slave c))"
    "\<exists>ws. msg_queue (modbusmq_round_post tier slave c) = msg_queue c @ ws
        \<and> round_polls tier slave (timers c) ws"
  using fold_round_post [of "[0..<length (timers c)]" c tier slave]
  by (simp_all add: modbusmq_round_post_def map_nth)

section \<open>Whose turn it is in the deep tier\<close>

definition deep_timer :: "modbusmq_timer_t \<Rightarrow> bool" where
  "deep_timer t \<longleftrightarrow> timer_tier t = tier_deep \<and> 0 \<le> timer_slave t \<and> timer_slave t \<le> 255"

definition deep_slaves :: "modbusmq_timer_t list \<Rightarrow> int set" where
  "deep_slaves ts = timer_slave ` {t \<in> set ts. deep_timer t}"

lemma deep_slaves_simps [simp]:
  "deep_slaves [] = {}"
  "deep_slaves (t # ts) = (if deep_timer t then insert (timer_slave t) (deep_slaves ts) else deep_slaves ts)"
  by (auto simp: deep_slaves_def)

text \<open>With every slave answering the order does not depend on the clock: each deep slave once.\<close>

fun deep_ref :: "int list \<Rightarrow> modbusmq_timer_t list \<Rightarrow> int list" where
  "deep_ref seen [] = []"
| "deep_ref seen (t # ts) =
     (if deep_timer t \<and> timer_slave t \<notin> set seen
      then timer_slave t # deep_ref (timer_slave t # seen) ts else deep_ref seen ts)"

lemma deep_order_responsive:
  "\<forall>t \<in> set ts. \<not> unresponsive t \<Longrightarrow> deep_order c seen ts = (deep_ref seen ts, c)"
  by (induction ts arbitrary: seen) (auto simp: deep_timer_def Let_def split: prod.split)

lemma deep_ref_props: "distinct (deep_ref seen ts) \<and> set (deep_ref seen ts) = deep_slaves ts - set seen"
proof (induction ts arbitrary: seen)
  case (Cons t ts)
  show ?case using Cons [of seen] Cons [of "timer_slave t # seen"] by auto
qed simp

lemma next_in_nth:
  assumes "distinct ss" and "i < length ss"
  shows "next_in (ss ! i) order ss = (if Suc i < length ss then ss ! Suc i else hd order)"
  using assms
proof (induction ss arbitrary: i)
  case (Cons s ss)
  show ?case
  proof (cases i)
    case (Suc j)
    then have j: "j < length ss" using Cons.prems(2) by simp
    then have "s \<noteq> ss ! j" using Cons.prems(1) nth_mem [OF j] by auto
    then show ?thesis using Cons.IH [OF _ j] Cons.prems(1) Suc by simp
  qed (cases ss; simp)
qed simp

lemma next_in_absent: "cur \<notin> set ss \<Longrightarrow> next_in cur order ss = hd order"
  by (induction ss) auto

lemma next_in_mod:
  assumes "distinct order" and "i < length order"
  shows "next_in (order ! i) order order = order ! (Suc i mod length order)"
proof (cases "Suc i < length order")
  case False
  then have "Suc i = length order" using assms(2) by simp
  then show ?thesis using next_in_nth [OF assms] assms(2) by (cases order) auto
qed (use next_in_nth [OF assms] in simp)

text \<open>The slaves that the next \<open>n\<close> rounds take, each round taking note of its own.\<close>

fun deep_turns :: "nat \<Rightarrow> modbusmq_context_t \<Rightarrow> int list" where
  "deep_turns 0 c = []"
| "deep_turns (Suc n) c =
     (let (s, c) = modbusmq_round_next_deep_slave c in s # deep_turns n (c\<lparr>round_deep_slave := s\<rparr>))"

lemma deep_turns_eq:
  assumes "\<forall>t \<in> set (timers c). \<not> unresponsive t" and "deep_ref [] (timers c) = order" and "order \<noteq> []"
  shows "deep_turns n c = map (\<lambda>j. ((\<lambda>s. next_in s order order) ^^ Suc j) (round_deep_slave c)) [0..<n]"
  using assms(1,2)
proof (induction n arbitrary: c)
  case (Suc n)
  let ?s = "next_in (round_deep_slave c) order order"
  have "modbusmq_round_next_deep_slave c = (?s, c)"
    using deep_order_responsive [OF Suc.prems(1)] Suc.prems(2) assms(3)
    by (simp add: modbusmq_round_next_deep_slave_def Let_def)
  then have "deep_turns (Suc n) c = ?s # deep_turns n (c\<lparr>round_deep_slave := ?s\<rparr>)" by simp
  also have "deep_turns n (c\<lparr>round_deep_slave := ?s\<rparr>)
      = map (\<lambda>j. ((\<lambda>s. next_in s order order) ^^ Suc j) ?s) [0..<n]"
    using Suc.IH [of "c\<lparr>round_deep_slave := ?s\<rparr>"] Suc.prems by simp
  finally show ?case by (simp add: upt_Suc_map funpow_Suc_right del: upt_Suc funpow.simps(2) deep_turns.simps)
qed simp

lemma next_in_start:
  assumes "distinct order" and "order \<noteq> []"
  shows "\<exists>k < length order. next_in cur order order = order ! k"
proof (cases "cur \<in> set order")
  case True
  then obtain i where "i < length order" "cur = order ! i" by (metis in_set_conv_nth)
  then show ?thesis using next_in_mod [OF assms(1)] assms(2) by (intro exI [of _ "Suc i mod length order"]) simp
next
  case False
  then show ?thesis using assms(2) next_in_absent [OF False] by (intro exI [of _ 0]) (simp add: hd_conv_nth)
qed

lemma next_in_cycle:
  assumes "distinct order" and "k < length order" and "next_in cur order order = order ! k"
  shows "((\<lambda>s. next_in s order order) ^^ Suc j) cur = order ! ((k + j) mod length order)"
proof (induction j)
  case (Suc j)
  have "(k + j) mod length order < length order" using assms(2) by (cases order) auto
  then show ?case using Suc next_in_mod [OF assms(1)] by (simp add: mod_Suc_eq)
qed (use assms in simp)

text \<open>A full cycle of turns is the order, rotated.\<close>

lemma deep_turns_rotate:
  assumes "\<forall>t \<in> set (timers c). \<not> unresponsive t" and "deep_slaves (timers c) \<noteq> {}"
  shows "\<exists>k. deep_turns (length (deep_ref [] (timers c))) c = rotate k (deep_ref [] (timers c))"
proof -
  let ?o = "deep_ref [] (timers c)"
  have d: "distinct ?o" and ne: "?o \<noteq> []" using deep_ref_props [of "[]" "timers c"] assms(2) by auto
  obtain k where k: "k < length ?o" "next_in (round_deep_slave c) ?o ?o = ?o ! k"
    using next_in_start [OF d ne] by blast
  have "deep_turns (length ?o) c = map (\<lambda>j. ?o ! ((k + j) mod length ?o)) [0..<length ?o]"
    unfolding deep_turns_eq [OF assms(1) refl ne] next_in_cycle [OF d k] ..
  also have "\<dots> = rotate k ?o" by (rule nth_equalityI) (simp_all add: nth_rotate)
  finally show ?thesis by blast
qed

section \<open>One poll per timer\<close>

definition polls :: "modbusmq_context_t \<Rightarrow> modbusmq_msg_wrapper_t list" where
  "polls c = filter (\<lambda>w. flags w = MODBUSMQ_MSG_SUBSCRIBE) (msg_queue c)"

text \<open>No timer has two polls in the queue, and every poll there belongs to a timer.\<close>

definition polls_ok :: "modbusmq_context_t \<Rightarrow> bool" where
  "polls_ok c \<longleftrightarrow> distinct (map timer_id (timers c)) \<and> distinct (poll_ids (polls c))
     \<and> set (poll_ids (polls c)) \<subseteq> timer_id ` set (timers c)"

lemma polls_ok_bound:
  assumes "polls_ok c"
  shows "length (polls c) \<le> length (timers c)"
proof -
  have "length (polls c) = length (poll_ids (polls c))" by (simp add: poll_ids_def)
  also have "\<dots> = card (set (poll_ids (polls c)))"
    using assms by (simp only: polls_ok_def distinct_card)
  also have "\<dots> \<le> card (timer_id ` set (timers c))"
    using assms by (intro card_mono) (simp_all add: polls_ok_def)
  also have "\<dots> \<le> length (timers c)"
    by (rule le_trans [OF card_image_le card_length]) simp
  finally show ?thesis .
qed

lemma polls_ok_add:
  assumes "polls_ok c" and "map timer_id (timers c') = map timer_id (timers c)"
    and "msg_queue c' = msg_queue c @ ws" and "\<forall>w \<in> set ws. flags w = MODBUSMQ_MSG_SUBSCRIBE"
    and "distinct (poll_ids ws)" and "set (poll_ids ws) \<subseteq> timer_id ` set (timers c)"
    and "set (poll_ids ws) \<inter> set (poll_ids (polls c)) = {}"
  shows "polls_ok c'"
proof -
  have "polls c' = polls c @ ws" using assms(3,4) by (simp add: polls_def)
  moreover have "timer_id ` set (timers c') = timer_id ` set (timers c)"
    using arg_cong [OF assms(2), of set] by simp
  ultimately show ?thesis using assms by (auto simp: polls_ok_def poll_ids_def)
qed

lemma walk_one_eq:
  "walk_one time_now i (c, ms) =
    (let elem = timers c ! i;
         c' = (if timer_next_time elem \<le> time_now \<and> \<not> poll_queued c (timer_id elem) then
                 (let (ok, ts) = modbusmq_slave_gate (timers c) elem time_now;
                      d = (if ok then post_poll i (timer_id elem) (c\<lparr>timers := ts\<rparr>) else c\<lparr>timers := ts\<rparr>);
                      t = timers d ! i
                  in d\<lparr>timers := (timers d)[i := t\<lparr>timer_next_time := timer_next_time t + timer_interval t\<rparr>]\<rparr>)
               else c)
     in (c', min ms (timer_next_time (timers c' ! i) - time_now)))"
  by (auto simp: walk_one_def post_poll_def Let_def split: prod.splits)

lemma poll_queued_polls: "\<not> poll_queued c tid \<Longrightarrow> tid \<notin> set (poll_ids (polls c))"
  by (auto simp: poll_queued_def poll_ids_def polls_def)

lemma map_id_step: "i < length ts \<Longrightarrow>
    map timer_id (ts[i := (ts ! i)\<lparr>timer_next_time := v\<rparr>]) = map timer_id ts"
  by (simp add: map_update list_update_same_conv)

lemma walk_one_polls:
  assumes ok: "polls_ok c" and i: "i < length (timers c)" and w: "walk_one time_now i (c, ms) = (c', ms')"
  shows "polls_ok c'" "length (timers c') = length (timers c)" "steady c c'"
proof -
  let ?e = "timers c ! i"
  have "polls_ok c' \<and> length (timers c') = length (timers c) \<and> steady c c'"
  proof (cases "timer_next_time ?e \<le> time_now \<and> \<not> poll_queued c (timer_id ?e)")
    case False
    then have "c' = c" using w [unfolded walk_one_eq Let_def if_not_P [OF False]] by simp
    then show ?thesis using ok by simp
  next
    case True
    obtain g ts where g: "modbusmq_slave_gate (timers c) ?e time_now = (g, ts)"
      by (cases "modbusmq_slave_gate (timers c) ?e time_now")
    let ?c = "c\<lparr>timers := ts\<rparr>"
    note sp = same_polls_gate [OF g]
    define d where "d = (if g then post_poll i (timer_id ?e) ?c else ?c)"
    have it: "i < length (timers ?c)" using same_polls_nth(1) [OF sp i] by simp
    note pp = post_poll_effect [OF it, of "timer_id ?e"]
    have sd: "same_polls (timers c) (timers d)" "steady c d"
      unfolding d_def using same_polls_trans [OF sp] pp(1,2) steady_trans [OF steady_updates(1)] sp by auto
    obtain ws where ws: "msg_queue d = msg_queue c @ ws" "ws = [] \<or> (\<exists>w. ws = [w] \<and> poll_of (timer_id ?e) w)"
      unfolding d_def using pp(3) by (cases g) auto
    have len: "length (timers d) = length (timers c)"
      using sd(1) map_eq_imp_length_eq unfolding same_polls_def by blast
    let ?t = "timers d ! i"
    have c': "c' = d\<lparr>timers := (timers d)[i := ?t\<lparr>timer_next_time := timer_next_time ?t + timer_interval ?t\<rparr>]\<rparr>"
      using w True g by (simp add: walk_one_eq Let_def d_def)
    have ids: "map timer_id (timers d) = map timer_id (timers c)"
      using sd(1) by (auto simp: same_polls_def poll_key_def intro!: nth_equalityI dest: map_eq_imp_length_eq
          simp: same_polls_nth(2) [OF sd(1)] len)
    have "polls_ok c'"
    proof (rule polls_ok_add [OF ok, of c' ws])
      show "map timer_id (timers c') = map timer_id (timers c)"
        using i len ids unfolding c' by (simp add: map_id_step)
      show "msg_queue c' = msg_queue c @ ws" using ws(1) by (simp add: c')
      show "\<forall>w \<in> set ws. flags w = MODBUSMQ_MSG_SUBSCRIBE" "distinct (poll_ids ws)"
        "set (poll_ids ws) \<subseteq> timer_id ` set (timers c)"
        using ws(2) i by (auto simp: poll_of_def poll_ids_def)
      show "set (poll_ids ws) \<inter> set (poll_ids (polls c)) = {}"
        using ws(2) poll_queued_polls [of c "timer_id ?e"] True by (auto simp: poll_of_def poll_ids_def)
    qed
    moreover have "steady c c'" unfolding c' by (rule steady_trans [OF sd(2) steady_updates(1)])
    ultimately show ?thesis using len by (simp add: c')
  qed
  then show "polls_ok c'" "length (timers c') = length (timers c)" "steady c c'" by blast+
qed

lemma fold_walk_polls:
  assumes "polls_ok c" and "\<forall>i \<in> set is. i < length (timers c)"
  shows "polls_ok (fst (fold (walk_one time_now) is (c, ms))) \<and> steady c (fst (fold (walk_one time_now) is (c, ms)))"
  using assms
proof (induction "is" arbitrary: c ms)
  case (Cons i "is")
  obtain c' ms' where w: "walk_one time_now i (c, ms) = (c', ms')" by (cases "walk_one time_now i (c, ms)")
  note wp = walk_one_polls [OF Cons.prems(1) _ w]
  have i: "i < length (timers c)" using Cons.prems(2) by simp
  have "\<forall>j \<in> set is. j < length (timers c')" using Cons.prems(2) wp(2) [OF i] by simp
  from Cons.IH [OF wp(1) [OF i] this, of ms'] show ?case
    using w steady_trans [OF wp(3) [OF i]] by simp
qed simp

lemma prepare_walk_polls:
  assumes "polls_ok c"
  shows "polls_ok (fst (prepare_walk c st))" "steady c (fst (prepare_walk c st))"
proof -
  let ?c = "c\<lparr>ticks := Suc (ticks c)\<rparr>" and ?ms = "if st > 0 then st else 1000 :: millitime_t"
  have "polls_ok ?c" using assms by (simp add: polls_ok_def polls_def)
  from fold_walk_polls [OF this, of "[0..<length (timers c)]" "clock c (ticks c)" ?ms]
  have f: "polls_ok (fst (fold (walk_one (clock c (ticks c))) [0..<length (timers c)] (?c, ?ms)))
    \<and> steady ?c (fst (fold (walk_one (clock c (ticks c))) [0..<length (timers c)] (?c, ?ms)))" by simp
  have eq: "prepare_walk c st = (if timers c = [] then (c, ?ms)
      else fold (walk_one (clock c (ticks c))) [0..<length (timers c)] (?c, ?ms))"
    unfolding prepare_walk_def millitime_def Let_def prod.case by simp
  have "polls_ok (fst (prepare_walk c st)) \<and> steady c (fst (prepare_walk c st))"
    unfolding eq using assms f steady_trans [OF steady_updates(2), of c] by (cases "timers c = []") simp_all
  then show "polls_ok (fst (prepare_walk c st))" "steady c (fst (prepare_walk c st))" by blast+
qed

section \<open>A round as a whole\<close>

lemma subseq_distinct:
  assumes "subseq xs ys" and "distinct ys"
  shows "distinct xs" "set xs \<subseteq> set ys"
  using assms by (auto simp: subseq_conv_nths dest: in_set_nthsD)

lemma same_polls_ids:
  assumes "same_polls ts ts'"
  shows "map timer_id ts' = map timer_id ts"
    and "wanted_ids tier slave ts' = wanted_ids tier slave ts"
proof -
  have len: "length ts' = length ts" using assms map_eq_imp_length_eq unfolding same_polls_def by blast
  have "map timer_id ts' = map timer_id ts \<and> wanted_ids tier slave ts' = wanted_ids tier slave ts"
    using len assms
  proof (induction ts' ts rule: list_induct2)
    case (Cons t' ts' t ts)
    have "same_polls ts ts'" using Cons.prems by (simp add: same_polls_def)
    moreover have "round_wants tier slave t' = round_wants tier slave t" "timer_id t' = timer_id t"
      using Cons.prems by (simp_all add: same_polls_def round_wants_def poll_key_def)
    ultimately show ?case using Cons.IH by (simp add: wanted_ids_def)
  qed simp
  then show "map timer_id ts' = map timer_id ts" "wanted_ids tier slave ts' = wanted_ids tier slave ts" by blast+
qed

lemma round_post_polls:
  assumes ok: "polls_ok c" and free: "set (wanted_ids tier slave (timers c)) \<inter> set (poll_ids (polls c)) = {}"
  defines "c' \<equiv> modbusmq_round_post tier slave c"
  shows "polls_ok c'" "steady c c'" "same_polls (timers c) (timers c')"
    "set (poll_ids (polls c')) \<subseteq> set (poll_ids (polls c)) \<union> set (wanted_ids tier slave (timers c))"
proof -
  note e = round_post_effect [where tier = tier and slave = slave and c = c, folded c'_def]
  obtain ws where ws: "msg_queue c' = msg_queue c @ ws" "round_polls tier slave (timers c) ws" using e(3) by blast
  have sub: "\<forall>w \<in> set ws. flags w = MODBUSMQ_MSG_SUBSCRIBE" "subseq (poll_ids ws) (wanted_ids tier slave (timers c))"
    using ws(2) by (simp_all add: round_polls_def)
  have dw: "distinct (wanted_ids tier slave (timers c))"
    using ok by (simp add: polls_ok_def wanted_ids_def distinct_map_filter)
  note sd = subseq_distinct [OF sub(2) dw]
  have "set (wanted_ids tier slave (timers c)) \<subseteq> timer_id ` set (timers c)" by (auto simp: wanted_ids_def)
  then show "polls_ok c'"
    using sd free by (intro polls_ok_add [OF ok same_polls_ids(1) [OF e(2)] ws(1) sub(1)]) auto
  have "polls c' = polls c @ ws" using ws(1) sub(1) by (simp add: polls_def)
  then show "set (poll_ids (polls c')) \<subseteq> set (poll_ids (polls c)) \<union> set (wanted_ids tier slave (timers c))"
    using sd(2) by (auto simp: poll_ids_def)
  show "steady c c'" "same_polls (timers c) (timers c')" using e by simp_all
qed

text \<open>Timers with different tiers or slaves are different, and so are their ids.\<close>

lemma wanted_ids_disjoint:
  assumes "distinct (map timer_id ts)"
    and "\<And>t. t \<in> set ts \<Longrightarrow> round_wants a s t \<Longrightarrow> \<not> round_wants b r t"
  shows "set (wanted_ids a s ts) \<inter> set (wanted_ids b r ts) = {}"
  using assms by (auto simp: wanted_ids_def distinct_map dest: inj_onD)

lemma deep_order_ticks: "\<exists>n \<ge> ticks c. snd (deep_order c seen ts) = c\<lparr>ticks := n\<rparr>"
proof (induction ts arbitrary: c seen)
  case Nil
  show ?case by (rule exI [of _ "ticks c"]) simp
next
  case (Cons t ts)
  have later: "\<exists>n \<ge> ticks c. snd (deep_order (c\<lparr>ticks := Suc (ticks c)\<rparr>) s ts) = c\<lparr>ticks := n\<rparr>" for s
    using Cons [of "c\<lparr>ticks := Suc (ticks c)\<rparr>" s] by (auto intro: Suc_leD)
  show ?case
    using Cons [of c seen] Cons [of c "timer_slave t # seen"] later
    by (auto simp: millitime_def Let_def split: prod.splits if_splits) (metis snd_conv)+
qed

lemma next_deep_slave_ticks:
  assumes "modbusmq_round_next_deep_slave c = (s, c')"
  shows "\<exists>n \<ge> ticks c. c' = c\<lparr>ticks := n\<rparr>"
  using assms deep_order_ticks [of c "[]" "timers c"]
  by (auto simp: modbusmq_round_next_deep_slave_def Let_def split: prod.splits if_splits)

lemma round_post_active: "round_active (modbusmq_round_post tier slave c) = round_active c"
proof -
  have poll: "round_active (post_poll i tid d) = round_active d" for i tid d
  proof -
    let ?m = "(tmsg (timers d ! i))\<lparr>msg_id := tid\<rparr>"
    obtain rc c1 m1 where p: "modbusmq_post_internal d ?m MODBUSMQ_MSG_SUBSCRIBE = (rc, c1, m1)"
      by (cases "modbusmq_post_internal d ?m MODBUSMQ_MSG_SUBSCRIBE")
    then obtain l n w where "c1 = d\<lparr>link := l, req_id_next := n, msg_queue := queue_insert w (msg_queue d)\<rparr>"
      using post_internal_state [OF p] by blast
    then show ?thesis by (simp add: post_poll_def p Let_def)
  qed
  have "round_active (round_post_one tier slave i d) = round_active d" for i d
    by (simp add: round_post_one_eq poll Let_def split: prod.split)
  then have "round_active (fold (round_post_one tier slave) is d) = round_active d" for "is" d
    by (induction "is" arbitrary: d) simp_all
  then show ?thesis by (simp add: modbusmq_round_post_def)
qed

lemma start_round_polls:
  assumes d: "distinct (map timer_id (timers c))" and none: "polls c = []"
  shows "polls_ok (start_round now c)" "steady c (start_round now c)" "round_active (start_round now c)"
proof -
  obtain s c0 where s: "modbusmq_round_next_deep_slave c = (s, c0)" by (cases "modbusmq_round_next_deep_slave c")
  then obtain n where c0: "c0 = c\<lparr>ticks := n\<rparr>" "ticks c \<le> n" using next_deep_slave_ticks by blast
  define c1 where "c1 = c0\<lparr>round_active := True, round_start_ms := now, round_count := round_count c0 + 1\<rparr>"
  have k1: "polls_ok c1" "steady c c1" "poll_ids (polls c1) = []" "timers c1 = timers c" "round_active c1"
    using d none c0(2) by (simp_all add: c1_def c0(1) polls_ok_def polls_def poll_ids_def steady_def)
  define c2 where "c2 = modbusmq_round_post tier_fast (-1) c1"
  have k2: "polls_ok c2" "steady c1 c2" "same_polls (timers c1) (timers c2)"
    "set (poll_ids (polls c2)) \<subseteq> set (wanted_ids tier_fast (-1) (timers c))"
    using round_post_polls [of c1 tier_fast "-1", folded c2_def] k1 by simp_all
  define c3 where "c3 = (if s \<ge> 0 then (modbusmq_round_post tier_deep s c2)\<lparr>round_deep_slave := s\<rparr> else c2)"
  have w: "wanted_ids a b (timers c2) = wanted_ids a b (timers c)" for a b
    using same_polls_ids(2) [OF k2(3)] k1(4) by simp
  have d2: "distinct (map timer_id (timers c2))" using k2(1) by (simp add: polls_ok_def)
  have "set (wanted_ids tier_deep s (timers c2)) \<inter> set (wanted_ids tier_fast (-1) (timers c2)) = {}" for s
    by (rule wanted_ids_disjoint [OF d2]) (auto simp: round_wants_def)
  then have free: "set (wanted_ids tier_deep s (timers c2)) \<inter> set (poll_ids (polls c2)) = {}" for s
    using k2(4) unfolding w by blast
  note p3 = round_post_polls [OF k2(1) free, of s]
  have upd: "polls_ok (x\<lparr>round_deep_slave := y\<rparr>) = polls_ok x" "polls (x\<lparr>round_deep_slave := y\<rparr>) = polls x" for x y
    by (simp_all add: polls_ok_def polls_def)
  have k3: "polls_ok c3" "steady c2 c3" "same_polls (timers c2) (timers c3)"
    "set (poll_ids (polls c3)) \<subseteq> set (wanted_ids tier_fast (-1) (timers c)) \<union>
       (if s \<ge> 0 then set (wanted_ids tier_deep s (timers c)) else {})"
    using p3 k2 w steady_trans [OF p3(2) steady_updates(5)] by (auto simp: c3_def upd)
  have eq: "start_round now c = (if round_focus c3 \<ge> 0 \<and> round_focus c3 \<noteq> s
      then modbusmq_round_post tier_deep (round_focus c3) c3 else c3)"
    by (simp add: start_round_def s c1_def c2_def c3_def Let_def)
  have act: "round_active c3" using k1(5) by (simp add: c3_def c2_def round_post_active)
  have sc: "steady c c3" by (rule steady_trans [OF k1(2) steady_trans [OF k2(2) k3(2)]])
  show "round_active (start_round now c)" unfolding eq using act by (simp add: round_post_active)
  have "polls_ok (start_round now c) \<and> steady c (start_round now c)"
  proof (cases "round_focus c3 \<ge> 0 \<and> round_focus c3 \<noteq> s")
    case True
    let ?f = "round_focus c3"
    have w3: "wanted_ids a b (timers c3) = wanted_ids a b (timers c)" for a b
      using same_polls_ids(2) [OF k3(3)] w by simp
    have "set (wanted_ids tier_deep ?f (timers c)) \<inter> set (wanted_ids tier_deep s (timers c)) = {}" if "s \<ge> 0"
      by (rule wanted_ids_disjoint [OF d]) (use True that in \<open>auto simp: round_wants_def\<close>)
    then have "set (wanted_ids tier_deep ?f (timers c3)) \<inter> set (poll_ids (polls c3)) = {}"
      using k3(4) wanted_ids_disjoint [OF d, of tier_deep ?f tier_fast "-1"] unfolding w3
      by (fastforce simp: round_wants_def split: if_splits)
    note p = round_post_polls [OF k3(1) this]
    then show ?thesis unfolding eq using True steady_trans [OF sc p(2)] by simp
  next
    case False
    then have "start_round now c = c3" unfolding eq by auto
    then show ?thesis using k3(1) sc by simp
  qed
  then show "polls_ok (start_round now c)" "steady c (start_round now c)" by blast+
qed

text \<open>Between rounds no poll is queued: the loop starts a round only once the last one has drained.\<close>

definition rounds_ok :: "modbusmq_context_t \<Rightarrow> bool" where
  "rounds_ok c \<longleftrightarrow> polls_ok c \<and> (polls c \<noteq> [] \<longrightarrow> round_active c)"

lemma round_busy_polls: "modbusmq_round_busy c \<longleftrightarrow> polls c \<noteq> []"
  by (auto simp: modbusmq_round_busy_def polls_def filter_empty_conv)

lemma prepare_rounds_ok:
  assumes ok: "rounds_ok c"
  shows "rounds_ok (fst (modbusmq_loop_prepare_rounds cfg c st))"
    "steady c (fst (modbusmq_loop_prepare_rounds cfg c st))"
    "polls c \<noteq> [] \<longrightarrow> msg_queue (fst (modbusmq_loop_prepare_rounds cfg c st)) = msg_queue c"
proof -
  let ?now = "clock c (ticks c)"
  let ?c = "c\<lparr>ticks := Suc (ticks c)\<rparr>"
  define d where "d = (if round_active c \<and> polls c = []
      then ?c\<lparr>round_active := False, round_last_ms := ?now - round_start_ms c\<rparr> else ?c)"
  have b: "modbusmq_round_busy ?c \<longleftrightarrow> polls c \<noteq> []" by (simp add: round_busy_polls polls_def)
  have dd: "steady c d" "polls d = polls c" "timers d = timers c" "polls_ok d" "msg_queue d = msg_queue c"
    using ok by (simp_all add: d_def steady_def polls_def polls_ok_def rounds_ok_def)
  have act: "round_active d \<longleftrightarrow> polls c \<noteq> []"
    using ok by (auto simp: d_def rounds_ok_def)
  have eq: "fst (modbusmq_loop_prepare_rounds cfg c st) =
    (if \<not> round_active d \<and> timers d \<noteq> [] \<and> ?now \<ge> round_start_ms d + word_of_int (round_interval_ms cfg)
     then start_round ?now d else d)"
    using b by (simp add: modbusmq_loop_prepare_rounds_def millitime_def Let_def d_def)
  have "distinct (map timer_id (timers d))" using dd(4) by (simp add: polls_ok_def)
  note sr = start_round_polls [OF this, of ?now]
  show "rounds_ok (fst (modbusmq_loop_prepare_rounds cfg c st))"
    using sr dd act unfolding eq by (auto simp: rounds_ok_def)
  show "steady c (fst (modbusmq_loop_prepare_rounds cfg c st))"
    using sr(2) dd act steady_trans [OF dd(1)] unfolding eq by auto
  show "polls c \<noteq> [] \<longrightarrow> msg_queue (fst (modbusmq_loop_prepare_rounds cfg c st)) = msg_queue c"
    using act dd(5) unfolding eq by auto
qed

definition in_rounds :: "modbusmq_context_t \<Rightarrow> bool" where
  "in_rounds c \<longleftrightarrow> (case config c of Some cfg \<Rightarrow> query_mode cfg = query_mode_rounds | None \<Rightarrow> False)"

lemma prepare_subscription_ok:
  fixes st :: millitime_t
  assumes "polls_ok c" and "in_rounds c \<longrightarrow> rounds_ok c"
  defines "c' \<equiv> fst (modbusmq_loop_prepare_subscription c st)"
  shows "polls_ok c'" "in_rounds c' \<longrightarrow> rounds_ok c'" "steady c c'"
proof -
  have "(polls_ok c' \<and> (in_rounds c' \<longrightarrow> rounds_ok c')) \<and> steady c c'"
  proof (cases "in_rounds c")
    case True
    then obtain cfg where "c' = fst (modbusmq_loop_prepare_rounds cfg c st)"
      by (auto simp: in_rounds_def c'_def modbusmq_loop_prepare_subscription_def split: option.splits)
    then show ?thesis using prepare_rounds_ok [of c cfg st] assms(2) True by (auto simp: rounds_ok_def)
  next
    case False
    then have "c' = fst (prepare_walk c st)"
      by (auto simp: in_rounds_def c'_def modbusmq_loop_prepare_subscription_def split: option.splits)
    moreover have "in_rounds (fst (prepare_walk c st)) = in_rounds c"
      using prepare_walk_polls(2) [OF assms(1)] by (simp add: steady_def in_rounds_def)
    ultimately show ?thesis using prepare_walk_polls [OF assms(1)] False by simp
  qed
  then show "polls_ok c'" "in_rounds c' \<longrightarrow> rounds_ok c'" "steady c c'" by blast+
qed

end
