(* ===== verification/Poll_Props.thy ===== *)
theory Poll_Props
  imports Link_Props Rounds_Facts
begin

text \<open>
  Properties of the request queue, of the backoff of slaves that stop answering, of the
  subscriptions and of polling.
\<close>

section \<open>Sample timers\<close>

definition sample_timer :: "int \<Rightarrow> int \<Rightarrow> modbusmq_tier_e \<Rightarrow> modbusmq_timer_t" where
  "sample_timer tid slave tier =
     \<lparr>timer_id = tid, timer_start = 0, timer_next_time = 0, timer_interval = 1000, orig_interval = 1000,
      timer_tier = tier, timer_slave = slave, is_once = False, misses = 0, unresponsive = False,
      retry_ms = 0, retry_at = 0,
      tmsg = \<lparr>msg_id = 0, req_id = 0, frame0 = modbusmq_rtu_frame_init sample_rtu 3 0 1, frame1 = frame_zero\<rparr>\<rparr>"

definition sample_config :: "modbusmq_query_mode_e \<Rightarrow> modbusmq_config_t" where
  "sample_config mode =
     config_zero\<lparr>offset_size := 1, query_mode := mode, slave_retry_max_ms := 5000, frame_delay_ms := 20, raw_write := True\<rparr>"

definition sample_polling :: modbusmq_context_t where
  "sample_polling = sample_rtu\<lparr>config := Some (sample_config query_mode_rounds),
     timers := [sample_timer 1 7 tier_fast, sample_timer 2 7 tier_deep, sample_timer 3 8 tier_deep,
                sample_timer 4 7 tier_deep, sample_timer 5 9 tier_deep]\<rparr>"

lemma sample_polling_simps:
  "timers sample_polling = [sample_timer 1 7 tier_fast, sample_timer 2 7 tier_deep, sample_timer 3 8 tier_deep,
                sample_timer 4 7 tier_deep, sample_timer 5 9 tier_deep]"
  "retry_max sample_polling = 5000" "msg_queue sample_polling = []"
  by (simp_all add: sample_polling_def retry_max_def sample_config_def sample_rtu_def
      modbusmq_rtu_context_def context_zero_def Let_def)

section \<open>The request queue\<close>

text \<open>Posting several messages, urgent or not.\<close>

fun post_all :: "modbusmq_context_t \<Rightarrow> (modbusmq_msg_t \<times> int) list \<Rightarrow> modbusmq_context_t" where
  "post_all c [] = c"
| "post_all c ((m, fl) # ms) =
     (let (rc, c, m) = modbusmq_post_internal c m fl in post_all c ms)"

lemma post_all_insert:
  "\<exists>ws. msg_queue (post_all c ms) = rq.insert_all ws (msg_queue c)
      \<and> map (\<lambda>w. (msg_id (wmsg w), flags w)) ws = map (\<lambda>(m, fl). (msg_id m, fl)) ms"
proof (induction c ms rule: post_all.induct)
  case (2 c m fl ms)
  obtain rc c' m' where p: "modbusmq_post_internal c m fl = (rc, c', m')"
    by (cases "modbusmq_post_internal c m fl")
  obtain w where w: "flags w = fl" "msg_id (wmsg w) = msg_id m" "msg_queue c' = queue_insert w (msg_queue c)"
    using post_internal_queue(1) [OF p] by blast
  from 2 [OF p [symmetric] refl] obtain ws where "msg_queue (post_all c' ms) = rq.insert_all ws (msg_queue c')"
    "map (\<lambda>w. (msg_id (wmsg w), flags w)) ws = map (\<lambda>(m, fl). (msg_id m, fl)) ms" by blast
  then show ?case using w by (intro exI [of _ "w # ws"]) (simp add: p)
qed (simp add: exI [of _ "[]"])

text \<open>
  C14. Whatever is posted, and however often, the request in flight stays at the head, the
  direct requests stay in front of the polls behind it, and both classes keep the order in
  which they were posted.
\<close>

theorem queue_discipline:
  assumes "msg_queue c \<noteq> []" and "posts_first (msg_queue c)"
  shows "hd (msg_queue (post_all c ms)) = hd (msg_queue c) \<and> posts_first (msg_queue (post_all c ms))
    \<and> map (msg_id \<circ> wmsg) (filter is_post (msg_queue (post_all c ms)))
        = map (msg_id \<circ> wmsg) (filter is_post (msg_queue c)) @ map (msg_id \<circ> fst) (filter (\<lambda>p. snd p = 1) ms)
    \<and> map (msg_id \<circ> wmsg) (filter (Not \<circ> is_post) (msg_queue (post_all c ms)))
        = map (msg_id \<circ> wmsg) (filter (Not \<circ> is_post) (msg_queue c))
          @ map (msg_id \<circ> fst) (filter (\<lambda>p. snd p \<noteq> 1) ms)"
proof -
  obtain ws where q: "msg_queue (post_all c ms) = rq.insert_all ws (msg_queue c)"
    and ws: "map (\<lambda>w. (msg_id (wmsg w), flags w)) ws = map (\<lambda>(m, fl). (msg_id m, fl)) ms"
    using post_all_insert by blast
  have "map (msg_id \<circ> wmsg) (filter is_post ws) = map (msg_id \<circ> fst) (filter (\<lambda>p. snd p = 1) ms)
      \<and> map (msg_id \<circ> wmsg) (filter (Not \<circ> is_post) ws) = map (msg_id \<circ> fst) (filter (\<lambda>p. snd p \<noteq> 1) ms)"
    using map_eq_imp_length_eq [OF ws] ws
    by (induction ws ms rule: list_induct2) (auto split: prod.splits)
  then show ?thesis
    unfolding q using rq.insert_all_head [OF assms(1)] rq.insert_all_ordered [OF assms(2)]
      rq.insert_all_filter [OF assms(2), of ws] by simp
qed

lemma posts_first_single: "length q = 1 \<Longrightarrow> q \<noteq> []" "length q = 1 \<Longrightarrow> posts_first q"
  by (auto simp: length_Suc_conv posts_first_def class_first_def)

theorem queue_discipline_witness:
  "hd (msg_queue (post_all (post_all sample_polling [(exchange rtu_read_req [], 2)])
       [(exchange rtu_read_req [], 2), (exchange rtu_read_req [], 1)]))
   = hd (msg_queue (post_all sample_polling [(exchange rtu_read_req [], 2)]))"
proof -
  let ?c = "post_all sample_polling [(exchange rtu_read_req [], 2)]"
  obtain ws where q: "msg_queue ?c = rq.insert_all ws (msg_queue sample_polling)"
    and e: "map (\<lambda>w. (msg_id (wmsg w), flags w)) ws = map (\<lambda>(m, fl). (msg_id m, fl)) [(exchange rtu_read_req [], 2)]"
    using post_all_insert by blast
  obtain w where "ws = [w]" using map_eq_imp_length_eq [OF e] by (auto simp: length_Suc_conv)
  then have "length (msg_queue ?c) = 1" unfolding q by (simp add: sample_polling_simps)
  note one = posts_first_single [OF this]
  show ?thesis by (rule conjunct1 [OF queue_discipline [OF one]])
qed

section \<open>Backoff\<close>

text \<open>
  C20. A slave that answers its polls until then and misses \<open>n\<close> in a row is still polled at its
  own pace below three misses; from the third on every timer of it waits \<open>1000 * 2 ^ (n - 3)\<close>
  milliseconds between probes, capped by the configured maximum. Timers of other slaves are
  untouched.
\<close>

theorem backoff_schedule:
  assumes "wf_backoff (retry_max c) (timers c)" and "0 < retry_max c" and "retry_max c < 2 ^ 31"
    and "modbusmq_timer_find c tid = Some t" and "backoff_of t = Listening 0"
    and "u \<in> set (timers (timeouts n tid c))" and "timer_slave u = timer_slave t"
  shows "backoff_of u = (if n < 3 then Listening n else Probing (min (1000 * 2 ^ (n - 3)) (nat (retry_max c))))"
proof -
  have same: "backoff_of v = Listening 0" if "v \<in> set (timers c)" "timer_slave v = timer_slave t" for v
    using wf_backoffD(2) [OF assms(1) timer_find_Some(1) [OF assms(4)] that] assms(5)
    by (auto simp: backoff_of_def backoff_key_def split: if_splits)
  have "backoff_of u \<in> set (map backoff_of (filter (\<lambda>u. timer_slave u = timer_slave t) (timers (timeouts n tid c))))"
    using assms(6,7) by simp
  then obtain v where "v \<in> set (timers c)" "timer_slave v = timer_slave t"
    "backoff_of u = (timeout_step (nat (retry_max c)) ^^ n) (backoff_of v)"
    unfolding timeouts_refines [OF assms(1,3,4,2)] by auto
  then show ?thesis using same timeout_steps [of "nat (retry_max c)" n] assms(2) by simp
qed

lemma sample_polling_wf: "wf_backoff (retry_max sample_polling) (timers sample_polling)"
  by (simp add: sample_polling_simps wf_backoff_def backoff_bounds_def backoff_key_def sample_timer_def)

theorem backoff_schedule_witness:
  "backoff_of (timers (timeouts 5 2 sample_polling) ! 0) = Probing 4000"
proof -
  let ?c = "timeouts 5 2 sample_polling"
  have f: "modbusmq_timer_find sample_polling 2 = Some (sample_timer 2 7 tier_deep)"
    by (simp add: modbusmq_timer_find_def sample_polling_simps sample_timer_def)
  have "map timer_slave (timers ?c) = [7, 7, 8, 7, 9]" by code_simp
  then have "timers ?c \<noteq> []" "timer_slave (timers ?c ! 0) = 7" by (cases "timers ?c"; simp)+
  then have "timers ?c ! 0 \<in> set (timers ?c)" "timer_slave (timers ?c ! 0) = timer_slave (sample_timer 2 7 tier_deep)"
    by (simp_all add: sample_timer_def)
  from backoff_schedule [OF sample_polling_wf _ _ f _ this] show ?thesis
    by (simp add: sample_polling_simps sample_timer_def backoff_of_def)
qed

text \<open>
  C12. The backoff code implements the two-state machine \<open>Listening\<close>/\<open>Probing\<close>: an answer or a
  timeout of any poll of a slave moves every timer of that slave by one step of the machine,
  leaves all other timers as they are, and keeps the data of a slave's timers in agreement.
\<close>

theorem backoff_refines:
  fixes answered :: bool
  assumes "wf_backoff (retry_max c) (timers c)" and "retry_max c < 2 ^ 31"
    and "modbusmq_timer_find c tid = Some t"
  defines "ts \<equiv> timers (modbusmq_slave_update c tid answered)"
  shows "map backoff_of (filter (\<lambda>u. timer_slave u = timer_slave t) ts)
       = map (backoff_step (retry_max c) answered \<circ> backoff_of)
           (filter (\<lambda>u. timer_slave u = timer_slave t) (timers c))
     \<and> filter (\<lambda>u. timer_slave u \<noteq> timer_slave t) ts = filter (\<lambda>u. timer_slave u \<noteq> timer_slave t) (timers c)
     \<and> wf_backoff (retry_max c) ts"
  unfolding ts_def
  using slave_update_refines [OF assms(1-3)] slave_update_wf [OF assms(1,2)] by blast

theorem backoff_refines_witness:
  "wf_backoff 5000 (timers (modbusmq_slave_update sample_polling 3 False))"
proof -
  have f: "modbusmq_timer_find sample_polling 3 = Some (sample_timer 3 8 tier_deep)"
    by (simp add: modbusmq_timer_find_def sample_polling_simps sample_timer_def)
  show ?thesis
    using backoff_refines [OF sample_polling_wf _ f, of False] by (simp add: sample_polling_simps)
qed

text \<open>
  C21. One probe per interval: when the gate lets the poll of an unresponsive slave through, it
  is shut for every timer of that slave until the retry interval has passed.
\<close>

theorem one_probe_per_interval:
  assumes "wf_backoff m ts" and "t \<in> set ts" and "unresponsive t"
    and "modbusmq_slave_gate ts t now = (True, ts')" and "unat now + unat (retry_ms t) < 2 ^ 64"
    and "u \<in> set ts'" and "timer_slave u = timer_slave t" and "unat later < unat now + unat (retry_ms t)"
  shows "fst (modbusmq_slave_gate ts' u later) = False"
  by (rule slave_gate_closes [OF assms(4,3,1,2,5-8)])

theorem one_probe_per_interval_witness:
  "let ts = timers (timeouts 3 2 sample_polling); ts' = snd (modbusmq_slave_gate ts (ts ! 0) 5000)
   in fst (modbusmq_slave_gate ts' (ts' ! 3) 5999) = False"
proof -
  let ?ts = "timers (timeouts 3 2 sample_polling)"
  obtain ok ts' where g: "modbusmq_slave_gate ?ts (?ts ! 0) 5000 = (ok, ts')"
    by (cases "modbusmq_slave_gate ?ts (?ts ! 0) 5000")
  have "fst (modbusmq_slave_gate ?ts (?ts ! 0) 5000)" by code_simp
  then have t: "ok = True" by (simp add: g)
  have "modbusmq_timer_find sample_polling 2 = Some (sample_timer 2 7 tier_deep)"
    by (simp add: modbusmq_timer_find_def sample_polling_simps sample_timer_def)
  then have wf: "wf_backoff 5000 ?ts"
    using timeouts_inv(1) [OF sample_polling_wf] by (simp add: sample_polling_simps)
  have "length ?ts = 5" "unresponsive (?ts ! 0)" "unat (retry_ms (?ts ! 0)) = 1000" "timer_slave (?ts ! 0) = 7"
    by (code_simp, code_simp, code_simp, code_simp)
  moreover have "map timer_slave (snd (modbusmq_slave_gate ?ts (?ts ! 0) 5000)) = [7, 7, 8, 7, 9]" by code_simp
  then have m: "map timer_slave ts' = [7, 7, 8, 7, 9]" by (simp add: g)
  have "length ts' = 5" using arg_cong [OF m, of length] by simp
  then have "ts' ! 3 \<in> set ts'" "timer_slave (ts' ! 3) = 7"
    using arg_cong [OF m, of "\<lambda>xs. xs ! 3"] by simp_all
  ultimately show ?thesis
    using one_probe_per_interval [OF wf _ _ g [unfolded t], of "ts' ! 3" 5999] by (simp add: g)
qed

section \<open>Subscriptions\<close>

text \<open>Inserting before the first longer interval keeps a list sorted by interval.\<close>

lemma insert_before_longer_set: "set (insert_before_longer t ts) = insert t (set ts)"
  by (induction ts) auto

lemma insert_before_longer_sorted:
  "sorted (map timer_interval ts) \<Longrightarrow> sorted (map timer_interval (insert_before_longer t ts))"
  by (induction ts) (auto simp: insert_before_longer_set)

lemma insert_before_longer_split:
  "\<exists>xs ys. ts = xs @ ys \<and> insert_before_longer t ts = xs @ t # ys"
proof (induction ts)
  case (Cons e es)
  then obtain xs ys where "es = xs @ ys" "insert_before_longer t es = xs @ t # ys" by blast
  then show ?case
    by (cases "timer_interval t < timer_interval e") (auto intro: exI [of _ "[]"] exI [of _ "e # xs"])
qed simp

lemma timer_add_parallel:
  assumes "\<not> is_once t" and "sorted (map timer_interval ts)"
  shows "sorted (map timer_interval (timer_add query_mode_parallell t ts))
    \<and> (\<exists>xs ys t'. ts = xs @ ys \<and> timer_add query_mode_parallell t ts = xs @ t' # ys
         \<and> timer_id t' = timer_id t \<and> timer_interval t' = timer_interval t \<and> tmsg t' = tmsg t)"
proof (cases ts)
  case (Cons h rest)
  let ?t = "t\<lparr>timer_start := timer_start h, timer_next_time := timer_start h\<rparr>"
  have eq: "timer_add query_mode_parallell t ts = insert_before_longer ?t ts"
    using assms(1) by (simp add: timer_add_def Cons)
  obtain xs ys where "ts = xs @ ys" "insert_before_longer ?t ts = xs @ ?t # ys"
    using insert_before_longer_split by blast
  then have "\<exists>xs ys t'. ts = xs @ ys \<and> insert_before_longer ?t ts = xs @ t' # ys
         \<and> timer_id t' = timer_id t \<and> timer_interval t' = timer_interval t \<and> tmsg t' = tmsg t"
    by (intro exI [of _ xs] exI [of _ ys] exI [of _ ?t]) simp
  then show ?thesis unfolding eq using insert_before_longer_sorted [OF assms(2)] by blast
qed (simp add: timer_add_def exI [of _ t])

text \<open>
  C24. In parallel mode a subscription with an interval joins the timers without disturbing the
  others, and a list sorted by interval stays sorted; the new timer has the next id, the
  interval asked for, and is due at once.
\<close>

theorem subscribe_parallel_sorted:
  assumes "config c = Some cfg" and "query_mode cfg = query_mode_parallell" and "0 < interval"
    and "sorted (map timer_interval (timers c))" and "modbusmq_subscribe c m interval = Some (rc, c')"
  shows "rc = 0 \<and> sorted (map timer_interval (timers c'))
    \<and> (\<exists>xs t ys. timers c = xs @ ys \<and> timers c' = xs @ t # ys \<and> timer_id t = timer_id_next c + 1
         \<and> timer_interval t = word_of_int interval \<and> tmsg t = m)"
proof -
  let ?t = "\<lparr>timer_id = timer_id_next c + 1, timer_start = clock c (ticks c), timer_next_time = clock c (ticks c),
      timer_interval = word_of_int interval, orig_interval = word_of_int interval, timer_tier = tier_fast,
      timer_slave = modbusmq_frame_slave c (frame0 m), is_once = False, misses = 0, unresponsive = False,
      retry_ms = 0, retry_at = 0, tmsg = m\<rparr>"
  have slave: "modbusmq_frame_slave (c\<lparr>timer_id_next := a, ticks := b\<rparr>) f = modbusmq_frame_slave c f" for a b f
    by (simp add: modbusmq_frame_slave_def cb_def)
  have "rc = 0 \<and> timers c' = timer_add query_mode_parallell ?t (timers c)"
    using assms by (auto simp: modbusmq_subscribe_def modbusmq_timer_id_def millitime_def Let_def slave)
  then show ?thesis using timer_add_parallel [of ?t "timers c"] assms(4) by fastforce
qed

theorem subscribe_parallel_sorted_witness:
  "\<exists>c'. modbusmq_subscribe (sample_polling\<lparr>config := Some (sample_config query_mode_parallell)\<rparr>)
       (exchange rtu_read_req []) 500 = Some (0, c')
     \<and> sorted (map timer_interval (timers c'))"
proof -
  let ?c = "sample_polling\<lparr>config := Some (sample_config query_mode_parallell)\<rparr>"
  have cfg: "config ?c = Some (sample_config query_mode_parallell)" by simp
  have mode: "query_mode (sample_config query_mode_parallell) = query_mode_parallell" by (simp add: sample_config_def)
  have srt: "sorted (map timer_interval (timers ?c))" by (simp add: sample_polling_simps sample_timer_def)
  obtain rc c' where s: "modbusmq_subscribe ?c (exchange rtu_read_req []) 500 = Some (rc, c')"
    using mode by (auto simp: modbusmq_subscribe_def modbusmq_timer_id_def millitime_def Let_def)
  from subscribe_parallel_sorted [OF cfg mode _ srt s] show ?thesis using s by auto
qed

text \<open>In series mode the timers take turns: each is due its own interval after the one before it.\<close>

definition series_ok :: "modbusmq_timer_t list \<Rightarrow> bool" where
  "series_ok ts \<longleftrightarrow> (\<forall>t \<in> set ts. \<not> is_once t \<and> timer_interval t = sum_list (map orig_interval ts))
     \<and> (\<forall>i. Suc i < length ts \<longrightarrow>
          timer_next_time (ts ! Suc i) = timer_next_time (ts ! i) + orig_interval (ts ! Suc i))"

lemma insert_series_ok:
  assumes "series_ok ts" and "ts \<noteq> []" and "\<not> is_once t"
  shows "series_ok (insert_series t ts)"
proof -
  let ?T = "sum_list (map orig_interval ts) + orig_interval t"
  let ?t = "t\<lparr>timer_next_time := timer_next_time (last ts) + orig_interval t\<rparr>"
  let ?u = "\<lambda>e. if is_once e then e else e\<lparr>timer_interval := ?T\<rparr>"
  have eq: "insert_series t ts = map ?u (ts @ [?t])" by (simp add: insert_series_def Let_def)
  have orig: "map orig_interval (map ?u xs) = map orig_interval xs" for xs by simp
  have sum: "sum_list (map orig_interval (insert_series t ts)) = ?T" unfolding eq orig by simp
  have nt: "timer_next_time (?u e) = timer_next_time e" "orig_interval (?u e) = orig_interval e" for e by simp_all
  have len: "length (insert_series t ts) = Suc (length ts)" unfolding eq by simp
  have step: "timer_next_time (insert_series t ts ! Suc i)
      = timer_next_time (insert_series t ts ! i) + orig_interval (insert_series t ts ! Suc i)"
    if "Suc i < length (insert_series t ts)" for i
  proof (cases "Suc i < length ts")
    case True
    then show ?thesis using assms(1) by (simp add: eq nth_append series_ok_def)
  next
    case False
    then have "Suc i = length ts" using that len by simp
    moreover from this have "ts ! i = last ts" using assms(2) by (simp add: last_conv_nth flip: \<open>Suc i = length ts\<close>)
    moreover have "i < length ts" using \<open>Suc i = length ts\<close> by simp
    ultimately show ?thesis by (simp add: eq nth_append nt)
  qed
  have "\<forall>e \<in> set (insert_series t ts). \<not> is_once e \<and> timer_interval e = ?T"
    using assms(1,3) by (auto simp: eq series_ok_def)
  then show ?thesis unfolding series_ok_def sum using step by blast
qed

text \<open>
  C25. In series mode every subscription leaves the timers spaced: all of them have the sum of
  the intervals as their period, and each is due its own interval after its predecessor, so
  that no two polls of a period coincide.
\<close>

theorem subscribe_series_spaced:
  assumes "config c = Some cfg" and "query_mode cfg = query_mode_series" and "0 < interval"
    and "series_ok (timers c)" and "modbusmq_subscribe c m interval = Some (rc, c')"
  shows "series_ok (timers c') \<and> length (timers c') = Suc (length (timers c))
    \<and> orig_interval (last (timers c')) = word_of_int interval"
proof -
  let ?t = "\<lparr>timer_id = timer_id_next c + 1, timer_start = clock c (ticks c), timer_next_time = clock c (ticks c),
      timer_interval = word_of_int interval, orig_interval = word_of_int interval, timer_tier = tier_fast,
      timer_slave = modbusmq_frame_slave c (frame0 m), is_once = False, misses = 0, unresponsive = False,
      retry_ms = 0, retry_at = 0, tmsg = m\<rparr>"
  have slave: "modbusmq_frame_slave (c\<lparr>timer_id_next := a, ticks := b\<rparr>) f = modbusmq_frame_slave c f" for a b f
    by (simp add: modbusmq_frame_slave_def cb_def)
  have c': "timers c' = timer_add query_mode_series ?t (timers c)"
    using assms by (auto simp: modbusmq_subscribe_def modbusmq_timer_id_def millitime_def Let_def slave)
  show ?thesis
  proof (cases "timers c")
    case Nil
    then have "timers c' = [?t]" by (simp add: c' timer_add_def)
    then show ?thesis using Nil by (simp add: series_ok_def)
  next
    case (Cons h rest)
    then have eq: "timers c' = insert_series (?t\<lparr>timer_start := timer_start h\<rparr>) (timers c)"
      by (simp add: c' timer_add_def)
    have "series_ok (timers c')"
      unfolding eq by (rule insert_series_ok [OF assms(4)]) (simp_all add: Cons)
    moreover have "length (timers c') = Suc (length (timers c))"
      "orig_interval (last (timers c')) = word_of_int interval"
      unfolding eq by (simp_all add: insert_series_def Let_def)
    ultimately show ?thesis by blast
  qed
qed

theorem subscribe_series_spaced_witness:
  "\<exists>c'. modbusmq_subscribe (sample_polling\<lparr>config := Some (sample_config query_mode_series), timers := []\<rparr>)
       (exchange rtu_read_req []) 500 = Some (0, c')
     \<and> series_ok (timers c')"
proof -
  let ?c = "sample_polling\<lparr>config := Some (sample_config query_mode_series), timers := []\<rparr>"
  have cfg: "config ?c = Some (sample_config query_mode_series)" by simp
  have mode: "query_mode (sample_config query_mode_series) = query_mode_series" by (simp add: sample_config_def)
  have ok: "series_ok (timers ?c)" by (simp add: series_ok_def)
  obtain rc c' where s: "modbusmq_subscribe ?c (exchange rtu_read_req []) 500 = Some (rc, c')" "rc = 0"
    using mode by (auto simp: modbusmq_subscribe_def modbusmq_timer_id_def millitime_def Let_def)
  from subscribe_series_spaced [OF cfg mode _ ok s(1)] show ?thesis using s by auto
qed

section \<open>Rounds\<close>

text \<open>
  C22. One pass over the timers posts, behind everything that is queued, one poll for each
  timer of the tier (and slave) that still wants one, in the order of the timers, when all
  slaves answer; with slaves held back by the gate it posts a subsequence of those.
\<close>

theorem round_posts_each_once:
  "\<exists>ws. msg_queue (modbusmq_round_post tier slave c) = msg_queue c @ ws
     \<and> (\<forall>w \<in> set ws. flags w = MODBUSMQ_MSG_SUBSCRIBE)
     \<and> subseq (map (msg_id \<circ> wmsg) ws) (map timer_id (filter (round_wants tier slave) (timers c)))
     \<and> ((\<forall>t \<in> set (timers c). \<not> unresponsive t) \<longrightarrow>
          map (msg_id \<circ> wmsg) ws = map timer_id (filter (round_wants tier slave) (timers c)))"
proof -
  obtain ws where "msg_queue (modbusmq_round_post tier slave c) = msg_queue c @ ws"
    "round_polls tier slave (timers c) ws"
    using round_post_effect(3) by blast
  then show ?thesis
    by (intro exI [of _ ws]) (simp add: round_polls_def poll_ids_def wanted_ids_def)
qed

theorem round_posts_each_once_witness:
  "\<exists>ws. msg_queue (modbusmq_round_post tier_deep 7 sample_polling) = ws \<and> map (msg_id \<circ> wmsg) ws = [2, 4]"
proof -
  have w: "map timer_id (filter (round_wants tier_deep 7) (timers sample_polling)) = [2, 4]"
    by (simp add: sample_polling_simps sample_timer_def round_wants_def)
  have r: "\<forall>t \<in> set (timers sample_polling). \<not> unresponsive t"
    by (simp add: sample_polling_simps sample_timer_def)
  obtain ws where q: "msg_queue (modbusmq_round_post tier_deep 7 sample_polling) = msg_queue sample_polling @ ws"
    and m: "(\<forall>t \<in> set (timers sample_polling). \<not> unresponsive t) \<longrightarrow>
      map (msg_id \<circ> wmsg) ws = map timer_id (filter (round_wants tier_deep 7) (timers sample_polling))"
    using round_posts_each_once [of tier_deep 7 sample_polling] by (elim exE conjE)
  then show ?thesis using mp [OF m r] w by (intro exI [of _ ws]) (simp only: sample_polling_simps append_Nil)
qed



text \<open>
  C7. Polling never piles up: in every query mode, preparing a poll keeps the queue such that no
  timer has two polls in it and every poll belongs to a timer, so the polls never outnumber
  the timers.
\<close>

theorem polls_never_pile_up:
  assumes "polls_ok c" and "in_rounds c \<longrightarrow> rounds_ok c"
  shows "polls_ok (fst (modbusmq_loop_prepare_subscription c st))
    \<and> (in_rounds (fst (modbusmq_loop_prepare_subscription c st)) \<longrightarrow>
         rounds_ok (fst (modbusmq_loop_prepare_subscription c st)))
    \<and> length (polls (fst (modbusmq_loop_prepare_subscription c st)))
        \<le> length (timers (fst (modbusmq_loop_prepare_subscription c st)))"
  using prepare_subscription_ok [OF assms] polls_ok_bound by blast

lemma sample_polls_ok: "polls_ok sample_polling" "rounds_ok sample_polling"
  by (simp_all add: rounds_ok_def polls_ok_def polls_def sample_polling_simps) (simp_all add: sample_timer_def)

theorem polls_never_pile_up_witness:
  "polls_ok (fst (modbusmq_loop_prepare_subscription sample_polling 100))"
  using polls_never_pile_up sample_polls_ok by blast

text \<open>
  C23. Rounds do not overlap: as long as a poll of the last round is queued, preparing a poll
  starts no round and leaves the queue as it is.
\<close>

theorem rounds_do_not_overlap:
  assumes "rounds_ok c" and "modbusmq_round_busy c"
  shows "msg_queue (fst (modbusmq_loop_prepare_rounds cfg c st)) = msg_queue c"
  using prepare_rounds_ok(3) [OF assms(1)] assms(2) by (simp add: round_busy_polls)

definition sample_in_round :: modbusmq_context_t where
  "sample_in_round = sample_polling\<lparr>round_active := True,
     msg_queue := [\<lparr>flags = 2, head_since_ms = 0, wmsg = (tmsg (sample_timer 3 8 tier_deep))\<lparr>msg_id := 3\<rparr>\<rparr>]\<rparr>"

lemma sample_in_round_ok: "rounds_ok sample_in_round" "modbusmq_round_busy sample_in_round"
  by (simp_all add: rounds_ok_def polls_ok_def polls_def poll_ids_def sample_in_round_def round_busy_polls
      sample_polling_simps) (simp_all add: sample_timer_def)

theorem rounds_do_not_overlap_witness:
  "msg_queue (fst (modbusmq_loop_prepare_rounds (sample_config query_mode_rounds) sample_in_round 100)) \<noteq> []"
proof -
  have "msg_queue sample_in_round \<noteq> []" by (simp add: sample_in_round_def)
  then show ?thesis using rounds_do_not_overlap [OF sample_in_round_ok] by (simp only: not_False_eq_True)
qed

end
