(* ===== verification/Raw.thy ===== *)
theory Raw
  imports Reply Loop
begin

text \<open>
  Raw requests given as text: \<open>modbusmq_raw_number\<close>, \<open>modbusmq_raw_refuse\<close> and
  \<open>modbusmq_raw_request\<close> of lib/modbusmq.c.
\<close>

abbreviation (input) is_blank :: "char \<Rightarrow> bool" where "is_blank ch \<equiv> ch = CHR '' '' \<or> ch = CHR 0x09"

abbreviation (input) is_outer_space :: "char \<Rightarrow> bool" where
  "is_outer_space ch \<equiv> ch = CHR '' '' \<or> ch = CHR 0x09 \<or> ch = CHR 0x0D \<or> ch = CHR 0x0A"

text \<open>One number of a raw request: parsed, end of text, or not a number.\<close>

datatype raw_num = Num int string | No_More | Not_A_Number

definition modbusmq_raw_number :: "string \<Rightarrow> raw_num" where
  "modbusmq_raw_number p =
     (let p = dropWhile is_blank p
      in if p = [] then No_More
         else (case strtol0 p of
                 None \<Rightarrow> Not_A_Number
               | Some (v, rest) \<Rightarrow>
                   if rest \<noteq> [] \<and> \<not> is_blank (hd rest) then Not_A_Number else Num v rest))"

lemma strtol0_shorter:
  assumes "strtol0 p = Some (v, rest)"
  shows "length rest < length p"
proof -
  have u: "length r < length s" if "strtol_unsigned s = Some (n, r)" for s n r
  proof -
    let ?body = "\<lambda>h. if h then drop 2 s else s"
    obtain b h where ds: "takeWhile (is_digit_of b) (?body h) \<noteq> []"
      and r: "r = drop (length (takeWhile (is_digit_of b) (?body h))) (?body h)"
      using \<open>strtol_unsigned s = Some (n, r)\<close>
      unfolding strtol_unsigned_def Let_def by (auto split: if_splits)
    let ?n = "length (takeWhile (is_digit_of b) (?body h))"
    have "0 < ?n" "?n \<le> length (?body h)" using ds by (simp_all add: length_takeWhile_le)
    moreover have "length (?body h) \<le> length s" by simp
    ultimately show ?thesis unfolding r by (simp only: length_drop)
  qed
  let ?s = "dropWhile is_space p"
  have "length ?s \<le> length p" by (rule length_dropWhile_le)
  moreover have "length rest < length ?s"
    using assms u by (fastforce simp: strtol0_def Let_def split: if_splits)
  ultimately show ?thesis by linarith
qed

lemma raw_number_shorter:
  assumes "modbusmq_raw_number p = Num v rest"
  shows "length rest < length p"
proof -
  have "length (dropWhile is_blank p) \<le> length p" by (rule length_dropWhile_le)
  moreover have "strtol0 (dropWhile is_blank p) = Some (v, rest)"
    using assms by (auto simp: modbusmq_raw_number_def Let_def split: if_splits option.splits)
  ultimately show ?thesis using strtol0_shorter by fastforce
qed

text \<open>
  The loop over the values: at most 123 of them, each of 16 bits. \<open>Inl\<close> is the reason to
  refuse.
\<close>

function raw_values :: "string \<Rightarrow> u16 list \<Rightarrow> string + u16 list" where
  "raw_values p vs =
     (case modbusmq_raw_number p of
        No_More \<Rightarrow> Inr vs
      | Not_A_Number \<Rightarrow> Inl ''not a number''
      | Num v rest \<Rightarrow>
          if length vs = 123 then Inl ''more than 123 values''
          else if v < -32768 \<or> v > 0xFFFF then Inl ''value outside 16 bits''
          else raw_values rest (vs @ [word_of_int v]))"
  by pat_completeness auto
termination
  by (relation "measure (\<lambda>(p, vs). length p)") (auto dest: raw_number_shorter)

declare raw_values.simps [simp del]

text \<open>\<open>bits[i / 8] |= (values[i] != 0) << (i % 8)\<close> into \<open>uint8_t bits[16]\<close>.\<close>

definition raw_pack_bits :: "u16 list \<Rightarrow> byte list" where
  "raw_pack_bits vs =
     fold (\<lambda>i bits. bits[i div 8 := bits ! (i div 8) OR push_bit (i mod 8) (if vs ! i \<noteq> 0 then 1 else 0)])
       [0..<length vs] (replicate 16 0)"

text \<open>
  The frame of the request or the reason to refuse it; \<open>None\<close> is a read past the end of the
  caller's array in the frame builder. The count is that of a read.
\<close>

definition raw_frame ::
    "modbusmq_context_t \<Rightarrow> bool \<Rightarrow> int \<Rightarrow> int \<Rightarrow> int \<Rightarrow> u16 list
       \<Rightarrow> (string + (int \<times> int \<times> modbusmq_frame_t)) option" where
  "raw_frame c writes slave fc addr vs =
     (if fc \<in> {1, 2, 3, 4} then
        (let count = (if length vs = 1 then uint (vs ! 0) else 0)
         in if length vs \<noteq> 1 \<or> count < 1 \<or> count > 2000 \<or> (fc \<ge> 3 \<and> count > 125) \<or> slave = 0
            then Some (Inl ''a read takes one count, 1-2000 bits or 1-125 registers, and no broadcast'')
            else Some (Inr (count,
                   if fc = 1 then modbusmq_frame_read_coil_bits c addr count
                   else if fc = 2 then modbusmq_frame_read_input_bits c addr count
                   else if fc = 3 then modbusmq_frame_read_holding_registers c addr count
                   else modbusmq_frame_read_input_registers c addr count)))
      else if fc \<in> {5, 6, 15, 16} then
        (if \<not> writes then Some (Inl ''writes need modbusmq.raw_write = 1'')
         else if length vs < 1 \<or> (fc \<le> 6 \<and> length vs \<noteq> 1)
         then Some (Inl ''fc 5 and 6 take one value, fc 15 and 16 one or more'')
         else if fc = 5
         then Some (Inr (0, modbusmq_frame_write_coil_bit c addr (if vs ! 0 \<noteq> 0 then 1 else 0)))
         else if fc = 6 then Some (Inr (0, modbusmq_frame_write_register c addr (uint (vs ! 0))))
         else if fc = 15 then
           map_option (\<lambda>r. Inr (0, r))
             (modbusmq_frame_write_coil_bits c frame_zero addr (int (length vs)) (raw_pack_bits vs))
         else
           map_option (\<lambda>r. Inr (0, r))
             (modbusmq_frame_write_registers c frame_zero addr (int (length vs)) vs))
      else Some (Inl ''fc must be 1-6, 15 or 16''))"

text \<open>The reason to refuse in the order of the checks, or the parsed request.\<close>

definition raw_parse ::
    "modbusmq_context_t \<Rightarrow> string \<Rightarrow> string + (int \<times> int \<times> int \<times> u16 list)" where
  "raw_parse c echo =
     (if raw_cb c then Inl ''busy, one request at a time''
      else
        (let p = (if take 1 echo = ''@'' then dropWhile (Not \<circ> (\<lambda>ch. is_blank ch)) echo else echo)
         in case modbusmq_raw_number p of
              Num slave p \<Rightarrow>
                (case modbusmq_raw_number p of
                   Num fc p \<Rightarrow>
                     (case modbusmq_raw_number p of
                        Num addr p \<Rightarrow>
                          (case raw_values p [] of
                             Inl reason \<Rightarrow> Inl reason
                           | Inr vs \<Rightarrow>
                               if slave < 0 \<or> slave > 247 \<or> addr < 0 \<or> addr > 0xFFFF
                               then Inl ''slave 0-247, addr 0-0xFFFF''
                               else if slave = 0 \<and> \<not> (case config c of None \<Rightarrow> False | Some cfg \<Rightarrow> raw_write cfg)
                               then Inl ''slave 0 is broadcast, needs modbusmq.raw_write = 1''
                               else Inr (slave, fc, addr, vs))
                      | _ \<Rightarrow> Inl ''expected slave fc addr'')
                 | _ \<Rightarrow> Inl ''expected slave fc addr'')
            | _ \<Rightarrow> Inl ''expected slave fc addr''))"

definition modbusmq_raw_refuse :: "modbusmq_context_t \<Rightarrow> string \<Rightarrow> string \<Rightarrow> modbusmq_context_t" where
  "modbusmq_raw_refuse c text reason =
     emit (Ev_Raw_Reply (text @ '' -> error refused '' @ reason)) c"

definition raw_echo :: "string \<Rightarrow> string" where
  "raw_echo text =
     rev (dropWhile is_outer_space (rev (dropWhile is_outer_space text)))"

definition modbusmq_raw_request ::
    "modbusmq_context_t \<Rightarrow> string \<Rightarrow> (int \<times> modbusmq_context_t) option" where
  "modbusmq_raw_request c text =
     (let echo = raw_echo text; saved_slave = slave_id c;
          writes = (case config c of None \<Rightarrow> False | Some cfg \<Rightarrow> raw_write cfg)
      in case raw_parse c echo of
           Inl reason \<Rightarrow> Some (-1, modbusmq_raw_refuse c echo reason)
         | Inr (slave, fc, addr, vs) \<Rightarrow>
             (case raw_frame (modbusmq_set_slave slave c) writes slave fc addr vs of
                None \<Rightarrow> None
              | Some (Inl reason) \<Rightarrow> Some (-1, modbusmq_raw_refuse c echo reason)
              | Some (Inr (count, rc, f)) \<Rightarrow>
                  (let c = modbusmq_set_slave saved_slave (modbusmq_set_slave slave c)
                   in if rc < 0
                      then Some (-1, modbusmq_raw_refuse c echo ''frame could not be built'')
                      else
                        (let (prc, c, m) =
                           modbusmq_post c \<lparr>msg_id = 0, req_id = 0, frame0 = f, frame1 = frame_zero\<rparr>
                         in if prc < 0
                            then Some (-1, modbusmq_raw_refuse c echo ''could not be queued'')
                            else Some (0, c\<lparr>raw_cb := True, raw_text := echo, raw_req_id := req_id m,
                                   raw_count := word_of_int count, raw_fc := word_of_int fc\<rparr>)))))"

end
