(* ===== verification/Raw_Props.thy ===== *)
theory Raw_Props
  imports Raw Link_Props
begin

text \<open>
  The raw request for writing several coils: it packs the values eight to a byte and hands the
  result to a frame builder that takes one byte for each coil.
\<close>

definition raw_pack_step :: "u16 list \<Rightarrow> nat \<Rightarrow> byte list \<Rightarrow> byte list" where
  "raw_pack_step vs i bits = bits[i div 8 := bits ! (i div 8) OR push_bit (i mod 8) (if vs ! i \<noteq> 0 then 1 else 0)]"

lemma raw_pack_bits_steps: "raw_pack_bits vs = fold (raw_pack_step vs) [0..<length vs] (replicate 16 0)"
  by (simp add: raw_pack_bits_def raw_pack_step_def [abs_def])

lemma raw_pack_step_bit:
  assumes "length bits = 16" and n: "n < 128" and m: "m < 16" and k: "k < 8"
  shows "bit (raw_pack_step vs n bits ! m) k \<longleftrightarrow> bit (bits ! m) k \<or> 8 * m + k = n \<and> vs ! n \<noteq> 0"
proof (cases "n div 8 = m")
  case True
  have a: "8 * m + k = n \<longleftrightarrow> n mod 8 = k" using True k by presburger
  have b: "bit (push_bit (n mod 8) (if vs ! n \<noteq> 0 then 1 else 0) :: byte) k \<longleftrightarrow> n mod 8 = k \<and> vs ! n \<noteq> 0"
    using k by (auto simp: bit_push_bit_iff bit_1_iff)
  have "raw_pack_step vs n bits ! m = bits ! m OR push_bit (n mod 8) (if vs ! n \<noteq> 0 then 1 else 0)"
    using assms(1) m by (simp add: raw_pack_step_def True)
  then show ?thesis by (simp only: bit_or_iff a b)
next
  case False
  then have "8 * m + k \<noteq> n" using k by auto
  then show ?thesis using False by (simp add: raw_pack_step_def)
qed

lemma raw_pack_bits_upto:
  assumes "n \<le> length vs" and "n \<le> 128"
  shows "length (fold (raw_pack_step vs) [0..<n] (replicate 16 0)) = 16
    \<and> (\<forall>m < 16. \<forall>k < 8. bit (fold (raw_pack_step vs) [0..<n] (replicate 16 0) ! m) k
         \<longleftrightarrow> 8 * m + k < n \<and> vs ! (8 * m + k) \<noteq> 0)"
  using assms
proof (induction n)
  case (Suc n)
  let ?b = "fold (raw_pack_step vs) [0..<n] (replicate 16 0)"
  have IH: "length ?b = 16" "\<forall>m < 16. \<forall>k < 8. bit (?b ! m) k \<longleftrightarrow> 8 * m + k < n \<and> vs ! (8 * m + k) \<noteq> 0"
    using Suc by simp_all
  have "fold (raw_pack_step vs) [0..<Suc n] (replicate 16 0) = raw_pack_step vs n ?b" by simp
  moreover have "length (raw_pack_step vs n ?b) = 16" using IH(1) by (simp add: raw_pack_step_def)
  moreover have "bit (raw_pack_step vs n ?b ! m) k \<longleftrightarrow> 8 * m + k < Suc n \<and> vs ! (8 * m + k) \<noteq> 0"
    if "m < 16" "k < 8" for m k
    using raw_pack_step_bit [OF IH(1) _ that, of n vs] IH(2) that Suc.prems by (auto simp: less_Suc_eq)
  ultimately show ?case by simp
qed simp

lemma byte_bits: "(b :: byte) \<noteq> 0 \<longleftrightarrow> (\<exists>k < 8. bit b k)"
proof -
  have "b = 0 \<longleftrightarrow> (\<forall>k < 8. bit b k = bit (0 :: byte) k)" by (auto simp: bit_eq_iff intro: bit_word_eqI)
  then show ?thesis by auto
qed

lemma raw_pack_bits:
  assumes "length vs \<le> 128"
  shows "length (raw_pack_bits vs) = 16"
    "m < 16 \<Longrightarrow> raw_pack_bits vs ! m \<noteq> 0 \<longleftrightarrow> (\<exists>k < 8. 8 * m + k < length vs \<and> vs ! (8 * m + k) \<noteq> 0)"
proof -
  note b = raw_pack_bits_upto [OF order_refl assms, folded raw_pack_bits_steps]
  show "length (raw_pack_bits vs) = 16" using b by blast
  show "raw_pack_bits vs ! m \<noteq> 0 \<longleftrightarrow> (\<exists>k < 8. 8 * m + k < length vs \<and> vs ! (8 * m + k) \<noteq> 0)" if "m < 16"
    unfolding byte_bits using b that by blast
qed

text \<open>
  C37. A raw write of several coils does not write the values asked for. With up to 16 of them,
  coil \<open>k\<close> is written as on exactly when one of the values \<open>8 * k\<close> to \<open>8 * k + 7\<close> is not zero, so the
  first coil takes the first eight values together and all from the third on are off. With more
  than 16 the frame builder reads past the packed bits.
\<close>

theorem raw_coils_misplaced:
  assumes "1 \<le> length vs" and "length vs \<le> 123"
  shows "(length vs \<le> 16 \<longrightarrow> (\<exists>g. raw_frame c True slave 15 addr vs = Some (Inr (0, flength g, g))
      \<and> (\<forall>k < length vs. bit (wire g ! (length (header_of c 0x0F addr (int (length vs))) + 1 + k div 8)) (k mod 8)
           \<longleftrightarrow> (\<exists>j < 8. 8 * k + j < length vs \<and> vs ! (8 * k + j) \<noteq> 0))))
    \<and> (16 < length vs \<longrightarrow> raw_frame c True slave 15 addr vs = None)"
proof (intro conjI impI)
  let ?n = "int (length vs)" and ?b = "raw_pack_bits vs"
  have f: "raw_frame c True slave 15 addr vs = map_option (\<lambda>r. Inr (0, r)) (modbusmq_frame_write_coil_bits c frame_zero addr ?n ?b)"
    using assms by (auto simp: raw_frame_def)
  have bl: "length vs \<le> 128" using assms by simp
  note p = raw_pack_bits [OF bl]
  {
    assume small: "length vs \<le> 16"
    then have b: "1 \<le> ?n" "?n \<le> 1968" "?n \<le> int (length ?b)" using assms p(1) by simp_all
    obtain g where g: "modbusmq_frame_write_coil_bits c frame_zero addr ?n ?b = Some (flength g, g)"
      "wire g = header_of c 0x0F addr ?n @ word_of_int (coil_bytes ?n)
                   # map (coil_byte ?b (nat ?n)) [0..<nat (coil_bytes ?n)]"
      using write_coil_bits_build [OF b, of c frame_zero addr] by blast
    have "bit (wire g ! (length (header_of c 0x0F addr ?n) + 1 + k div 8)) (k mod 8)
           \<longleftrightarrow> (\<exists>j < 8. 8 * k + j < length vs \<and> vs ! (8 * k + j) \<noteq> 0)" if k: "k < length vs" for k
    proof -
      have "coil_bytes n = (n + 7) div 8" for n unfolding coil_bytes_def by presburger
      then have "coil_bytes ?n = int ((length vs + 7) div 8)" by (simp add: zdiv_int)
      moreover have "k div 8 < (length vs + 7) div 8" using div_le_mono [of "k + 8" "length vs + 7" 8] k by simp
      ultimately have "k div 8 < nat (coil_bytes ?n)" by (simp only: nat_int)
      then have "wire g ! (length (header_of c 0x0F addr ?n) + 1 + k div 8) = coil_byte ?b (length vs) (k div 8)"
        by (simp add: g(2) nth_append)
      moreover have "k div 8 * 8 + k mod 8 = k" by simp
      ultimately have "bit (wire g ! (length (header_of c 0x0F addr ?n) + 1 + k div 8)) (k mod 8) \<longleftrightarrow> ?b ! k \<noteq> 0"
        using k by (simp add: coil_byte_bit)
      then show ?thesis using p(2) [of k] k small by simp
    qed
    then show "\<exists>g. raw_frame c True slave 15 addr vs = Some (Inr (0, flength g, g))
      \<and> (\<forall>k < length vs. bit (wire g ! (length (header_of c 0x0F addr ?n) + 1 + k div 8)) (k mod 8)
           \<longleftrightarrow> (\<exists>j < 8. 8 * k + j < length vs \<and> vs ! (8 * k + j) \<noteq> 0))"
      using f g(1) by auto
  }
  show "raw_frame c True slave 15 addr vs = None" if "16 < length vs"
  proof -
    have "flength (cb_write_coil_bits (cb c) c addr ?n) + 1 + (?n div 8 + (if ?n mod 8 \<noteq> 0 then 1 else 0)) \<le> MODBUSMQ_FRAME_MAX"
      using builder_frame [of "cb_write_coil_bits (cb c) c addr ?n" c addr ?n, simplified] assms(2)
      by (auto simp: MODBUSMQ_FRAME_MAX_def)
    moreover have "vs \<noteq> []" using assms(1) by auto
    ultimately show ?thesis using f that assms(2) p(1) by (simp add: modbusmq_frame_write_coil_bits_def Let_def)
  qed
qed

text \<open>Two coils that are both to be on: the second is written as off.\<close>

theorem raw_coils_misplaced_witness:
  "\<exists>g. raw_frame sample_tcp True 1 15 4 [1, 1] = Some (Inr (0, flength g, g))
     \<and> \<not> bit (wire g ! (length (header_of sample_tcp 0x0F 4 2) + 1)) 1"
proof -
  have l: "1 \<le> length [1, 1 :: u16]" "length [1, 1 :: u16] \<le> 123" "length [1, 1 :: u16] \<le> 16" by simp_all
  obtain g where g: "raw_frame sample_tcp True 1 15 4 [1, 1] = Some (Inr (0, flength g, g))"
      and b: "\<forall>k < length [1, 1 :: u16]. bit (wire g ! (length (header_of sample_tcp 0x0F 4 (int (length [1, 1 :: u16]))) + 1 + k div 8)) (k mod 8)
           \<longleftrightarrow> (\<exists>j < 8. 8 * k + j < length [1, 1 :: u16] \<and> [1, 1 :: u16] ! (8 * k + j) \<noteq> 0)"
    using raw_coils_misplaced [OF l(1,2), of sample_tcp 1 4] l(3) by blast
  then show ?thesis using b [rule_format, of 1] by simp
qed

end
