(* ===== verification/Scan.thy ===== *)
theory Scan
  imports Text Ieee
begin

text \<open>
  The C library's number conversions that the channel codec and the configuration parser use
  on text: \<open>strtol\<close>, \<open>strtoul\<close> and \<open>strtod\<close>, the conversions of their results to \<open>int\<close>, and
  the fixed-point printing of \<open>snprintf("%.*f")\<close>. Each scan gives the value and the rest of
  the text, or \<open>None\<close> where no conversion is performed.
\<close>

section \<open>Integers\<close>

definition wrap_int :: "int \<Rightarrow> int" where
  "wrap_int v = sint (word_of_int v :: u32)"

lemma wrap_int_id: "- (2 ^ 31) \<le> v \<Longrightarrow> v < 2 ^ 31 \<Longrightarrow> wrap_int v = v"
  unfolding wrap_int_def sint_sbintrunc' by (rule signed_take_bit_int_eq_self) simp_all

text \<open>White space and an optional sign; the flag is set for a minus.\<close>

definition scan_sign :: "string \<Rightarrow> bool \<times> string" where
  "scan_sign text =
     (let s = dropWhile is_space text
      in (take 1 s = ''-'', if take 1 s = ''-'' \<or> take 1 s = ''+'' then drop 1 s else s))"

definition scan_digits :: "nat \<Rightarrow> string \<Rightarrow> (nat \<times> string) option" where
  "scan_digits base s =
     (let ds = takeWhile (is_digit_of base) s
      in if ds = [] then None else Some (digits_val base ds, drop (length ds) s))"

text \<open>\<open>strtoul\<close> on a 64-bit \<open>unsigned long\<close>: too much gives the largest value, a minus negates.\<close>

definition unsigned_long :: "bool \<Rightarrow> nat \<Rightarrow> int" where
  "unsigned_long neg v =
     (if 2 ^ 64 \<le> int v then 2 ^ 64 - 1 else if neg then (- int v) mod 2 ^ 64 else int v)"

definition strtoul10 :: "string \<Rightarrow> (int \<times> string) option" where
  "strtoul10 text =
     (let (neg, s) = scan_sign text
      in map_option (\<lambda>(v, rest). (unsigned_long neg v, rest)) (scan_digits 10 s))"

definition strtoul0 :: "string \<Rightarrow> (int \<times> string) option" where
  "strtoul0 text =
     (let (neg, s) = scan_sign text
      in map_option (\<lambda>(v, rest). (unsigned_long neg v, rest)) (strtol_unsigned s))"

text \<open>\<open>(int)strtol(value, NULL, 0)\<close> and \<open>(int)strtoul(value, NULL, 0)\<close>\<close>

definition int_of_strtol :: "string \<Rightarrow> int" where
  "int_of_strtol s = (case strtol0 s of None \<Rightarrow> 0 | Some (v, _) \<Rightarrow> wrap_int v)"

definition int_of_strtoul :: "string \<Rightarrow> int" where
  "int_of_strtoul s = (case strtoul0 s of None \<Rightarrow> 0 | Some (v, _) \<Rightarrow> wrap_int v)"

text \<open>The \<open>long\<close> itself, where the caller checks its range before narrowing it.\<close>

definition long_of_strtol :: "string \<Rightarrow> int" where
  "long_of_strtol s = (case strtol0 s of None \<Rightarrow> 0 | Some (v, _) \<Rightarrow> v)"

section \<open>Floating point\<close>

definition to_lower :: "char \<Rightarrow> char" where
  "to_lower ch = (let c = of_char ch :: nat in if 65 \<le> c \<and> c \<le> 90 then char_of (c + 32) else ch)"

text \<open>\<open>strcasecmp(s, t) == 0\<close> and a prefix match that ignores case\<close>

definition strcase_eq :: "string \<Rightarrow> string \<Rightarrow> bool" where
  "strcase_eq s t = (map to_lower s = map to_lower t)"

definition strcase_prefix :: "string \<Rightarrow> string \<Rightarrow> bool" where
  "strcase_prefix p s = (map to_lower (take (length p) s) = p)"

text \<open>Digits with an optional point: the digits as a number, how many follow the point, the rest.\<close>

definition scan_mantissa :: "nat \<Rightarrow> string \<Rightarrow> (nat \<times> nat \<times> string) option" where
  "scan_mantissa base s =
     (let a = takeWhile (is_digit_of base) s;
          s1 = drop (length a) s;
          b = (if take 1 s1 = ''.'' then takeWhile (is_digit_of base) (drop 1 s1) else []);
          s2 = (if take 1 s1 = ''.'' then drop (Suc (length b)) s1 else s1)
      in if a = [] \<and> b = [] then None else Some (digits_val base (a @ b), length b, s2))"

definition scan_exponent :: "char \<Rightarrow> string \<Rightarrow> int \<times> string" where
  "scan_exponent mark s =
     (case s of
        [] \<Rightarrow> (0, s)
      | ch # r \<Rightarrow>
          (let neg = (take 1 r = ''-'');
               r1 = (if neg \<or> take 1 r = ''+'' then drop 1 r else r)
           in case scan_digits 10 r1 of
                None \<Rightarrow> (0, s)
              | Some (e, r2) \<Rightarrow> if to_lower ch = mark then (if neg then - int e else int e, r2) else (0, s)))"

definition strtod :: "string \<Rightarrow> (fp \<times> string) option" where
  "strtod text =
     (let (neg, s) = scan_sign text
      in if strcase_prefix ''infinity'' s then Some (FInf neg, drop 8 s)
         else if strcase_prefix ''inf'' s then Some (FInf neg, drop 3 s)
         else if strcase_prefix ''nan'' s then Some (FNaN, drop 3 s)
         else if strcase_prefix ''0x'' s \<and> scan_mantissa 16 (drop 2 s) \<noteq> None then
           map_option (\<lambda>(m, k, r). let (e, r1) = scan_exponent (CHR ''p'') r
                in (fround binary64 neg (of_nat m * 2 powi (e - 4 * int k)), r1))
             (scan_mantissa 16 (drop 2 s))
         else
           map_option (\<lambda>(m, k, r). let (e, r1) = scan_exponent (CHR ''e'') r
                in (fround binary64 neg (of_nat m * 10 powi (e - int k)), r1))
             (scan_mantissa 10 s))"

text \<open>\<open>strtod(value, NULL)\<close>\<close>

definition double_of_text :: "string \<Rightarrow> fp" where
  "double_of_text s = (case strtod s of None \<Rightarrow> fzero | Some (x, _) \<Rightarrow> x)"

text \<open>
  The assignment of a \<open>double\<close> to an \<open>int\<close>. Outside the range of \<open>int\<close> C leaves it undefined;
  the value here is that of the x86-64 conversion instruction.
\<close>

definition int_of_double :: "fp \<Rightarrow> int" where
  "int_of_double x = (case to_signed 32 x of Some v \<Rightarrow> v | None \<Rightarrow> - (2 ^ 31))"

definition float_of_text :: "string \<Rightarrow> fp" where
  "float_of_text s = fp_conv binary32 (double_of_text s)"

section \<open>Fixed-point printing\<close>

text \<open>\<open>%.*f\<close>: the exact value rounded to \<open>d\<close> decimals, ties to even.\<close>

definition pad_left :: "nat \<Rightarrow> string \<Rightarrow> string" where
  "pad_left n s = replicate (n - length s) (CHR ''0'') @ s"

definition fixed_digits :: "nat \<Rightarrow> nat \<Rightarrow> string" where
  "fixed_digits d n =
     (let s = pad_left (Suc d) (nat_str n); k = length s - d
      in if d = 0 then s else take k s @ ''.'' @ drop k s)"

definition print_fixed :: "nat \<Rightarrow> fp \<Rightarrow> string" where
  "print_fixed d x = (case x of
      FNaN \<Rightarrow> ''nan''
    | FInf s \<Rightarrow> (if s then ''-inf'' else ''inf'')
    | FNum s r \<Rightarrow> (if s then ''-'' else []) @ fixed_digits d (nat (round_even (r * 10 ^ d))))"

end
