(* ===== verification/Codec.thy ===== *)
theory Codec
  imports Transport Scan
begin

text \<open>
  From a response to the value or the text of a channel (lib/modbusmq.c, the channel
  functions): the byte orders of the formats, the range check, scaling and the text formats.

  \<open>cfg\<close> is what \<open>modbusmq_config_get()\<close> gives, \<open>data\<close> the byte list a C pointer into the
  response points at.
\<close>

section \<open>Byte orders\<close>

definition be32 :: "byte \<Rightarrow> byte \<Rightarrow> byte \<Rightarrow> byte \<Rightarrow> u32" where
  "be32 a b c d = push_bit 24 (ucast a) OR push_bit 16 (ucast b) OR push_bit 8 (ucast c) OR ucast d"

definition modbusmq_read_int16_ab :: "byte list \<Rightarrow> int" where
  "modbusmq_read_int16_ab data = be16 (data ! 0) (data ! 1)"

definition modbusmq_read_int16_ba :: "byte list \<Rightarrow> int" where
  "modbusmq_read_int16_ba data = be16 (data ! 1) (data ! 0)"

definition modbusmq_read_int16_ab_signed :: "byte list \<Rightarrow> int" where
  "modbusmq_read_int16_ab_signed data = sint (word_of_int (be16 (data ! 0) (data ! 1)) :: u16)"

definition modbusmq_read_int16_ba_signed :: "byte list \<Rightarrow> int" where
  "modbusmq_read_int16_ba_signed data = sint (word_of_int (be16 (data ! 1) (data ! 0)) :: u16)"

definition modbusmq_read_int32_abcd :: "byte list \<Rightarrow> int" where
  "modbusmq_read_int32_abcd data = sint (be32 (data ! 0) (data ! 1) (data ! 2) (data ! 3))"

definition modbusmq_read_int32_badc :: "byte list \<Rightarrow> int" where
  "modbusmq_read_int32_badc data = sint (be32 (data ! 1) (data ! 0) (data ! 3) (data ! 2))"

definition modbusmq_read_int32_dcba :: "byte list \<Rightarrow> int" where
  "modbusmq_read_int32_dcba data = sint (be32 (data ! 3) (data ! 2) (data ! 1) (data ! 0))"

definition modbusmq_float_ab :: "byte list \<Rightarrow> fp" where
  "modbusmq_float_ab data = fp_of_int binary32 (be16 (data ! 0) (data ! 1))"

definition modbusmq_float_ba :: "byte list \<Rightarrow> fp" where
  "modbusmq_float_ba data = fp_of_int binary32 (be16 (data ! 1) (data ! 0))"

definition modbusmq_read_float_abcd :: "byte list \<Rightarrow> fp" where
  "modbusmq_read_float_abcd data = float_of_bits (word_of_int (modbusmq_read_int32_abcd data))"

definition modbusmq_read_float_badc :: "byte list \<Rightarrow> fp" where
  "modbusmq_read_float_badc data = float_of_bits (word_of_int (modbusmq_read_int32_badc data))"

definition modbusmq_read_float_dcba :: "byte list \<Rightarrow> fp" where
  "modbusmq_read_float_dcba data = float_of_bits (word_of_int (modbusmq_read_int32_dcba data))"

definition modbusmq_read_float_cdab :: "byte list \<Rightarrow> fp" where
  "modbusmq_read_float_cdab data = float_of_bits (be32 (data ! 2) (data ! 3) (data ! 0) (data ! 1))"

fun modbusmq_format_size :: "modbusmq_data_format_e \<Rightarrow> int" where
  "modbusmq_format_size format_a = 1"
| "modbusmq_format_size format_int8 = 1"
| "modbusmq_format_size format_ab = 2"
| "modbusmq_format_size format_ba = 2"
| "modbusmq_format_size format_int16_ab = 2"
| "modbusmq_format_size format_int16_ba = 2"
| "modbusmq_format_size format_float_ba = 2"
| "modbusmq_format_size format_version_ab = 2"
| "modbusmq_format_size format_datetime_regs = 12"
| "modbusmq_format_size format_ascii_ab = 0"
| "modbusmq_format_size format_ascii_ba = 0"
| "modbusmq_format_size format_bcd_ab = 0"
| "modbusmq_format_size format_bcd_ba = 0"
| "modbusmq_format_size format_version_regs = 0"
| "modbusmq_format_size _ = 4"

section \<open>Reading a number\<close>

definition MODBUSMQ_TYPE_IS_BIT :: "int \<Rightarrow> bool" where
  "MODBUSMQ_TYPE_IS_BIT t \<longleftrightarrow> t = 1 \<or> t = 2"

definition modbusmq_channel_byte_offset ::
    "modbusmq_config_t option \<Rightarrow> modbusmq_input_t \<Rightarrow> modbusmq_channel_t \<Rightarrow> int" where
  "modbusmq_channel_byte_offset cfg input channel =
     (let size = (case cfg of Some g \<Rightarrow> if 0 < offset_size g then offset_size g else 1 | None \<Rightarrow> 1)
      in ch_offset channel * size - in_address_offset input * 2)"

text \<open>Whether the channel lies in the data received: the return code 0.\<close>

definition modbusmq_channel_in_range ::
    "modbusmq_config_t option \<Rightarrow> modbusmq_context_t \<Rightarrow> modbusmq_msg_t \<Rightarrow> modbusmq_input_t \<Rightarrow> modbusmq_channel_t \<Rightarrow> bool" where
  "modbusmq_channel_in_range cfg c m input channel =
     (let nbytes = modbusmq_frame_nbytes c (frame1 m)
      in if MODBUSMQ_TYPE_IS_BIT (in_type input) then
           (let bit = ch_offset channel - in_address_offset input
            in \<not> (bit < 0 \<or> nbytes < 0 \<or> nbytes \<le> bit div 8))
         else
           (let offset = modbusmq_channel_byte_offset cfg input channel;
                size = (if 0 < ch_length channel then ch_length channel else modbusmq_format_size (ch_format channel))
            in \<not> (offset < 0 \<or> nbytes < 0 \<or> nbytes < offset + size)))"

definition modbusmq_channel_is_na :: "modbusmq_config_t option \<Rightarrow> modbusmq_channel_t \<Rightarrow> byte list \<Rightarrow> bool" where
  "modbusmq_channel_is_na cfg channel data =
     (case cfg of
        None \<Rightarrow> False
      | Some g \<Rightarrow> has_na_value g \<and>
          (if ch_format channel \<in> {format_ab, format_int16_ab} then modbusmq_read_int16_ab data = uint (na_value g)
           else if ch_format channel \<in> {format_ba, format_int16_ba} then modbusmq_read_int16_ba data = uint (na_value g)
           else False))"

text \<open>The format switch of \<open>modbusmq_read_channel\<close>; \<open>None\<close> is its default branch.\<close>

fun decode_number :: "modbusmq_data_format_e \<Rightarrow> byte list \<Rightarrow> fp option" where
  "decode_number format_float_abcd data = Some (modbusmq_read_float_abcd data)"
| "decode_number format_float_badc data = Some (modbusmq_read_float_badc data)"
| "decode_number format_float_dcba data = Some (modbusmq_read_float_dcba data)"
| "decode_number format_float_cdab data = Some (modbusmq_read_float_cdab data)"
| "decode_number format_ab data = Some (fp_of_int binary32 (modbusmq_read_int16_ab data))"
| "decode_number format_ba data = Some (fp_of_int binary32 (modbusmq_read_int16_ba data))"
| "decode_number format_int16_ab data = Some (fp_of_int binary32 (modbusmq_read_int16_ab_signed data))"
| "decode_number format_int16_ba data = Some (fp_of_int binary32 (modbusmq_read_int16_ba_signed data))"
| "decode_number format_abcd data = Some (fp_of_int binary32 (modbusmq_read_int32_abcd data))"
| "decode_number format_badc data = Some (fp_of_int binary32 (modbusmq_read_int32_badc data))"
| "decode_number format_uint32_abcd data =
     Some (fp_of_int binary32 (uint (word_of_int (modbusmq_read_int32_abcd data) :: u32)))"
| "decode_number format_uint32_badc data =
     Some (fp_of_int binary32 (uint (word_of_int (modbusmq_read_int32_badc data) :: u32)))"
| "decode_number format_a data = Some (fp_of_int binary32 (uint (data ! 0)))"
| "decode_number format_int8 data = Some (fp_of_int binary32 (sint (data ! 0)))"
| "decode_number _ data = None"

text \<open>\<open>add\<close>, then \<open>mod\<close>, then \<open>mul\<close>, each in \<open>float\<close>.\<close>

definition scale_number :: "modbusmq_channel_t \<Rightarrow> fp \<Rightarrow> fp" where
  "scale_number channel f =
     (let f = fadd binary32 f (fp_of_int binary32 (ch_add channel));
          f = (if 0 < ch_mod channel then fmul binary32 f (fp_of_int binary32 (ch_mod channel))
               else if ch_mod channel < 0 then fdiv binary32 f (fneg (fp_of_int binary32 (ch_mod channel)))
               else f)
      in if ch_mul channel \<noteq> 0 then fmul binary32 f (fp_of_int binary32 (ch_mul channel)) else f)"

definition modbusmq_read_channel ::
    "modbusmq_config_t option \<Rightarrow> modbusmq_context_t \<Rightarrow> modbusmq_msg_t \<Rightarrow> modbusmq_input_t \<Rightarrow> modbusmq_channel_t \<Rightarrow> fp" where
  "modbusmq_read_channel cfg c m input channel =
     (let data = modbusmq_frame_data c (frame1 m);
          offset = modbusmq_channel_byte_offset cfg input channel
      in if \<not> modbusmq_channel_in_range cfg c m input channel then fzero
         else if MODBUSMQ_TYPE_IS_BIT (in_type input) then
           (let bit = nat (ch_offset channel - in_address_offset input)
            in scale_number channel
                 (fp_of_int binary32 (uint (drop_bit (bit mod 8) (data ! (bit div 8)) AND 0x01))))
         else if modbusmq_channel_is_na cfg channel (drop (nat offset) data) then FNaN
         else case decode_number (ch_format channel) (drop (nat offset) data) of
                None \<Rightarrow> fzero
              | Some f \<Rightarrow> scale_number channel f)"

section \<open>Text formats\<close>

definition modbusmq_format_is_text :: "modbusmq_data_format_e \<Rightarrow> bool" where
  "modbusmq_format_is_text f \<longleftrightarrow>
     f \<in> {format_ascii_ab, format_ascii_ba, format_bcd_ab, format_bcd_ba, format_version_ab,
          format_version_abcd, format_version_regs, format_date_ymd_abcd, format_datetime_regs,
          format_epoch32_abcd, format_epoch32_badc}"

definition modbusmq_format_is_time :: "modbusmq_data_format_e \<Rightarrow> bool" where
  "modbusmq_format_is_time f \<longleftrightarrow>
     f \<in> {format_date_ymd_abcd, format_datetime_regs, format_epoch32_abcd, format_epoch32_badc}"

definition modbusmq_format_is_epoch :: "modbusmq_data_format_e \<Rightarrow> bool" where
  "modbusmq_format_is_epoch f \<longleftrightarrow> f = format_epoch32_abcd \<or> f = format_epoch32_badc"

text \<open>Where byte \<open>i\<close> of a text field of \<open>n\<close> bytes lies: with \<open>swap\<close> at its partner, if it has one.\<close>

definition text_index :: "nat \<Rightarrow> nat \<Rightarrow> bool \<Rightarrow> nat" where
  "text_index n i swap = (let j = (if swap then i XOR 1 else i) in if j < n then j else i)"

definition modbusmq_text_byte :: "byte list \<Rightarrow> nat \<Rightarrow> nat \<Rightarrow> bool \<Rightarrow> byte" where
  "modbusmq_text_byte data n i swap = data ! text_index n i swap"

definition text_bytes :: "byte list \<Rightarrow> nat \<Rightarrow> bool \<Rightarrow> byte list" where
  "text_bytes data n swap = map (\<lambda>i. modbusmq_text_byte data n i swap) [0..<n]"

definition modbusmq_text_trim :: "string \<Rightarrow> string" where
  "modbusmq_text_trim s = rev (dropWhile (\<lambda>ch. ch = CHR '' '') (rev (dropWhile (\<lambda>ch. ch = CHR '' '') s)))"

text \<open>
  The loops over the bytes of a field. \<open>len\<close> is the size of the destination, \<open>buf\<close> what has been
  written to it; \<open>None\<close> is the return code \<open>-1\<close>.
\<close>

definition ascii_char :: "byte \<Rightarrow> char" where
  "ascii_char b = (if b < 0x20 \<or> 0x7E < b then CHR ''?'' else char_of (unat b))"

fun ascii_loop :: "nat \<Rightarrow> byte list \<Rightarrow> string \<Rightarrow> string option" where
  "ascii_loop len [] buf = Some buf"
| "ascii_loop len (b # bs) buf =
     (if b = 0 then ascii_loop len bs buf
      else if len \<le> length buf + 1 then None
      else ascii_loop len bs (buf @ [ascii_char b]))"

definition modbusmq_text_ascii :: "byte list \<Rightarrow> nat \<Rightarrow> bool \<Rightarrow> nat \<Rightarrow> string option" where
  "modbusmq_text_ascii data n swap len = map_option modbusmq_text_trim (ascii_loop len (text_bytes data n swap) [])"

definition digit_char :: "byte \<Rightarrow> char" where
  "digit_char b = char_of (48 + unat b)"

fun bcd_loop :: "byte list \<Rightarrow> string \<Rightarrow> string option" where
  "bcd_loop [] buf = Some buf"
| "bcd_loop (b # bs) buf =
     (let hi = drop_bit 4 b AND 0x0f; lo = b AND 0x0f
      in if 9 < hi \<or> 9 < lo then None else bcd_loop bs (buf @ [digit_char hi, digit_char lo]))"

definition modbusmq_text_bcd :: "byte list \<Rightarrow> nat \<Rightarrow> bool \<Rightarrow> nat \<Rightarrow> string option" where
  "modbusmq_text_bcd data n swap len =
     (if len < n * 2 + 1 then None else bcd_loop (text_bytes data n swap) [])"

definition version_field :: "byte list \<Rightarrow> nat \<Rightarrow> nat \<Rightarrow> nat" where
  "version_field data stride i = (if stride = 2 then nat (be16 (data ! i) (data ! Suc i)) else unat (data ! i))"

fun version_loop :: "nat \<Rightarrow> nat list \<Rightarrow> string \<Rightarrow> string option" where
  "version_loop len [] buf = Some buf"
| "version_loop len (v # vs) buf =
     (let s = buf @ (if buf = [] then [] else ''.'') @ nat_str v
      in if len \<le> length s then None else version_loop len vs s)"

definition modbusmq_text_version :: "byte list \<Rightarrow> nat \<Rightarrow> nat \<Rightarrow> nat \<Rightarrow> string option" where
  "modbusmq_text_version data n stride len =
     version_loop len (map (\<lambda>k. version_field data stride (k * stride)) [0..<n div stride]) []"

section \<open>Time formats\<close>

text \<open>
  \<open>struct tm\<close> as far as the formats use it, with the offsets of C (years from 1900, months from
  0). \<open>gmtime\<close> is the proleptic Gregorian calendar in UTC. What depends on the time zone and
  the locale of the host is a parameter: \<open>libc_localtime\<close> and, for a pattern with conversions
  other than the numeric ones below, \<open>libc_strftime\<close>.
\<close>

record tm =
  tm_year :: int
  tm_mon :: int
  tm_mday :: int
  tm_hour :: int
  tm_min :: int
  tm_sec :: int

record libc_time =
  libc_localtime :: "int \<Rightarrow> tm option"
  libc_strftime :: "string \<Rightarrow> tm \<Rightarrow> string"

text \<open>Day number since 1970-01-01 to year, month and day; years begin in March here.\<close>

definition civil_from_days :: "int \<Rightarrow> int \<times> int \<times> int" where
  "civil_from_days days =
     (let z = days + 719468;
          era = z div 146097;
          doe = z mod 146097;
          yoe = (doe - doe div 1460 + doe div 36524 - doe div 146096) div 365;
          doy = doe - (365 * yoe + yoe div 4 - yoe div 100);
          mp = (5 * doy + 2) div 153;
          d = doy - (153 * mp + 2) div 5 + 1;
          m = (if mp < 10 then mp + 3 else mp - 9);
          y = yoe + era * 400 + (if m \<le> 2 then 1 else 0)
      in (y, m, d))"

definition gmtime :: "int \<Rightarrow> tm" where
  "gmtime t =
     (let (y, m, d) = civil_from_days (t div 86400); s = t mod 86400
      in \<lparr>tm_year = y - 1900, tm_mon = m - 1, tm_mday = d,
          tm_hour = s div 3600, tm_min = s div 60 mod 60, tm_sec = s mod 60\<rparr>)"

definition pad2 :: "int \<Rightarrow> string" where
  "pad2 v = pad_left 2 (nat_str (nat v))"

text \<open>Patterns of literal characters and the conversions \<open>%Y %m %d %H %M %S %F %T %%\<close>.\<close>

fun strftime_simple :: "string \<Rightarrow> tm \<Rightarrow> string option" where
  "strftime_simple [] t = Some []"
| "strftime_simple (ch # s) t =
     (if ch \<noteq> CHR ''%'' then map_option ((#) ch) (strftime_simple s t)
      else case s of
             [] \<Rightarrow> None
           | k # s' \<Rightarrow>
              (case (if k = CHR ''Y'' then Some (int_str (tm_year t + 1900))
                     else if k = CHR ''m'' then Some (pad2 (tm_mon t + 1))
                     else if k = CHR ''d'' then Some (pad2 (tm_mday t))
                     else if k = CHR ''H'' then Some (pad2 (tm_hour t))
                     else if k = CHR ''M'' then Some (pad2 (tm_min t))
                     else if k = CHR ''S'' then Some (pad2 (tm_sec t))
                     else if k = CHR ''F'' then
                       Some (int_str (tm_year t + 1900) @ ''-'' @ pad2 (tm_mon t + 1) @ ''-'' @ pad2 (tm_mday t))
                     else if k = CHR ''T'' then
                       Some (pad2 (tm_hour t) @ '':'' @ pad2 (tm_min t) @ '':'' @ pad2 (tm_sec t))
                     else if k = CHR ''%'' then Some ''%'' else None) of
                 None \<Rightarrow> None
               | Some x \<Rightarrow> map_option ((@) x) (strftime_simple s' t)))"

definition strftime :: "libc_time \<Rightarrow> string \<Rightarrow> tm \<Rightarrow> string" where
  "strftime lt pattern t =
     (case strftime_simple pattern t of Some s \<Rightarrow> s | None \<Rightarrow> libc_strftime lt pattern t)"

definition MODBUSMQ_TIMEFMT_DEFAULT :: string where
  "MODBUSMQ_TIMEFMT_DEFAULT = ''%Y-%m-%dT%H:%M:%SZ''"

definition MODBUSMQ_TIMEFMT_NAIVE :: string where
  "MODBUSMQ_TIMEFMT_NAIVE = ''%Y-%m-%dT%H:%M:%S''"

definition MODBUSMQ_DATEFMT_DEFAULT :: string where
  "MODBUSMQ_DATEFMT_DEFAULT = ''%Y-%m-%d''"

definition modbusmq_channel_timefmt :: "modbusmq_channel_t \<Rightarrow> string" where
  "modbusmq_channel_timefmt channel =
     (case ch_timefmt channel of
        Some fmt \<Rightarrow> fmt
      | None \<Rightarrow>
          if ch_format channel = format_date_ymd_abcd then MODBUSMQ_DATEFMT_DEFAULT
          else if modbusmq_format_is_epoch (ch_format channel) \<and> \<not> ch_localtime channel
          then MODBUSMQ_TIMEFMT_DEFAULT else MODBUSMQ_TIMEFMT_NAIVE)"

definition modbusmq_tm_valid :: "tm \<Rightarrow> bool" where
  "modbusmq_tm_valid t \<longleftrightarrow>
     70 \<le> tm_year t \<and> tm_year t \<le> 1099 \<and> 0 \<le> tm_mon t \<and> tm_mon t \<le> 11 \<and> 1 \<le> tm_mday t \<and> tm_mday t \<le> 31
     \<and> 0 \<le> tm_hour t \<and> tm_hour t \<le> 23 \<and> 0 \<le> tm_min t \<and> tm_min t \<le> 59 \<and> 0 \<le> tm_sec t \<and> tm_sec t \<le> 60"

definition modbusmq_text_strftime :: "libc_time \<Rightarrow> modbusmq_channel_t \<Rightarrow> tm \<Rightarrow> nat \<Rightarrow> string option" where
  "modbusmq_text_strftime lt channel t len =
     (if \<not> modbusmq_tm_valid t then None
      else let s = strftime lt (modbusmq_channel_timefmt channel) t
           in if s = [] \<or> len \<le> length s then None else Some s)"

definition modbusmq_text_epoch :: "libc_time \<Rightarrow> modbusmq_channel_t \<Rightarrow> int \<Rightarrow> nat \<Rightarrow> string option" where
  "modbusmq_text_epoch lt channel raw len =
     (let t = raw + ch_add channel
      in if ch_localtime channel then
           (case libc_localtime lt t of None \<Rightarrow> None | Some tm \<Rightarrow> modbusmq_text_strftime lt channel tm len)
         else modbusmq_text_strftime lt channel (gmtime t) len)"

definition date_tm :: "byte list \<Rightarrow> tm" where
  "date_tm data =
     \<lparr>tm_year = be16 (data ! 0) (data ! 1) - 1900, tm_mon = uint (data ! 2) - 1, tm_mday = uint (data ! 3),
      tm_hour = 0, tm_min = 0, tm_sec = 0\<rparr>"

definition datetime_tm :: "byte list \<Rightarrow> tm" where
  "datetime_tm data =
     (let field = (\<lambda>i. be16 (data ! (i * 2)) (data ! (i * 2 + 1)))
      in \<lparr>tm_year = field 0 - 1900, tm_mon = field 1 - 1, tm_mday = field 2,
          tm_hour = field 3, tm_min = field 4, tm_sec = field 5\<rparr>)"

text \<open>The format switch of \<open>modbusmq_read_channel_text\<close>.\<close>

fun decode_text :: "libc_time \<Rightarrow> modbusmq_channel_t \<Rightarrow> modbusmq_data_format_e \<Rightarrow> byte list \<Rightarrow> nat \<Rightarrow> nat \<Rightarrow> string option" where
  "decode_text lt channel format_ascii_ab data n len = modbusmq_text_ascii data n False len"
| "decode_text lt channel format_ascii_ba data n len = modbusmq_text_ascii data n True len"
| "decode_text lt channel format_bcd_ab data n len = modbusmq_text_bcd data n False len"
| "decode_text lt channel format_bcd_ba data n len = modbusmq_text_bcd data n True len"
| "decode_text lt channel format_version_ab data n len = modbusmq_text_version data n 1 len"
| "decode_text lt channel format_version_abcd data n len = modbusmq_text_version data n 1 len"
| "decode_text lt channel format_version_regs data n len = modbusmq_text_version data n 2 len"
| "decode_text lt channel format_date_ymd_abcd data n len = modbusmq_text_strftime lt channel (date_tm data) len"
| "decode_text lt channel format_datetime_regs data n len = modbusmq_text_strftime lt channel (datetime_tm data) len"
| "decode_text lt channel format_epoch32_abcd data n len =
     modbusmq_text_epoch lt channel (uint (word_of_int (modbusmq_read_int32_abcd data) :: u32)) len"
| "decode_text lt channel format_epoch32_badc data n len =
     modbusmq_text_epoch lt channel (uint (word_of_int (modbusmq_read_int32_badc data) :: u32)) len"
| "decode_text lt channel _ data n len = None"

definition modbusmq_read_channel_text ::
    "libc_time \<Rightarrow> modbusmq_config_t option \<Rightarrow> modbusmq_context_t \<Rightarrow> modbusmq_msg_t \<Rightarrow> modbusmq_input_t \<Rightarrow>
     modbusmq_channel_t \<Rightarrow> nat \<Rightarrow> string option" where
  "modbusmq_read_channel_text lt cfg c m input channel len =
     (if len = 0 \<or> \<not> modbusmq_format_is_text (ch_format channel) then None
      else if MODBUSMQ_TYPE_IS_BIT (in_type input) then None
      else if \<not> modbusmq_channel_in_range cfg c m input channel then None
      else decode_text lt channel (ch_format channel)
             (drop (nat (modbusmq_channel_byte_offset cfg input channel)) (modbusmq_frame_data c (frame1 m)))
             (nat (ch_length channel)) len)"

end
