(* ===== verification/Publish.thy ===== *)
theory Publish
  imports Codec
begin

text \<open>
  Printing a channel value and deciding whether it is worth publishing (lib/modbusmq.c,
  \<open>modbusmq_channel_decimals\<close> to \<open>modbusmq_channel_publish_decide\<close>).
\<close>

section \<open>Printing\<close>

fun peel_tens :: "nat \<Rightarrow> int \<Rightarrow> int \<Rightarrow> int \<times> int" where
  "peel_tens 0 remaining tens = (remaining, tens)"
| "peel_tens (Suc fuel) remaining tens =
     (if 1 < remaining \<and> remaining mod 10 = 0 then peel_tens fuel (remaining div 10) (tens + 1)
      else (remaining, tens))"

definition float_formats :: "modbusmq_data_format_e set" where
  "float_formats = {format_float_ba, format_float_abcd, format_float_badc, format_float_dcba, format_float_cdab}"

text \<open>
  The decimals a value is printed with. The loop divides an \<open>int\<close> by ten, so ten passes are
  enough. \<open>-channel->mod\<close> of the smallest \<open>int\<close> wraps to itself.
\<close>

definition modbusmq_channel_decimals :: "modbusmq_input_t \<Rightarrow> modbusmq_channel_t \<Rightarrow> int" where
  "modbusmq_channel_decimals input channel =
     (if ch_has_decimals channel then ch_decimals channel
      else if MODBUSMQ_TYPE_IS_BIT (in_type input) then 0
      else if ch_format channel \<in> float_formats then 3
      else if ch_mod channel < 0 then
        (let (remaining, tens) = peel_tens 10 (wrap_int (- ch_mod channel)) 0
         in if remaining = 1 then tens else 3)
      else 0)"

text \<open>
  The text in a buffer of \<open>len\<close> bytes. A negative zero loses its sign. A text that did not fit
  keeps it: the search for another digit stops at the NUL.
\<close>

definition all_zero :: "string \<Rightarrow> bool" where
  "all_zero s \<longleftrightarrow> (\<forall>ch \<in> set s. ch = CHR ''0'' \<or> ch = CHR ''.'')"

definition modbusmq_channel_format_value ::
    "modbusmq_input_t \<Rightarrow> modbusmq_channel_t \<Rightarrow> fp \<Rightarrow> nat \<Rightarrow> string option" where
  "modbusmq_channel_format_value input channel value len =
     (if len = 0 then None
      else if value = FNaN then Some (fit len ''null'')
      else let s = print_fixed (nat (modbusmq_channel_decimals input channel)) value
           in if take 1 s = ''-'' \<and> length s < len \<and> all_zero (drop 1 s) then Some (drop 1 s)
              else Some (fit len s))"

section \<open>Publishing\<close>

text \<open>FNV-1a\<close>

definition modbusmq_text_hash :: "string \<Rightarrow> u32" where
  "modbusmq_text_hash text = foldl (\<lambda>h ch. (h XOR of_char ch) * 16777619) 2166136261 text"

definition modbusmq_channel_publish_record ::
    "modbusmq_channel_t \<Rightarrow> fp \<Rightarrow> string \<Rightarrow> millitime_t \<Rightarrow> modbusmq_channel_t" where
  "modbusmq_channel_publish_record channel value text now_ms =
     channel\<lparr>ch_last := (if modbusmq_format_is_text (ch_format channel) then modbusmq_text_hash text
                         else bits_of_float value),
             ch_last_publish_ms := now_ms, ch_published := True\<rparr>"

definition MODBUSMQ_NUMBER_TEXT_MAX :: nat where
  "MODBUSMQ_NUMBER_TEXT_MAX = 52"

definition modbusmq_channel_text_unchanged ::
    "modbusmq_input_t \<Rightarrow> modbusmq_channel_t \<Rightarrow> string \<Rightarrow> bool" where
  "modbusmq_channel_text_unchanged input channel text =
     (if modbusmq_format_is_text (ch_format channel) then modbusmq_text_hash text = ch_last channel
      else case modbusmq_channel_format_value input channel (float_of_bits (ch_last channel)) MODBUSMQ_NUMBER_TEXT_MAX of
             None \<Rightarrow> False
           | Some previous \<Rightarrow> text = previous)"

definition fmax :: "fp \<Rightarrow> fp \<Rightarrow> fp" where
  "fmax x y = (if flt y x then x else y)"

definition fone :: fp where
  "fone = FNum False 1"

definition change_threshold :: "modbusmq_channel_t \<Rightarrow> fp \<Rightarrow> fp" where
  "change_threshold channel value =
     (let ref = fmax (fabs (float_of_bits (ch_last channel))) (fabs value)
      in fmax (ch_min_change channel) (fmul binary32 (ch_min_change_rel channel) (fmax fone ref)))"

text \<open>Publish or not, and the channel with its runtime state.\<close>

definition modbusmq_channel_publish_decide ::
    "modbusmq_input_t \<Rightarrow> modbusmq_channel_t \<Rightarrow> fp \<Rightarrow> string \<Rightarrow> millitime_t \<Rightarrow> bool \<times> modbusmq_channel_t" where
  "modbusmq_channel_publish_decide input channel value text now_ms =
     (let record_it = (True, modbusmq_channel_publish_record channel value text now_ms);
          since_publish = now_ms - ch_last_publish_ms channel
      in if \<not> ch_published channel then record_it
         else if 0 < ch_max_interval channel \<and> word_of_int (ch_max_interval channel) \<le> since_publish then record_it
         else if 0 < ch_min_interval channel \<and> since_publish < word_of_int (ch_min_interval channel) then (False, channel)
         else if (ch_on_change channel \<or> flt fzero (ch_min_change channel) \<or> flt fzero (ch_min_change_rel channel))
              \<and> modbusmq_channel_text_unchanged input channel text then (False, channel)
         else if \<not> modbusmq_format_is_text (ch_format channel)
              \<and> flt fzero (change_threshold channel value)
              \<and> flt (fabs (fsub binary32 value (float_of_bits (ch_last channel)))) (change_threshold channel value)
              then (False, channel)
         else record_it)"

text \<open>A fresh subscriber is owed every channel: all publish state is cleared.\<close>

definition modbusmq_config_reset_publish_state :: "modbusmq_config_t \<Rightarrow> modbusmq_config_t" where
  "modbusmq_config_reset_publish_state g =
     g\<lparr>inputs := map (\<lambda>i. i\<lparr>in_channels :=
          map (\<lambda>ch. ch\<lparr>ch_published := False, ch_last := 0, ch_last_publish_ms := 0\<rparr>) (in_channels i)\<rparr>) (inputs g)\<rparr>"

end
