(* ===== verification/Encode.thy ===== *)
theory Encode
  imports Codec
begin

text \<open>
  The way back: raw values, texts and scaled values to register bytes (lib/modbusmq.c,
  \<open>modbusmq_encode_value\<close> to \<open>modbusmq_write_encode_block\<close>). An encoder fails with
  \<open>Refused\<close>, the negative return code, or \<open>Undefined\<close>, a conversion or a store C leaves
  undefined.
\<close>

section \<open>Raw values\<close>

datatype encode_error = Refused | Undefined

type_synonym 'a encoded = "encode_error + 'a"

definition refuse :: "'a encoded" where
  "refuse = Inl Refused"

definition with_int :: "int option \<Rightarrow> (int \<Rightarrow> 'a encoded) \<Rightarrow> 'a encoded" where
  "with_int v f = (case v of None \<Rightarrow> Inl Undefined | Some i \<Rightarrow> f i)"

text \<open>The four bytes of a 32-bit value in the order of the format.\<close>

definition byte_of :: "u32 \<Rightarrow> nat \<Rightarrow> byte" where
  "byte_of i n = ucast (drop_bit n i)"

definition encode_int32 :: "modbusmq_data_format_e \<Rightarrow> u32 \<Rightarrow> byte list encoded" where
  "encode_int32 fmt i =
     (let a = byte_of i 24; b = byte_of i 16; c = byte_of i 8; d = byte_of i 0
      in if fmt \<in> {format_float_abcd, format_abcd, format_uint32_abcd} then Inr [a, b, c, d]
         else if fmt \<in> {format_float_badc, format_badc, format_uint32_badc} then Inr [b, a, d, c]
         else if fmt = format_float_dcba then Inr [d, c, b, a]
         else if fmt = format_float_cdab then Inr [c, d, a, b]
         else refuse)"

definition modbusmq_encode_value :: "modbusmq_data_format_e \<Rightarrow> fp \<Rightarrow> byte list encoded" where
  "modbusmq_encode_value fmt value =
     (let n = modbusmq_format_size fmt
      in if n = 1 then with_int (to_signed 32 value) (\<lambda>v. Inr [lo8 v])
         else if n = 2 then
           with_int (to_signed 64 value) (\<lambda>v64.
             let v = wrap_int v64
             in if fmt \<in> {format_ab, format_int16_ab} then Inr [hi8 v, lo8 v]
                else if fmt \<in> {format_ba, format_int16_ba} then Inr [lo8 v, hi8 v]
                else refuse)
         else if n = 4 then
           if fmt \<in> {format_float_abcd, format_float_badc, format_float_dcba, format_float_cdab}
           then encode_int32 fmt (bits_of_float (fp_conv binary32 value))
           else if fmt \<in> {format_abcd, format_badc, format_uint32_abcd, format_uint32_badc}
           then with_int (to_signed 64 value) (\<lambda>v. encode_int32 fmt (word_of_int v))
           else refuse
         else refuse)"

section \<open>Texts\<close>

definition modbusmq_text_byte_put :: "byte list \<Rightarrow> nat \<Rightarrow> nat \<Rightarrow> bool \<Rightarrow> byte \<Rightarrow> byte list" where
  "modbusmq_text_byte_put out n i swap b = out[text_index n i swap := b]"

text \<open>The bytes of a field put one after the other, from position \<open>i\<close> on.\<close>

fun put_bytes :: "byte list \<Rightarrow> nat \<Rightarrow> nat \<Rightarrow> bool \<Rightarrow> byte list \<Rightarrow> byte list" where
  "put_bytes out n i swap [] = out"
| "put_bytes out n i swap (b # bs) = put_bytes (modbusmq_text_byte_put out n i swap b) n (Suc i) swap bs"

text \<open>
  The encoders give the return code and the destination. A text that turns out not to suit
  its format leaves what was written before in the destination.

  One field per round; the text gets shorter with each, and its length is the fuel.
\<close>

fun encode_version_loop :: "nat \<Rightarrow> string \<Rightarrow> byte list \<Rightarrow> nat \<Rightarrow> nat \<Rightarrow> nat \<Rightarrow> int \<times> byte list" where
  "encode_version_loop 0 p out n i stride = (if p = [] then int n else -1, out)"
| "encode_version_loop (Suc fuel) p out n i stride =
     (if p \<noteq> [] \<and> i + stride \<le> n then
        (case strtoul10 p of
           None \<Rightarrow> (-1, out)
         | Some (v, rest) \<Rightarrow>
             if stride \<noteq> 2 \<and> 0xff < v then (-1, out)
             else let out' = (if stride = 2 then out[i := hi8 v, Suc i := lo8 v] else out[i := word_of_int v])
                  in (case rest of
                        [] \<Rightarrow> encode_version_loop fuel [] out' n (i + stride) stride
                      | ch # rest' \<Rightarrow> if ch = CHR ''.'' then encode_version_loop fuel rest' out' n (i + stride) stride
                                       else (-1, out')))
      else (if p = [] then int n else -1, out))"

definition modbusmq_encode_version :: "string \<Rightarrow> byte list \<Rightarrow> nat \<Rightarrow> nat \<Rightarrow> int \<times> byte list" where
  "modbusmq_encode_version text out n stride = encode_version_loop (Suc (length text)) text out n 0 stride"

definition is_decimal :: "char \<Rightarrow> bool" where
  "is_decimal = is_digit_of 10"

text \<open>Two digits to a byte, from byte \<open>i\<close> on.\<close>

fun encode_bcd_loop :: "string \<Rightarrow> nat \<Rightarrow> nat \<Rightarrow> bool \<Rightarrow> byte list \<Rightarrow> int \<times> byte list" where
  "encode_bcd_loop (h # l # digits) n i swap out =
     (if is_decimal h \<and> is_decimal l
      then encode_bcd_loop digits n (Suc i) swap
             (modbusmq_text_byte_put out n i swap (word_of_nat (16 * digit_val h + digit_val l)))
      else (-1, out))"
| "encode_bcd_loop _ n i swap out = (int n, out)"

text \<open>\<open>sscanf\<close> of numbers with separators between them; a blank stands for any white space.\<close>

fun scan_fields :: "string \<Rightarrow> string \<Rightarrow> int list option" where
  "scan_fields [] s = map_option (\<lambda>(v, rest). [v]) (scan_d s)"
| "scan_fields (sep # seps) s =
     (case scan_d s of
        None \<Rightarrow> None
      | Some (v, rest) \<Rightarrow>
          (case (if sep = CHR '' '' then Some (dropWhile is_space rest) else scan_lit [sep] rest) of
             None \<Rightarrow> None
           | Some rest' \<Rightarrow> map_option ((#) v) (scan_fields seps rest')))"

text \<open>Stores \<open>bs\<close> from the start of \<open>out\<close>; past its end is undefined.\<close>

definition store :: "byte list \<Rightarrow> byte list \<Rightarrow> byte list option" where
  "store out bs = (if length bs \<le> length out then Some (bs @ drop (length bs) out) else None)"

text \<open>
  \<open>out\<close> is the destination with all the room the caller has. The result is the return code and
  the destination afterwards; \<open>None\<close> is undefined.
\<close>

definition modbusmq_encode_text :: "modbusmq_channel_t \<Rightarrow> string \<Rightarrow> byte list \<Rightarrow> (int \<times> byte list) option" where
  "modbusmq_encode_text channel text out =
     (if ch_length channel \<le> 0 \<or> int (length out) < ch_length channel then Some (-1, out)
      else
        let n = nat (ch_length channel);
            out = replicate n 0 @ drop n out;
            fmt = ch_format channel;
            swap = (fmt = format_ascii_ba \<or> fmt = format_bcd_ba);
            stored = (\<lambda>bs. map_option (\<lambda>out. (int (length bs), out)) (store out bs));
            failed = Some (-1, out)
        in if fmt \<in> {format_ascii_ab, format_ascii_ba} then
             if n < length text then failed
             else Some (int n, put_bytes out n 0 swap (map (\<lambda>ch. of_char ch) text))
           else if fmt \<in> {format_bcd_ab, format_bcd_ba} then
             if n * 2 < length text then failed
             else Some (encode_bcd_loop (pad_left (n * 2) text) n 0 swap out)
           else if fmt \<in> {format_version_ab, format_version_abcd} then
             Some (modbusmq_encode_version text out n 1)
           else if fmt = format_version_regs then Some (modbusmq_encode_version text out n 2)
           else if fmt = format_date_ymd_abcd then
             (case scan_fields ''--'' text of
                Some [y, m, d] \<Rightarrow> stored [hi8 y, lo8 y, word_of_int m, word_of_int d]
              | _ \<Rightarrow> failed)
           else if fmt = format_datetime_regs then
             (case (case scan_fields ''--T::'' text of Some fs \<Rightarrow> Some fs | None \<Rightarrow> scan_fields ''-- ::'' text) of
                Some fs \<Rightarrow> stored (concat (map (\<lambda>v. [hi8 v, lo8 v]) fs))
              | None \<Rightarrow> failed)
           else if modbusmq_format_is_epoch fmt then
             (case strtoul0 text of
                Some (v, []) \<Rightarrow>
                  (case modbusmq_encode_value (if fmt = format_epoch32_abcd then format_uint32_abcd else format_uint32_badc)
                          (fp_of_int binary64 v) of
                     Inr bs \<Rightarrow> stored bs
                   | Inl Refused \<Rightarrow> failed
                   | Inl Undefined \<Rightarrow> None)
              | _ \<Rightarrow> failed)
           else failed)"

section \<open>Scaled values\<close>

definition is_float :: "modbusmq_data_format_e \<Rightarrow> bool" where
  "is_float fmt \<longleftrightarrow> fmt \<in> {format_float_abcd, format_float_badc, format_float_dcba, format_float_cdab}"

definition unscale :: "int \<Rightarrow> int \<Rightarrow> int \<Rightarrow> fp \<Rightarrow> fp" where
  "unscale add md mul value =
     (let dbl = fp_of_int binary64;
          raw = (if mul \<noteq> 0 then fdiv binary64 value (dbl mul) else value);
          raw = (if 0 < md then fdiv binary64 raw (dbl md)
                 else if md < 0 then fmul binary64 raw (fneg (dbl md)) else raw)
      in fsub binary64 raw (dbl add))"

text \<open>The smallest and the largest raw value a write of the format accepts.\<close>

fun raw_limits :: "modbusmq_data_format_e \<Rightarrow> int \<times> int" where
  "raw_limits format_int8 = (-128, 127)"
| "raw_limits format_a = (0, 255)"
| "raw_limits format_int16_ab = (-32768, 32767)"
| "raw_limits format_int16_ba = (-32768, 32767)"
| "raw_limits format_ab = (-32768, 65535)"
| "raw_limits format_ba = (-32768, 65535)"
| "raw_limits format_uint32_abcd = (0, 4294967295)"
| "raw_limits format_uint32_badc = (0, 4294967295)"
| "raw_limits _ = (-2147483648, 2147483647)"

definition fhalf :: fp where
  "fhalf = FNum False (1/2)"

text \<open>Rounding to the nearest integer by a conversion to \<open>int64_t\<close>.\<close>

definition round_raw :: "fp \<Rightarrow> fp encoded" where
  "round_raw raw =
     (if flt raw fzero
      then with_int (to_signed 64 (fadd binary64 (fneg raw) fhalf)) (\<lambda>v. Inr (fneg (fp_of_int binary64 v)))
      else with_int (to_signed 64 (fadd binary64 raw fhalf)) (\<lambda>v. Inr (fp_of_int binary64 v)))"

definition check_raw :: "modbusmq_data_format_e \<Rightarrow> fp \<Rightarrow> fp encoded" where
  "check_raw fmt raw =
     (let (l, h) = raw_limits fmt; lo = fp_of_int binary64 l; hi = fp_of_int binary64 h;
          one = fp_of_int binary64 1
      in case (if fle (fsub binary64 lo one) raw \<and> fle raw (fadd binary64 hi one) then round_raw raw else Inr raw) of
           Inl e \<Rightarrow> Inl e
         | Inr r \<Rightarrow> if flt r lo \<or> flt hi r then refuse else Inr r)"

definition pack_registers :: "byte list \<Rightarrow> u16 list" where
  "pack_registers bs =
     (word_of_int (be16 (bs ! 0) (bs ! 1))) #
     (if length bs = 4 then [word_of_int (be16 (bs ! 2) (bs ! 3))] else [])"

definition modbusmq_encode_scaled ::
    "modbusmq_data_format_e \<Rightarrow> int \<Rightarrow> int \<Rightarrow> int \<Rightarrow> fp \<Rightarrow> u16 list encoded" where
  "modbusmq_encode_scaled fmt add md mul value =
     (if \<not> is_finite value then refuse
      else
        let raw = unscale add md mul value
        in case (if is_float fmt then Inr raw else check_raw fmt raw) of
             Inl e \<Rightarrow> Inl e
           | Inr raw \<Rightarrow>
               (case modbusmq_encode_value fmt raw of
                  Inl e \<Rightarrow> Inl e
                | Inr bs \<Rightarrow> if length bs \<noteq> 2 \<and> length bs \<noteq> 4 then refuse else Inr (pack_registers bs)))"

definition modbusmq_write_encode :: "modbusmq_write_t \<Rightarrow> fp \<Rightarrow> u16 list encoded" where
  "modbusmq_write_encode w value =
     modbusmq_encode_scaled (wr_format w) (wr_add w) (wr_mod w) (wr_mul w) value"

definition modbusmq_write_channel_encode :: "modbusmq_write_channel_t \<Rightarrow> fp \<Rightarrow> u16 list encoded" where
  "modbusmq_write_channel_encode ch value =
     modbusmq_encode_scaled (wc_format ch) (wc_add ch) (wc_mod ch) (wc_mul ch) value"

section \<open>Blocks\<close>

text \<open>Stores the registers of one channel in the block.\<close>

fun put_regs :: "u16 list \<Rightarrow> nat \<Rightarrow> u16 list \<Rightarrow> u16 list" where
  "put_regs regs i [] = regs"
| "put_regs regs i (r # rs) = put_regs (regs[i := r]) (Suc i) rs"

definition block_channel :: "nat \<Rightarrow> modbusmq_write_channel_t \<Rightarrow> fp option \<Rightarrow> u16 list \<Rightarrow> u16 list encoded" where
  "block_channel n ch given regs =
     (case (case given of Some v \<Rightarrow> Some v | None \<Rightarrow> if wc_has_value ch then Some (wc_value ch) else None) of
        None \<Rightarrow> refuse
      | Some v \<Rightarrow>
          (case modbusmq_write_channel_encode ch v of
             Inl e \<Rightarrow> Inl e
           | Inr enc \<Rightarrow>
               (let first = wc_offset ch div 2
                in if wc_offset ch mod 2 \<noteq> 0 \<or> first < 0 \<or> int n < first + int (length enc) then refuse
                   else Inr (put_regs regs (nat first) enc))))"

fun block_loop ::
    "nat \<Rightarrow> modbusmq_write_channel_t list \<Rightarrow> fp list option \<Rightarrow> u16 list \<Rightarrow> u16 list encoded" where
  "block_loop n [] values regs = Inr regs"
| "block_loop n (ch # chs) values regs =
     (case block_channel n ch (map_option hd values) regs of
        Inl e \<Rightarrow> Inl e
      | Inr regs' \<Rightarrow> block_loop n chs (map_option tl values) regs')"

text \<open>\<open>values = None\<close> is the trigger form, where every channel takes its configured value.\<close>

definition modbusmq_write_encode_block ::
    "modbusmq_write_t \<Rightarrow> fp list option \<Rightarrow> int \<Rightarrow> u16 list encoded" where
  "modbusmq_write_encode_block w values nregs =
     (if wr_channels w = [] \<or> wr_naddress w \<le> 0 then refuse
      else if nregs < wr_naddress w then refuse
      else if (case values of None \<Rightarrow> False | Some vs \<Rightarrow> length vs \<noteq> length (wr_channels w)) then refuse
      else block_loop (nat (wr_naddress w)) (wr_channels w) values (replicate (nat (wr_naddress w)) 0))"

end
