(* ===== verification/Config_Keys.thy ===== *)
theory Config_Keys
  imports Encode
begin

text \<open>
  The leaves of the configuration parser (lib/modbusmq_config.c): lines, values, overrides and
  the handling of one key. A key handler answers with \<open>Bad\<close> (the parse fails), \<open>Unknown\<close> (the
  unknown-key handler is called), \<open>Skip\<close> (the line is passed over) or the updated structure.
  Messages are not modelled, nor is running out of memory.
\<close>

section \<open>Lines and values\<close>

definition is_blank :: "char \<Rightarrow> bool" where
  "is_blank ch \<longleftrightarrow> ch = CHR '' '' \<or> ch = CHR 0x09"

definition config_handle_value :: "string \<Rightarrow> string" where
  "config_handle_value s =
     (let s1 = dropWhile is_blank s
      in if take 1 s1 = ''#'' then [] else rev (dropWhile is_blank (rev s1)))"

definition config_line :: "string \<Rightarrow> (string \<times> string) option" where
  "config_line line =
     (let l = takeWhile (\<lambda>ch. ch \<noteq> CHR ''#'' \<and> ch \<noteq> CHR 0x0A \<and> ch \<noteq> CHR 0x0D) line
      in if CHR ''='' \<notin> set l then None
         else let k = takeWhile (\<lambda>ch. ch \<noteq> CHR ''='') l;
                  key = config_handle_value k;
                  value = config_handle_value (drop (Suc (length k)) l)
              in if key = [] \<or> value = [] then None else Some (key, value))"

text \<open>An entry \<open>key=value\<close> of the override list: its position and the value.\<close>

fun config_override_lookup :: "string list \<Rightarrow> string \<Rightarrow> (nat \<times> string) option" where
  "config_override_lookup [] key = None"
| "config_override_lookup (e # es) key =
     (if take (Suc (length key)) e = key @ ''='' then Some (0, drop (Suc (length key)) e)
      else map_option (\<lambda>(i, v). (Suc i, v)) (config_override_lookup es key))"

definition modbusmq_config_override_unmatched :: "bool list \<Rightarrow> nat" where
  "modbusmq_config_override_unmatched hits = length (filter Not hits)"

definition config_boolean :: "string \<Rightarrow> bool option" where
  "config_boolean value =
     (if value = ''1'' \<or> strcase_eq value ''true'' \<or> strcase_eq value ''yes'' then Some True
      else if value = ''0'' \<or> strcase_eq value ''false'' \<or> strcase_eq value ''no'' then Some False
      else None)"

datatype interval = Once | Every int

definition MODBUSMQ_INTERVAL_ONCE :: int where
  "MODBUSMQ_INTERVAL_ONCE = -1"

definition config_read_interval :: "string \<Rightarrow> interval option" where
  "config_read_interval input =
     (if strcase_eq input ''once'' then Some Once
      else case strtod input of
             Some (value, []) \<Rightarrow>
               if fle fzero value \<and> fle value (fp_of_int binary64 2147483647)
               then Some (Every (int_of_double value)) else None
           | _ \<Rightarrow> None)"

section \<open>Names\<close>

definition format_names :: "(string \<times> modbusmq_data_format_e) list" where
  "format_names =
     [(''int_a'', format_int8), (''int_ab'', format_int16_ab), (''int_ba'', format_int16_ba),
      (''int_abcd'', format_abcd), (''int_badc'', format_badc),
      (''uint_a'', format_a), (''uint_ab'', format_ab), (''uint_ba'', format_ba),
      (''uint_abcd'', format_uint32_abcd), (''uint_badc'', format_uint32_badc),
      (''float_ba'', format_float_ba), (''float_abcd'', format_float_abcd), (''float_badc'', format_float_badc),
      (''float_dcba'', format_float_dcba), (''float_cdab'', format_float_cdab),
      (''ascii_ab'', format_ascii_ab), (''ascii_ba'', format_ascii_ba),
      (''bcd_ab'', format_bcd_ab), (''bcd_ba'', format_bcd_ba),
      (''version_ab'', format_version_ab), (''version_abcd'', format_version_abcd),
      (''version_regs'', format_version_regs), (''date_ymd_abcd'', format_date_ymd_abcd),
      (''datetime_regs'', format_datetime_regs), (''epoch32_abcd'', format_epoch32_abcd),
      (''epoch32_badc'', format_epoch32_badc)]"

definition modbusmq_config_dataformat :: "string \<Rightarrow> modbusmq_data_format_e" where
  "modbusmq_config_dataformat value =
     (case map_of format_names value of Some f \<Rightarrow> f | None \<Rightarrow> format_unknown)"

fun modbusmq_config_dataformat_name :: "modbusmq_data_format_e \<Rightarrow> string" where
  "modbusmq_config_dataformat_name format_int8 = ''int_a''"
| "modbusmq_config_dataformat_name format_int16_ab = ''int_ab''"
| "modbusmq_config_dataformat_name format_int16_ba = ''int_ba''"
| "modbusmq_config_dataformat_name format_abcd = ''int_abcd''"
| "modbusmq_config_dataformat_name format_badc = ''int_badc''"
| "modbusmq_config_dataformat_name format_a = ''uint_a''"
| "modbusmq_config_dataformat_name format_ab = ''uint_ab''"
| "modbusmq_config_dataformat_name format_ba = ''uint_ba''"
| "modbusmq_config_dataformat_name format_uint32_abcd = ''uint_abcd''"
| "modbusmq_config_dataformat_name format_uint32_badc = ''uint_badc''"
| "modbusmq_config_dataformat_name format_float_ba = ''float_ba''"
| "modbusmq_config_dataformat_name format_float_abcd = ''float_abcd''"
| "modbusmq_config_dataformat_name format_float_badc = ''float_badc''"
| "modbusmq_config_dataformat_name format_float_dcba = ''float_dcba''"
| "modbusmq_config_dataformat_name format_float_cdab = ''float_cdab''"
| "modbusmq_config_dataformat_name format_ascii_ab = ''ascii_ab''"
| "modbusmq_config_dataformat_name format_ascii_ba = ''ascii_ba''"
| "modbusmq_config_dataformat_name format_bcd_ab = ''bcd_ab''"
| "modbusmq_config_dataformat_name format_bcd_ba = ''bcd_ba''"
| "modbusmq_config_dataformat_name format_version_ab = ''version_ab''"
| "modbusmq_config_dataformat_name format_version_abcd = ''version_abcd''"
| "modbusmq_config_dataformat_name format_version_regs = ''version_regs''"
| "modbusmq_config_dataformat_name format_date_ymd_abcd = ''date_ymd_abcd''"
| "modbusmq_config_dataformat_name format_datetime_regs = ''datetime_regs''"
| "modbusmq_config_dataformat_name format_epoch32_abcd = ''epoch32_abcd''"
| "modbusmq_config_dataformat_name format_epoch32_badc = ''epoch32_badc''"
| "modbusmq_config_dataformat_name format_unknown = ''?''"

definition modbusmq_config_query_mode :: "string \<Rightarrow> int" where
  "modbusmq_config_query_mode key =
     (if key = ''parallell'' then 0 else if key = ''series'' then 1 else if key = ''rounds'' then 2
      else let value = int_of_strtol key in if 0 \<le> value \<and> value \<le> 3 then value else -1)"

definition modbusmq_config_tier :: "string \<Rightarrow> modbusmq_tier_e option" where
  "modbusmq_config_tier value =
     (if value = ''fast'' \<or> value = ''0'' then Some tier_fast
      else if value = ''deep'' \<or> value = ''1'' then Some tier_deep else None)"

definition modbusmq_config_input_type :: "string \<Rightarrow> int" where
  "modbusmq_config_input_type value =
     (if value = ''input_register'' then 4 else if value = ''holding_register'' then 3
      else if value = ''coil'' then 1 else if value = ''discrete_input'' then 2 else 0)"

definition modbusmq_config_write_function :: "string \<Rightarrow> int" where
  "modbusmq_config_write_function value =
     (if value = ''write_coil'' then 0x05 else if value = ''write_register'' then 0x06
      else if value = ''write_registers'' then 0x10 else 0)"

section \<open>Answers of a key handler\<close>

datatype 'a keyed = Bad | Unknown | Skip | Set 'a

fun keyed_map :: "('a \<Rightarrow> 'b) \<Rightarrow> 'a keyed \<Rightarrow> 'b keyed" where
  "keyed_map f Bad = Bad"
| "keyed_map f Unknown = Unknown"
| "keyed_map f Skip = Skip"
| "keyed_map f (Set x) = Set (f x)"

definition CONFIG_MODULE_NONE :: int where
  "CONFIG_MODULE_NONE = -1"

definition CONFIG_MODULE_TEMPLATE :: int where
  "CONFIG_MODULE_TEMPLATE = -2"

definition MODBUSMQ_TEXT_BYTES_MAX :: int where
  "MODBUSMQ_TEXT_BYTES_MAX = 64"

definition MODBUSMQ_INPUT_WRITE_MAX :: int where
  "MODBUSMQ_INPUT_WRITE_MAX = 1000"

text \<open>The recurring shapes: a boolean, an \<open>int\<close> and a \<open>float\<close> that must not be negative.\<close>

definition key_boolean :: "string \<Rightarrow> (bool \<Rightarrow> 'a) \<Rightarrow> 'a keyed" where
  "key_boolean value f = (case config_boolean value of None \<Rightarrow> Bad | Some b \<Rightarrow> Set (f b))"

definition key_nonneg :: "string \<Rightarrow> (int \<Rightarrow> 'a) \<Rightarrow> 'a keyed" where
  "key_nonneg value f = (let v = int_of_strtol value in if v < 0 then Bad else Set (f v))"

definition key_change :: "string \<Rightarrow> (fp \<Rightarrow> 'a) \<Rightarrow> 'a keyed" where
  "key_change value f = (let v = float_of_text value in if flt v fzero then Bad else Set (f v))"

text \<open>\<open>sscanf(key, "<prefix>%d.%99s", &num, rest) == 2\<close>\<close>

definition scan_index :: "string \<Rightarrow> string \<Rightarrow> (int \<times> string) option" where
  "scan_index pre key =
     (case scan_lit pre key of
        None \<Rightarrow> None
      | Some r \<Rightarrow>
          (case scan_d r of
             None \<Rightarrow> None
           | Some (n, r) \<Rightarrow>
               (case scan_lit ''.'' r of
                  None \<Rightarrow> None
                | Some r \<Rightarrow>
                    (let w = take 99 (takeWhile (\<lambda>ch. \<not> is_space ch) (dropWhile is_space r))
                     in if w = [] then None else Some (wrap_int (clamp_long n), w)))))"

definition at_index :: "int \<Rightarrow> 'a list \<Rightarrow> ('a \<Rightarrow> 'a keyed) \<Rightarrow> 'a list keyed" where
  "at_index n xs f = keyed_map (\<lambda>x. xs[nat (n - 1) := x]) (f (xs ! nat (n - 1)))"

section \<open>Keys of an input channel\<close>

definition channel_value_key :: "string \<Rightarrow> string \<Rightarrow> modbusmq_channel_t \<Rightarrow> modbusmq_channel_t keyed" where
  "channel_value_key key value ch =
     (if key = ''offset'' then Set (ch\<lparr>ch_offset := int_of_strtoul value\<rparr>)
      else if key = ''format'' then
        (let f = modbusmq_config_dataformat value
         in if f = format_unknown then Bad
            else Set (ch\<lparr>ch_format := f,
                         ch_length := (if ch_has_length ch then ch_length ch else modbusmq_format_size f)\<rparr>))
      else if key = ''length'' \<or> key = ''nregisters'' then
        (let n = int_of_strtol value; bytes = (if take 1 key = ''n'' then wrap_int (n * 2) else n)
         in if n \<le> 0 \<or> MODBUSMQ_TEXT_BYTES_MAX < bytes then Bad
            else Set (ch\<lparr>ch_length := bytes, ch_has_length := True\<rparr>))
      else if key = ''timefmt'' then Set (ch\<lparr>ch_timefmt := Some value\<rparr>)
      else if key = ''timezone'' then
        (if value = ''utc'' then Set (ch\<lparr>ch_localtime := False\<rparr>)
         else if value = ''local'' then Set (ch\<lparr>ch_localtime := True\<rparr>) else Bad)
      else if key = ''mod'' then Set (ch\<lparr>ch_mod := int_of_double (double_of_text value)\<rparr>)
      else if key = ''mul'' then Set (ch\<lparr>ch_mul := int_of_double (double_of_text value)\<rparr>)
      else if key = ''add'' then Set (ch\<lparr>ch_add := int_of_double (double_of_text value)\<rparr>)
      else if key = ''topic'' then Set (ch\<lparr>ch_topic := Some value\<rparr>)
      else if key = ''value'' then Set (ch\<lparr>ch_value := float_of_text value, ch_value_text := Some value\<rparr>)
      else Unknown)"

definition channel_publish_key :: "string \<Rightarrow> string \<Rightarrow> modbusmq_channel_t \<Rightarrow> modbusmq_channel_t keyed" where
  "channel_publish_key key value ch =
     (if key = ''retain'' then key_boolean value (\<lambda>b. ch\<lparr>ch_retain := b, ch_has_retain := True\<rparr>)
      else if key = ''qos'' then
        (let q = long_of_strtol value in if q < 0 \<or> 2 < q then Bad else Set (ch\<lparr>ch_qos := q, ch_has_qos := True\<rparr>))
      else if key = ''decimals'' then
        (let d = long_of_strtol value
         in if d < 0 \<or> 9 < d then Bad else Set (ch\<lparr>ch_decimals := d, ch_has_decimals := True\<rparr>))
      else if key = ''on_change'' then key_boolean value (\<lambda>b. ch\<lparr>ch_on_change := b, ch_has_on_change := True\<rparr>)
      else if key = ''min_change'' then key_change value (\<lambda>v. ch\<lparr>ch_min_change := v, ch_has_min_change := True\<rparr>)
      else if key = ''min_change_rel'' then
        key_change value (\<lambda>v. ch\<lparr>ch_min_change_rel := v, ch_has_min_change_rel := True\<rparr>)
      else if key = ''min_interval_ms'' then
        key_nonneg value (\<lambda>v. ch\<lparr>ch_min_interval := v, ch_has_min_interval := True\<rparr>)
      else if key = ''max_interval_ms'' then
        key_nonneg value (\<lambda>v. ch\<lparr>ch_max_interval := v, ch_has_max_interval := True\<rparr>)
      else Unknown)"

definition channel_key :: "string \<Rightarrow> string \<Rightarrow> modbusmq_channel_t \<Rightarrow> modbusmq_channel_t keyed" where
  "channel_key key value ch =
     (case channel_value_key key value ch of Unknown \<Rightarrow> channel_publish_key key value ch | r \<Rightarrow> r)"

end
