(* ===== verification/Config.thy ===== *)
theory Config
  imports Config_Keys
begin

text \<open>
  The keys of a configuration file and the loop over its lines (lib/modbusmq_config.c, the
  first half of \<open>config_parse_stream\<close>).
\<close>

section \<open>Keys of an input\<close>

definition input_plain_key :: "string \<Rightarrow> string \<Rightarrow> modbusmq_input_t \<Rightarrow> modbusmq_input_t keyed" where
  "input_plain_key key value i =
     (if key = ''slave'' then
        (if value = ''module'' then Set (i\<lparr>in_module := CONFIG_MODULE_TEMPLATE, in_slave := 0\<rparr>)
         else Set (i\<lparr>in_module := CONFIG_MODULE_NONE, in_slave := int_of_strtoul value\<rparr>))
      else if key = ''type'' then Set (i\<lparr>in_type := modbusmq_config_input_type value\<rparr>)
      else if key = ''address'' then Set (i\<lparr>in_address := int_of_strtoul value\<rparr>)
      else if key = ''address_offset'' then Set (i\<lparr>in_address_offset := int_of_strtoul value\<rparr>)
      else if key = ''naddress'' then Set (i\<lparr>in_naddress := int_of_strtoul value\<rparr>)
      else if key = ''interval_ms'' then
        (case config_read_interval value of
           None \<Rightarrow> Bad
         | Some Once \<Rightarrow> Set (i\<lparr>in_interval := MODBUSMQ_INTERVAL_ONCE\<rparr>)
         | Some (Every v) \<Rightarrow> Set (i\<lparr>in_interval := v\<rparr>))
      else if key = ''tier'' then
        (case modbusmq_config_tier value of None \<Rightarrow> Bad | Some t \<Rightarrow> Set (i\<lparr>in_tier := t\<rparr>))
      else if key = ''on_change'' then key_boolean value (\<lambda>b. i\<lparr>in_on_change := b, in_has_on_change := True\<rparr>)
      else if key = ''min_change_rel'' then
        key_change value (\<lambda>v. i\<lparr>in_min_change_rel := v, in_has_min_change_rel := True\<rparr>)
      else if key = ''min_change'' then key_change value (\<lambda>v. i\<lparr>in_min_change := v, in_has_min_change := True\<rparr>)
      else if key = ''min_interval_ms'' then
        key_nonneg value (\<lambda>v. i\<lparr>in_min_interval := v, in_has_min_interval := True\<rparr>)
      else if key = ''max_interval_ms'' then
        key_nonneg value (\<lambda>v. i\<lparr>in_max_interval := v, in_has_max_interval := True\<rparr>)
      else Unknown)"

definition input_channels_key :: "string \<Rightarrow> string \<Rightarrow> modbusmq_input_t \<Rightarrow> modbusmq_input_t keyed" where
  "input_channels_key key value i =
     (if key = ''channel.max'' then
        (if in_channels i \<noteq> [] then Bad
         else let n = int_of_strtoul value
              in if n \<le> 0 \<or> 100 < n then Bad else Set (i\<lparr>in_channels := replicate (nat n) channel_zero\<rparr>))
      else if take 8 key = ''channel.'' then
        (case scan_index ''channel.'' key of
           None \<Rightarrow> Skip
         | Some (n, channel_k) \<Rightarrow>
             if n \<le> 0 \<or> int (length (in_channels i)) < n then Skip
             else keyed_map (\<lambda>chs. i\<lparr>in_channels := chs\<rparr>) (at_index n (in_channels i) (channel_key channel_k value)))
      else Unknown)"

definition input_key :: "string \<Rightarrow> string \<Rightarrow> modbusmq_input_t \<Rightarrow> modbusmq_input_t keyed" where
  "input_key key value i =
     (case input_plain_key key value i of Unknown \<Rightarrow> input_channels_key key value i | r \<Rightarrow> r)"

section \<open>Keys of a write\<close>

definition write_plain_key :: "string \<Rightarrow> string \<Rightarrow> modbusmq_write_t \<Rightarrow> modbusmq_write_t keyed" where
  "write_plain_key key value w =
     (if key = ''name'' then Set (w\<lparr>wr_name := Some value\<rparr>)
      else if key = ''slave'' then
        (if value = ''module''
         then Set (w\<lparr>wr_module := CONFIG_MODULE_TEMPLATE, wr_slave := 0, wr_has_slave := True\<rparr>)
         else Set (w\<lparr>wr_module := CONFIG_MODULE_NONE, wr_slave := int_of_strtoul value, wr_has_slave := True\<rparr>))
      else if key = ''type'' then
        (let t = modbusmq_config_input_type value
         in if t = 0 then Bad else if t \<noteq> 1 \<and> t \<noteq> 3 then Bad else Set (w\<lparr>wr_type := t\<rparr>))
      else if key = ''function'' then
        (let f = modbusmq_config_write_function value in if f = 0 then Bad else Set (w\<lparr>wr_function := f\<rparr>))
      else if key = ''address'' then Set (w\<lparr>wr_address := int_of_strtoul value, wr_has_address := True\<rparr>)
      else if key = ''format'' then
        (let f = modbusmq_config_dataformat value
         in if f = format_unknown then Bad else if modbusmq_format_is_text f then Bad
            else Set (w\<lparr>wr_format := f, wr_length := modbusmq_format_size f\<rparr>))
      else if key = ''add'' then Set (w\<lparr>wr_add := int_of_double (double_of_text value)\<rparr>)
      else if key = ''mod'' then Set (w\<lparr>wr_mod := int_of_double (double_of_text value)\<rparr>)
      else if key = ''mul'' then Set (w\<lparr>wr_mul := int_of_double (double_of_text value)\<rparr>)
      else if key = ''on_value'' then Set (w\<lparr>wr_on_value := int_of_strtol value, wr_has_on_value := True\<rparr>)
      else if key = ''off_value'' then Set (w\<lparr>wr_off_value := int_of_strtol value, wr_has_off_value := True\<rparr>)
      else if key = ''topic'' then Set (w\<lparr>wr_topic := Some value\<rparr>)
      else if key = ''ack_topic'' then Set (w\<lparr>wr_ack_topic := Some value\<rparr>)
      else if key = ''ack'' then key_boolean value (\<lambda>b. w\<lparr>wr_ack := b, wr_has_ack := True\<rparr>)
      else if key = ''naddress'' then Set (w\<lparr>wr_naddress := int_of_strtoul value, wr_has_naddress := True\<rparr>)
      else Unknown)"

definition write_channel_key :: "string \<Rightarrow> string \<Rightarrow> modbusmq_write_channel_t \<Rightarrow> modbusmq_write_channel_t keyed" where
  "write_channel_key key value ch =
     (if key = ''name'' then Set (ch\<lparr>wc_name := Some value\<rparr>)
      else if key = ''offset'' then Set (ch\<lparr>wc_offset := int_of_strtoul value\<rparr>)
      else if key = ''format'' then
        (let f = modbusmq_config_dataformat value
         in if f = format_unknown then Bad else Set (ch\<lparr>wc_format := f, wc_length := modbusmq_format_size f\<rparr>))
      else if key = ''add'' then Set (ch\<lparr>wc_add := int_of_double (double_of_text value)\<rparr>)
      else if key = ''mod'' then Set (ch\<lparr>wc_mod := int_of_double (double_of_text value)\<rparr>)
      else if key = ''mul'' then Set (ch\<lparr>wc_mul := int_of_double (double_of_text value)\<rparr>)
      else if key = ''value'' then Set (ch\<lparr>wc_value := double_of_text value, wc_has_value := True\<rparr>)
      else Unknown)"

text \<open>A channel number out of range is an error here, since a block is written whole.\<close>

definition write_channels_key :: "string \<Rightarrow> string \<Rightarrow> modbusmq_write_t \<Rightarrow> modbusmq_write_t keyed" where
  "write_channels_key key value w =
     (if key = ''channel.max'' then
        (if wr_channels w \<noteq> [] then Bad
         else let n = int_of_strtoul value
              in if n \<le> 0 \<or> 123 < n then Bad else Set (w\<lparr>wr_channels := replicate (nat n) write_channel_zero\<rparr>))
      else if take 8 key = ''channel.'' then
        (case scan_index ''channel.'' key of
           None \<Rightarrow> Skip
         | Some (n, channel_k) \<Rightarrow>
             if n \<le> 0 \<or> int (length (wr_channels w)) < n then Bad
             else keyed_map (\<lambda>chs. w\<lparr>wr_channels := chs\<rparr>) (at_index n (wr_channels w) (write_channel_key channel_k value)))
      else Unknown)"

definition write_key :: "string \<Rightarrow> string \<Rightarrow> modbusmq_write_t \<Rightarrow> modbusmq_write_t keyed" where
  "write_key key value w =
     (case write_plain_key key value w of Unknown \<Rightarrow> write_channels_key key value w | r \<Rightarrow> r)"

section \<open>Top-level keys\<close>

definition modbusmq_key :: "string \<Rightarrow> string \<Rightarrow> modbusmq_config_t \<Rightarrow> modbusmq_config_t keyed" where
  "modbusmq_key key value g =
     (if key = ''config.name'' then Set (g\<lparr>config_name := Some value\<rparr>)
      else if key = ''config.version'' then Set (g\<lparr>config_version := Some value\<rparr>)
      else if key = ''modbusmq.connect'' then Set (g\<lparr>cfg_connect := Some value\<rparr>)
      else if key = ''modbusmq.baudrate'' then Set (g\<lparr>cfg_baudrate := int_of_strtol value\<rparr>)
      else if key = ''modbusmq.stopbit'' then Set (g\<lparr>cfg_stopbit := int_of_strtol value\<rparr>)
      else if key = ''modbusmq.databit'' then Set (g\<lparr>cfg_databit := int_of_strtol value\<rparr>)
      else if key = ''modbusmq.parity'' then
        Set (g\<lparr>cfg_parity := (case value of [] \<Rightarrow> CHR 0x00 | ch # _ \<Rightarrow> ch)\<rparr>)
      else if key = ''modbusmq.rts_delay_us'' then Set (g\<lparr>cfg_rts_delay_us := int_of_strtol value\<rparr>)
      else if key = ''modbusmq.frame_timeout_ms'' then Set (g\<lparr>cfg_frame_timeout_ms := int_of_strtol value\<rparr>)
      else if key = ''modbusmq.slave_retry_max_ms'' then key_nonneg value (\<lambda>v. g\<lparr>slave_retry_max_ms := v\<rparr>)
      else if key = ''modbusmq.na_value'' then
        (case strtol0 value of
           Some (raw, []) \<Rightarrow> if raw < 0 \<or> 0xFFFF < raw then Bad
                              else Set (g\<lparr>na_value := word_of_int raw, has_na_value := True\<rparr>)
         | _ \<Rightarrow> Bad)
      else if key = ''modbusmq.raw_write'' then key_boolean value (\<lambda>b. g\<lparr>raw_write := b\<rparr>)
      else if key = ''modbusmq.frame_delay_ms'' then key_nonneg value (\<lambda>v. g\<lparr>frame_delay_ms := v\<rparr>)
      else Unknown)"

definition query_mode_of :: "int \<Rightarrow> modbusmq_query_mode_e" where
  "query_mode_of v = (if v = 1 then query_mode_series else if v = 2 then query_mode_rounds else query_mode_parallell)"

definition mqtt_key :: "string \<Rightarrow> string \<Rightarrow> modbusmq_config_t \<Rightarrow> modbusmq_config_t keyed" where
  "mqtt_key key value g =
     (if key = ''mqtt.name'' then Set (g\<lparr>mqtt_name := Some value\<rparr>)
      else if key = ''mqtt.connect'' then Set (g\<lparr>mqtt_connect := Some value\<rparr>)
      else if key = ''mqtt.retain'' then key_boolean value (\<lambda>b. g\<lparr>mqtt_retain := b\<rparr>)
      else if key = ''mqtt.qos'' then
        (let q = int_of_strtol value in if q < 0 \<or> 2 < q then Bad else Set (g\<lparr>mqtt_qos := q\<rparr>))
      else if key = ''mqtt.topic_prefix'' then Set (g\<lparr>mqtt_topic_prefix := Some value\<rparr>)
      else if key = ''mqtt.ack'' then key_boolean value (\<lambda>b. g\<lparr>mqtt_ack := b\<rparr>)
      else if key = ''publish.on_change'' then
        key_boolean value (\<lambda>b. g\<lparr>publish_on_change := b, has_publish_on_change := True\<rparr>)
      else if key = ''publish.min_change'' then
        key_change value (\<lambda>v. g\<lparr>publish_min_change := v, has_publish_min_change := True\<rparr>)
      else if key = ''publish.min_change_rel'' then
        key_change value (\<lambda>v. g\<lparr>publish_min_change_rel := v, has_publish_min_change_rel := True\<rparr>)
      else if key = ''publish.min_interval_ms'' then
        key_nonneg value (\<lambda>v. g\<lparr>publish_min_interval := v, has_publish_min_interval := True\<rparr>)
      else if key = ''publish.max_interval_ms'' then
        key_nonneg value (\<lambda>v. g\<lparr>publish_max_interval := v, has_publish_max_interval := True\<rparr>)
      else Unknown)"

text \<open>\<open>config_module_key\<close>: \<open>Unknown\<close> when it is no module key.\<close>

definition CONFIG_SLAVE_MAX :: int where
  "CONFIG_SLAVE_MAX = 247"

definition config_module_key :: "string \<Rightarrow> string \<Rightarrow> modbusmq_config_t \<Rightarrow> modbusmq_config_t keyed" where
  "config_module_key key value g =
     (let v = int_of_strtol value
      in if key = ''module.count'' then
           if v < 0 \<or> CONFIG_SLAVE_MAX < v then Bad else Set (g\<lparr>module_count := v\<rparr>)
         else if key = ''module.slave_first'' then
           if v < 1 \<or> CONFIG_SLAVE_MAX < v then Bad else Set (g\<lparr>module_slave_first := v\<rparr>)
         else Unknown)"

definition inputs_key :: "string \<Rightarrow> string \<Rightarrow> modbusmq_config_t \<Rightarrow> modbusmq_config_t keyed" where
  "inputs_key key value g =
     (if key = ''input.offset_size'' then Set (g\<lparr>offset_size := int_of_strtol value\<rparr>)
      else if key = ''input.query_mode'' then Set (g\<lparr>query_mode := query_mode_of (modbusmq_config_query_mode value)\<rparr>)
      else if key = ''input.round_interval_ms'' then key_nonneg value (\<lambda>v. g\<lparr>round_interval_ms := v\<rparr>)
      else if key = ''input.max'' then
        (if inputs g \<noteq> [] then Bad
         else let n = int_of_strtoul value
              in if n < 0 \<or> MODBUSMQ_INPUT_WRITE_MAX < n then Bad
                 else Set (g\<lparr>inputs := replicate (nat n) (input_zero\<lparr>in_module := CONFIG_MODULE_NONE\<rparr>)\<rparr>))
      else if take 6 key = ''input.'' then
        (case scan_index ''input.'' key of
           None \<Rightarrow> Skip
         | Some (n, input_k) \<Rightarrow>
             if n \<le> 0 \<or> int (length (inputs g)) < n then Skip
             else keyed_map (\<lambda>is. g\<lparr>inputs := is\<rparr>) (at_index n (inputs g) (input_key input_k value)))
      else Unknown)"

definition writes_key :: "string \<Rightarrow> string \<Rightarrow> modbusmq_config_t \<Rightarrow> modbusmq_config_t keyed" where
  "writes_key key value g =
     (if key = ''write.max'' then
        (if cfg_writes g \<noteq> [] then Bad
         else let n = int_of_strtoul value
              in if n < 0 \<or> MODBUSMQ_INPUT_WRITE_MAX < n then Bad
                 else Set (g\<lparr>cfg_writes := replicate (nat n) (write_zero\<lparr>wr_module := CONFIG_MODULE_NONE\<rparr>)\<rparr>))
      else if take 6 key = ''write.'' then
        (case scan_index ''write.'' key of
           None \<Rightarrow> Skip
         | Some (n, write_k) \<Rightarrow>
             if n \<le> 0 \<or> int (length (cfg_writes g)) < n then Bad
             else keyed_map (\<lambda>ws. g\<lparr>cfg_writes := ws\<rparr>) (at_index n (cfg_writes g) (write_key write_k value)))
      else Unknown)"

text \<open>All keys of the file, \<open>module.\<close> apart.\<close>

definition config_key :: "string \<Rightarrow> string \<Rightarrow> modbusmq_config_t \<Rightarrow> modbusmq_config_t keyed" where
  "config_key key value g =
     (case modbusmq_key key value g of
        Unknown \<Rightarrow>
          (if take 7 key = ''module.'' then config_module_key key value g
           else case inputs_key key value g of
                  Unknown \<Rightarrow>
                    (if take 6 key = ''input.'' then Unknown
                     else case writes_key key value g of
                            Unknown \<Rightarrow> if take 6 key = ''write.'' then Unknown else mqtt_key key value g
                          | r \<Rightarrow> r)
                | r \<Rightarrow> r)
      | r \<Rightarrow> r)"

section \<open>The lines of a file\<close>

text \<open>
  The state of the parse: the configuration, whether each module key was seen, which
  overrides were used, and the calls of the unknown-key handler with their line numbers.
\<close>

record parse_state =
  ps_config :: modbusmq_config_t
  ps_line :: nat
  seen_module_count :: bool
  seen_module_slave_first :: bool
  override_hit :: "bool list"
  unknown_keys :: "(nat \<times> string \<times> string) list"

definition mark_hit :: "nat \<Rightarrow> parse_state \<Rightarrow> parse_state" where
  "mark_hit o' ps = ps\<lparr>override_hit := (override_hit ps)[o' := True]\<rparr>"

definition parse_line :: "string list \<Rightarrow> string \<Rightarrow> parse_state \<Rightarrow> parse_state option" where
  "parse_line overrides line ps =
     (let ps = ps\<lparr>ps_line := Suc (ps_line ps)\<rparr>
      in case config_line line of
           None \<Rightarrow> Some ps
         | Some (key, file_value) \<Rightarrow>
             (let (value, ps) = (case config_override_lookup overrides key of
                    None \<Rightarrow> (file_value, ps)
                  | Some (i, v) \<Rightarrow> (v, mark_hit i ps))
              in case config_key key value (ps_config ps) of
                   Bad \<Rightarrow> None
                 | Skip \<Rightarrow> Some ps
                 | Unknown \<Rightarrow> Some (ps\<lparr>unknown_keys := unknown_keys ps @ [(ps_line ps, key, value)]\<rparr>)
                 | Set g \<Rightarrow>
                     (let ps = ps\<lparr>ps_config := g\<rparr>
                      in if take 7 key \<noteq> ''module.'' then Some ps
                         else if key ! 7 = CHR ''c'' then Some (ps\<lparr>seen_module_count := True\<rparr>)
                         else Some (ps\<lparr>seen_module_slave_first := True\<rparr>))))"

fun parse_lines :: "string list \<Rightarrow> string list \<Rightarrow> parse_state \<Rightarrow> parse_state option" where
  "parse_lines overrides [] ps = Some ps"
| "parse_lines overrides (l # ls) ps =
     (case parse_line overrides l ps of None \<Rightarrow> None | Some ps' \<Rightarrow> parse_lines overrides ls ps')"

text \<open>What the parse starts from, whatever configuration there was before.\<close>

definition config_defaults :: "modbusmq_config_t \<Rightarrow> modbusmq_config_t" where
  "config_defaults g =
     g\<lparr>cfg_rts_delay_us := 10000, cfg_frame_timeout_ms := 1000, slave_retry_max_ms := 300000,
       frame_delay_ms := -1, offset_size := 1, mqtt_retain := True, mqtt_qos := 0,
       module_count := 0, module_slave_first := 1\<rparr>"

text \<open>A module key the file does not have may still come from the overrides.\<close>

definition late_module_key ::
    "string list \<Rightarrow> string \<Rightarrow> (parse_state \<Rightarrow> bool) \<Rightarrow> parse_state \<Rightarrow> parse_state option" where
  "late_module_key overrides key seen ps =
     (if seen ps then Some ps
      else case config_override_lookup overrides key of
             None \<Rightarrow> Some ps
           | Some (i, v) \<Rightarrow>
               (case config_module_key key v (ps_config ps) of
                  Bad \<Rightarrow> None
                | Set g \<Rightarrow> Some (mark_hit i (ps\<lparr>ps_config := g\<rparr>))
                | _ \<Rightarrow> Some (mark_hit i ps)))"

end
