(* ===== verification/Config_Parse.thy ===== *)
theory Config_Parse
  imports Config
begin

text \<open>
  What happens to a configuration once its file is read (lib/modbusmq_config.c, the second half
  of \<open>config_parse_stream\<close> and the functions it calls): the expansion of module templates, the
  meaning of the old format names, inherited publish settings, validation, topics and acks.
  \<open>None\<close> is the return code \<open>-1\<close>.
\<close>

section \<open>Module templates\<close>

definition config_check_modules :: "modbusmq_config_t \<Rightarrow> bool" where
  "config_check_modules g \<longleftrightarrow>
     \<not> (0 < module_count g \<and> CONFIG_SLAVE_MAX < module_slave_first g + module_count g - 1)"

definition config_copy_input :: "modbusmq_input_t \<Rightarrow> int \<Rightarrow> int \<Rightarrow> modbusmq_input_t" where
  "config_copy_input src m slave = src\<lparr>in_module := m, in_slave := slave\<rparr>"

definition config_copy_write :: "modbusmq_write_t \<Rightarrow> int \<Rightarrow> int \<Rightarrow> modbusmq_write_t" where
  "config_copy_write src m slave = src\<lparr>wr_module := m, wr_slave := slave, wr_has_slave := True\<rparr>"

definition input_template :: "modbusmq_input_t \<Rightarrow> bool" where
  "input_template i \<longleftrightarrow> in_module i = CONFIG_MODULE_TEMPLATE"

definition write_template :: "modbusmq_write_t \<Rightarrow> bool" where
  "write_template w \<longleftrightarrow> wr_module w = CONFIG_MODULE_TEMPLATE"

text \<open>One pass over the entries for module \<open>m\<close>; the others are kept in the first pass only.\<close>

fun expand_pass :: "('a \<Rightarrow> bool) \<Rightarrow> (int \<Rightarrow> 'a \<Rightarrow> 'a) \<Rightarrow> nat \<Rightarrow> 'a list \<Rightarrow> 'a list" where
  "expand_pass tmpl copy m [] = []"
| "expand_pass tmpl copy m (x # xs) =
     (if tmpl x then copy (int m) x # expand_pass tmpl copy m xs
      else if m = 0 then x # expand_pass tmpl copy m xs
      else expand_pass tmpl copy m xs)"

definition config_expand_inputs :: "modbusmq_config_t \<Rightarrow> modbusmq_config_t option" where
  "config_expand_inputs g =
     (let ntemplate = int (length (filter input_template (inputs g)));
          total = (int (length (inputs g)) - ntemplate) + ntemplate * module_count g;
          copy = (\<lambda>m src. config_copy_input src m (module_slave_first g + m))
      in if ntemplate = 0 then Some g
         else if module_count g \<le> 0 then None
         else if MODBUSMQ_INPUT_WRITE_MAX < total then None
         else Some (g\<lparr>inputs :=
                concat (map (\<lambda>m. expand_pass input_template copy m (inputs g)) [0..<nat (module_count g)])\<rparr>))"

definition config_expand_writes :: "modbusmq_config_t \<Rightarrow> modbusmq_config_t option" where
  "config_expand_writes g =
     (let ntemplate = int (length (filter write_template (cfg_writes g)));
          total = (int (length (cfg_writes g)) - ntemplate) + ntemplate * module_count g;
          copy = (\<lambda>m src. config_copy_write src m (module_slave_first g + m))
      in if ntemplate = 0 then Some g
         else if module_count g \<le> 0 then None
         else if MODBUSMQ_INPUT_WRITE_MAX < total then None
         else Some (g\<lparr>cfg_writes :=
                concat (map (\<lambda>m. expand_pass write_template copy m (cfg_writes g)) [0..<nat (module_count g)])\<rparr>))"

section \<open>Old format names and inherited publish settings\<close>

definition old_format :: "modbusmq_data_format_e \<Rightarrow> modbusmq_data_format_e" where
  "old_format f = (if f = format_int8 then format_a else if f = format_int16_ab then format_ab
                   else if f = format_int16_ba then format_ba else f)"

definition modbusmq_config_apply_format_version :: "modbusmq_config_t \<Rightarrow> modbusmq_config_t" where
  "modbusmq_config_apply_format_version g =
     (let version = (case config_version g of None \<Rightarrow> fzero | Some v \<Rightarrow> double_of_text v)
      in if fle (fp_of_int binary64 2) version then g
         else g\<lparr>inputs := map (\<lambda>i. i\<lparr>in_channels :=
                   map (\<lambda>ch. ch\<lparr>ch_format := old_format (ch_format ch)\<rparr>) (in_channels i)\<rparr>) (inputs g),
                cfg_writes := map (\<lambda>w. w\<lparr>wr_format := old_format (wr_format w),
                   wr_channels := map (\<lambda>ch. ch\<lparr>wc_format := old_format (wc_format ch)\<rparr>) (wr_channels w)\<rparr>)
                  (cfg_writes g)\<rparr>)"

text \<open>A channel's own value, else its input's, else the configuration's, else what it was.\<close>

definition inherited :: "bool \<Rightarrow> bool \<Rightarrow> 'a \<Rightarrow> bool \<Rightarrow> 'a \<Rightarrow> 'a \<Rightarrow> 'a" where
  "inherited own has_input input_value has_config config_value x =
     (if own then x else if has_input then input_value else if has_config then config_value else x)"

definition inherit_publish :: "modbusmq_config_t \<Rightarrow> modbusmq_input_t \<Rightarrow> modbusmq_channel_t \<Rightarrow> modbusmq_channel_t" where
  "inherit_publish g i ch =
     ch\<lparr>ch_on_change := inherited (ch_has_on_change ch) (in_has_on_change i) (in_on_change i)
                          (has_publish_on_change g) (publish_on_change g) (ch_on_change ch),
        ch_min_change := inherited (ch_has_min_change ch) (in_has_min_change i) (in_min_change i)
                          (has_publish_min_change g) (publish_min_change g) (ch_min_change ch),
        ch_min_change_rel := inherited (ch_has_min_change_rel ch) (in_has_min_change_rel i) (in_min_change_rel i)
                          (has_publish_min_change_rel g) (publish_min_change_rel g) (ch_min_change_rel ch),
        ch_min_interval := inherited (ch_has_min_interval ch) (in_has_min_interval i) (in_min_interval i)
                          (has_publish_min_interval g) (publish_min_interval g) (ch_min_interval ch),
        ch_max_interval := inherited (ch_has_max_interval ch) (in_has_max_interval i) (in_max_interval i)
                          (has_publish_max_interval g) (publish_max_interval g) (ch_max_interval ch)\<rparr>"

definition modbusmq_config_apply_publish_defaults :: "modbusmq_config_t \<Rightarrow> modbusmq_config_t" where
  "modbusmq_config_apply_publish_defaults g =
     g\<lparr>inputs := map (\<lambda>i. i\<lparr>in_channels := map (inherit_publish g i) (in_channels i)\<rparr>) (inputs g)\<rparr>"

definition resolve_frame_delay :: "modbusmq_config_t \<Rightarrow> modbusmq_config_t" where
  "resolve_frame_delay g =
     (if 0 \<le> frame_delay_ms g then g
      else g\<lparr>frame_delay_ms :=
             (case cfg_connect g of Some s \<Rightarrow> if take 6 s = ''rtu://'' then 50 else 0 | None \<Rightarrow> 0)\<rparr>)"

section \<open>Validation of the inputs\<close>

definition check_intervals :: "modbusmq_config_t \<Rightarrow> bool" where
  "check_intervals g \<longleftrightarrow>
     query_mode g = query_mode_rounds
     \<or> (\<forall>i \<in> set (inputs g). 0 < in_interval i \<or> in_interval i = MODBUSMQ_INTERVAL_ONCE)"

definition check_channel :: "modbusmq_input_t \<Rightarrow> modbusmq_channel_t \<Rightarrow> bool" where
  "check_channel i ch \<longleftrightarrow>
     (let f = ch_format ch; fixed = modbusmq_format_size f;
          timed = (ch_timefmt ch \<noteq> None \<or> ch_localtime ch)
      in if ch_topic ch = None then True
         else if MODBUSMQ_TYPE_IS_BIT (in_type i) then f = format_unknown
         else if f = format_unknown then False
         else if \<not> modbusmq_format_is_text f then \<not> ch_has_length ch \<and> \<not> timed
         else if fixed = 0 \<and> \<not> ch_has_length ch then False
         else if fixed \<noteq> 0 \<and> ch_has_length ch \<and> ch_length ch \<noteq> fixed then False
         else if f = format_version_regs \<and> ch_length ch mod 2 \<noteq> 0 then False
         else if ch_mod ch \<noteq> 0 \<or> ch_mul ch \<noteq> 0 then False
         else if ch_add ch \<noteq> 0 \<and> \<not> modbusmq_format_is_epoch f then False
         else if ch_has_decimals ch then False
         else if ch_has_min_change ch \<or> ch_has_min_change_rel ch then False
         else if timed \<and> \<not> modbusmq_format_is_time f then False
         else \<not> (ch_localtime ch \<and> \<not> modbusmq_format_is_epoch f))"

definition check_inputs :: "modbusmq_config_t \<Rightarrow> bool" where
  "check_inputs g \<longleftrightarrow> (\<forall>i \<in> set (inputs g). \<forall>ch \<in> set (in_channels i). check_channel i ch)"

section \<open>Validation of the writes\<close>

definition block_channel_ok :: "modbusmq_write_channel_t \<Rightarrow> bool" where
  "block_channel_ok ch \<longleftrightarrow>
     wc_format ch \<noteq> format_unknown \<and> \<not> modbusmq_format_is_text (wc_format ch)
     \<and> (wc_length ch = 2 \<or> wc_length ch = 4) \<and> 0 \<le> wc_offset ch \<and> wc_offset ch mod 2 = 0"

definition block_span :: "modbusmq_write_channel_t list \<Rightarrow> int" where
  "block_span chs = foldl (\<lambda>span ch. max span (wc_offset ch + wc_length ch)) 0 chs"

text \<open>Claims registers \<open>r\<close> to \<open>r + n - 1\<close> in the table; \<open>None\<close> when one is taken already.\<close>

fun claim_range :: "bool list \<Rightarrow> nat \<Rightarrow> nat \<Rightarrow> bool list option" where
  "claim_range claimed r 0 = Some claimed"
| "claim_range claimed r (Suc n) =
     (if claimed ! r then None else claim_range (claimed[r := True]) (Suc r) n)"

fun claim_channels :: "nat \<Rightarrow> bool list \<Rightarrow> modbusmq_write_channel_t list \<Rightarrow> bool list option" where
  "claim_channels nregs claimed [] = Some claimed"
| "claim_channels nregs claimed (ch # chs) =
     (let first = nat (wc_offset ch div 2); n = nat (wc_length ch div 2)
      in if nregs < first + n then None
         else case claim_range claimed first n of
                None \<Rightarrow> None
              | Some claimed' \<Rightarrow> claim_channels nregs claimed' chs)"

definition config_validate_write_block :: "modbusmq_write_t \<Rightarrow> modbusmq_write_t option" where
  "config_validate_write_block w =
     (if \<not> list_all block_channel_ok (wr_channels w) then None
      else
        let nregs = (if wr_has_naddress w then wr_naddress w else block_span (wr_channels w) div 2)
        in if nregs \<le> 0 \<or> 123 < nregs then None
           else case claim_channels (nat nregs) (replicate (nat nregs) False) (wr_channels w) of
                  None \<Rightarrow> None
                | Some claimed \<Rightarrow>
                    if False \<in> set claimed then None
                    else Some (w\<lparr>wr_naddress := nregs, wr_has_naddress := True,
                                 wr_has_defaults := list_all wc_has_value (wr_channels w)\<rparr>))"

definition scaled :: "modbusmq_write_t \<Rightarrow> bool" where
  "scaled w \<longleftrightarrow> wr_format w \<noteq> format_unknown \<or> wr_add w \<noteq> 0 \<or> wr_mod w \<noteq> 0 \<or> wr_mul w \<noteq> 0"

definition validate_block :: "modbusmq_write_t \<Rightarrow> modbusmq_write_t option" where
  "validate_block w =
     (if scaled w then None
      else if wr_has_on_value w then None
      else if wr_type w = 1 \<or> wr_function w = 0x05 then None
      else if wr_function w \<noteq> 0 \<and> wr_function w \<noteq> 0x10 then None
      else config_validate_write_block (w\<lparr>wr_function := 0x10, wr_type := 3\<rparr>))"

text \<open>Function and type of a single write: the missing one is derived, and they have to agree.\<close>

definition settle_function :: "modbusmq_write_t \<Rightarrow> modbusmq_write_t option" where
  "settle_function w =
     (if wr_type w = 0 \<and> wr_function w = 0 then None
      else if wr_function w = 0 then
        Some (w\<lparr>wr_function := (if wr_type w = 1 then 0x05 else if wr_length w = 4 then 0x10 else 0x06)\<rparr>)
      else if wr_type w = 0 then Some (w\<lparr>wr_type := (if wr_function w = 0x05 then 1 else 3)\<rparr>)
      else if (wr_type w = 1) \<noteq> (wr_function w = 0x05) then None else Some w)"

definition validate_single :: "modbusmq_write_t \<Rightarrow> modbusmq_write_t option" where
  "validate_single w =
     (if wr_has_naddress w then None
      else case settle_function w of
             None \<Rightarrow> None
           | Some w \<Rightarrow>
               if wr_function w = 0x05 then if scaled w then None else Some w
               else if wr_format w = format_unknown then None
               else if wr_length w \<noteq> 2 \<and> wr_length w \<noteq> 4 then None
               else if wr_length w = 4 \<and> wr_function w = 0x06 then None
               else Some w)"

definition validate_write :: "modbusmq_write_t \<Rightarrow> modbusmq_write_t option" where
  "validate_write w =
     (if wr_topic w = None \<or> wr_topic w = Some [] then None
      else if \<not> wr_has_address w then None
      else if \<not> wr_has_slave w then None
      else if wr_has_on_value w \<noteq> wr_has_off_value w then None
      else if wr_channels w \<noteq> [] then validate_block w
      else validate_single w)"

fun map_all :: "('a \<Rightarrow> 'b option) \<Rightarrow> 'a list \<Rightarrow> 'b list option" where
  "map_all f [] = Some []"
| "map_all f (x # xs) =
     (case f x of None \<Rightarrow> None | Some y \<Rightarrow> map_option ((#) y) (map_all f xs))"

definition check_writes :: "modbusmq_config_t \<Rightarrow> modbusmq_config_t option" where
  "check_writes g = map_option (\<lambda>ws. g\<lparr>cfg_writes := ws\<rparr>) (map_all validate_write (cfg_writes g))"

section \<open>Topics\<close>

definition prefix_topics :: "modbusmq_config_t \<Rightarrow> modbusmq_config_t" where
  "prefix_topics g =
     (case mqtt_topic_prefix g of
        None \<Rightarrow> g
      | Some p \<Rightarrow>
          g\<lparr>inputs := map (\<lambda>i. i\<lparr>in_channels :=
                map (\<lambda>ch. ch\<lparr>ch_topic := map_option ((@) p) (ch_topic ch)\<rparr>) (in_channels i)\<rparr>) (inputs g),
            cfg_writes := map (\<lambda>w. if wr_topic w = None then w
                else w\<lparr>wr_topic := map_option ((@) p) (wr_topic w),
                       wr_ack_topic := map_option ((@) p) (wr_ack_topic w)\<rparr>) (cfg_writes g)\<rparr>)"

text \<open>The loop of \<open>config_topic_module\<close>: the new topic and how many \<open>%i\<close> it had.\<close>

fun topic_loop :: "int \<Rightarrow> string \<Rightarrow> (string \<times> nat) option" where
  "topic_loop m [] = Some ([], 0)"
| "topic_loop m [ch] = Some ([ch], 0)"
| "topic_loop m (ch # k # s) =
     (if ch = CHR ''%'' \<and> k = CHR ''%'' then map_option (\<lambda>(t, n). (CHR ''%'' # t, n)) (topic_loop m s)
      else if ch = CHR ''%'' \<and> k = CHR ''i'' then
        if m < 0 then None else map_option (\<lambda>(t, n). (int_str m @ t, Suc n)) (topic_loop m s)
      else map_option (\<lambda>(t, n). (ch # t, n)) (topic_loop m (k # s)))"

definition config_topic_module :: "int \<Rightarrow> string option \<Rightarrow> (string option \<times> nat) option" where
  "config_topic_module m topic =
     (case topic of
        None \<Rightarrow> Some (None, 0)
      | Some s \<Rightarrow> if CHR ''%'' \<notin> set s then Some (Some s, 0)
                  else map_option (\<lambda>(t, n). (Some t, n)) (topic_loop m s))"

text \<open>Refuses a topic of a template without \<open>%i\<close>.\<close>

definition module_topic :: "int \<Rightarrow> string option \<Rightarrow> string option option" where
  "module_topic m topic =
     (case config_topic_module m topic of
        None \<Rightarrow> None
      | Some (t, n) \<Rightarrow> if 0 \<le> m \<and> n = 0 then None else Some t)"

definition channel_module_topic :: "modbusmq_input_t \<Rightarrow> modbusmq_channel_t \<Rightarrow> modbusmq_channel_t option" where
  "channel_module_topic i ch =
     (if ch_topic ch = None then Some ch
      else map_option (\<lambda>t. ch\<lparr>ch_topic := t\<rparr>) (module_topic (in_module i) (ch_topic ch)))"

definition write_module_topics :: "modbusmq_write_t \<Rightarrow> modbusmq_write_t option" where
  "write_module_topics w =
     (case module_topic (wr_module w) (wr_topic w) of
        None \<Rightarrow> None
      | Some t \<Rightarrow>
          (if wr_ack_topic w = None then Some (w\<lparr>wr_topic := t\<rparr>)
           else map_option (\<lambda>a. w\<lparr>wr_topic := t, wr_ack_topic := a\<rparr>) (module_topic (wr_module w) (wr_ack_topic w))))"

definition config_apply_module_topics :: "modbusmq_config_t \<Rightarrow> modbusmq_config_t option" where
  "config_apply_module_topics g =
     (case map_all (\<lambda>i. map_option (\<lambda>chs. i\<lparr>in_channels := chs\<rparr>)
             (map_all (channel_module_topic i) (in_channels i))) (inputs g) of
        None \<Rightarrow> None
      | Some is' \<Rightarrow> map_option (\<lambda>ws. g\<lparr>inputs := is', cfg_writes := ws\<rparr>) (map_all write_module_topics (cfg_writes g)))"

definition settle_ack :: "bool \<Rightarrow> modbusmq_write_t \<Rightarrow> modbusmq_write_t" where
  "settle_ack ack w =
     (let w = (if wr_has_ack w then w else w\<lparr>wr_ack := ack, wr_has_ack := True\<rparr>)
      in if \<not> wr_ack w \<or> wr_ack_topic w \<noteq> None then w
         else w\<lparr>wr_ack_topic := map_option (\<lambda>t. t @ ''/ack'') (wr_topic w)\<rparr>)"

section \<open>The whole parse\<close>

definition finish_config :: "modbusmq_config_t \<Rightarrow> modbusmq_config_t option" where
  "finish_config g =
     (if \<not> config_check_modules g then None
      else case config_expand_inputs g of
        None \<Rightarrow> None
      | Some g \<Rightarrow>
      (case config_expand_writes g of
        None \<Rightarrow> None
      | Some g \<Rightarrow>
          (let g = resolve_frame_delay
                     (modbusmq_config_apply_publish_defaults (modbusmq_config_apply_format_version g))
           in if \<not> check_intervals g then None
              else if \<not> check_inputs g then None
              else case check_writes g of
                None \<Rightarrow> None
              | Some g \<Rightarrow> map_option (\<lambda>g. g\<lparr>cfg_writes := map (settle_ack (mqtt_ack g)) (cfg_writes g)\<rparr>)
                            (config_apply_module_topics (prefix_topics g)))))"

text \<open>
  \<open>before\<close> is the configuration from before, which a parse goes on with; all zero at first.
\<close>

definition config_parse_stream ::
    "string list \<Rightarrow> string list \<Rightarrow> modbusmq_config_t \<Rightarrow> (modbusmq_config_t \<times> parse_state) option" where
  "config_parse_stream overrides lines before =
     (let ps = \<lparr>ps_config = config_defaults before, ps_line = 0, seen_module_count = False,
                seen_module_slave_first = False, override_hit = replicate (length overrides) False,
                unknown_keys = []\<rparr>
      in case parse_lines overrides lines ps of
           None \<Rightarrow> None
         | Some ps \<Rightarrow>
      (case late_module_key overrides ''module.count'' seen_module_count ps of
           None \<Rightarrow> None
         | Some ps \<Rightarrow>
      (case late_module_key overrides ''module.slave_first'' seen_module_slave_first ps of
           None \<Rightarrow> None
         | Some ps \<Rightarrow> map_option (\<lambda>g. (g, ps)) (finish_config (ps_config ps)))))"

text \<open>\<open>getline\<close>: the lines of a text, each with its newline.\<close>

fun split_lines :: "string \<Rightarrow> string list" where
  "split_lines [] = []"
| "split_lines (ch # s) =
     (if ch = CHR 0x0A then [ch] # split_lines s
      else case split_lines s of [] \<Rightarrow> [[ch]] | l # ls \<Rightarrow> (ch # l) # ls)"

definition modbusmq_config_parse ::
    "string list \<Rightarrow> string option \<Rightarrow> modbusmq_config_t \<Rightarrow> (modbusmq_config_t \<times> parse_state) option" where
  "modbusmq_config_parse overrides file before =
     (case file of None \<Rightarrow> None | Some content \<Rightarrow> config_parse_stream overrides (split_lines content) before)"

definition modbusmq_config_parse_text ::
    "string list \<Rightarrow> string \<Rightarrow> modbusmq_config_t \<Rightarrow> (modbusmq_config_t \<times> parse_state) option" where
  "modbusmq_config_parse_text overrides text before =
     (if text = [] then None else config_parse_stream overrides (split_lines text) before)"

end
