(* ===== verification/Send.thy ===== *)
theory Send
  imports Loop
begin

text \<open>
  The blocking call of lib/modbusmq.c: \<open>modbusmq_send\<close> drives one request over the steps of the
  event loop until it is answered, refused or out of time.

  What \<open>poll\<close> does in each round comes from outside: how it returns, the bytes that have
  arrived meanwhile and the room for writing. \<open>poll\<close> reports only events that were asked for,
  and errors.
\<close>

datatype wakeup = Poll_Interrupted | Poll_Failed | Poll_Timeout | Poll_Ready int

record poll_round =
  woken :: wakeup
  arrived :: "byte list"
  room :: nat

text \<open>The events asked for and how long to sleep at most.\<close>

definition send_interest ::
    "modbusmq_context_t \<Rightarrow> modbusmq_msg_t \<Rightarrow> millitime_t \<Rightarrow> int \<times> millitime_t" where
  "send_interest c m now =
     (let writer = frame_at m (writer_ix m); reader = frame_at m (reader_ix m);
          delay_left = (if xmit writer = 0 then modbusmq_frame_delay_left c now else 0)
      in if modbusmq_frame_incomplete c writer \<noteq> 0 then
           (if 0 < delay_left then (0, min 100 delay_left) else (POLLOUT, 100))
         else if modbusmq_frame_incomplete c reader \<noteq> 0 then (POLLIN, 100)
         else (0, 100))"

text \<open>
  The rest of a round: whether the loop is left, the result so far, context and message.
\<close>

definition send_handle ::
    "modbusmq_context_t \<Rightarrow> modbusmq_msg_t \<Rightarrow> int \<Rightarrow> int \<Rightarrow> bool \<times> int \<times> modbusmq_context_t \<times> modbusmq_msg_t" where
  "send_handle c m revents result =
     (let (rc, c, m) = modbusmq_handle_write_read c m revents
      in if rc = MODBUSMQ_ERR_PROTOCOL then
           (False, MODBUSMQ_ERR_PROTOCOL, modbusmq_report_error c m (modbusmq_reject_reason c m), m)
         else if rc = MODBUSMQ_ERR_EXCEPTION then
           (True, MODBUSMQ_ERR_PROTOCOL, modbusmq_report_error c m MODBUSMQ_ERR_EXCEPTION, m)
         else if rc < 0 then
           (True, MODBUSMQ_ERR_TRANSPORT, modbusmq_report_error c m MODBUSMQ_ERR_TRANSPORT, m)
         else if rc = 0 then
           (let (chk, m) = modbusmq_check c m
            in if chk \<noteq> 0 then
                 (let c = snd (modbusmq_flush c);
                      c = c\<lparr>resync_pending := True\<rparr>;
                      c = modbusmq_report_error c m (modbusmq_reject_reason c m)
                  in (True, MODBUSMQ_ERR_PROTOCOL, c, m))
               else (True, 0, c, m))
         else (False, result, c, m))"

definition send_round ::
    "millitime_t \<Rightarrow> poll_round \<Rightarrow> modbusmq_context_t \<Rightarrow> modbusmq_msg_t \<Rightarrow> int \<Rightarrow>
     bool \<times> int \<times> modbusmq_context_t \<times> modbusmq_msg_t" where
  "send_round now p c m result =
     (let (events, millisleep) = send_interest c m now;
          c = c\<lparr>line_in := line_in c @ arrived p, line_room := room p\<rparr>
      in case woken p of
           Poll_Interrupted \<Rightarrow> (False, result, c, m)
         | Poll_Failed \<Rightarrow> (True, MODBUSMQ_ERR_TRANSPORT, c, m)
         | Poll_Timeout \<Rightarrow> (False, result, c, m)
         | Poll_Ready revents \<Rightarrow>
             (let revents = revents AND (events OR POLLERR OR POLLHUP)
              in if has_event revents (POLLIN OR POLLOUT) then send_handle c m revents result
                 else (False, result, c, m)))"

text \<open>One \<open>poll_round\<close> per pass; \<open>None\<close> when the loop would go on after the last one.\<close>

fun send_loop ::
    "millitime_t \<Rightarrow> millitime_t \<Rightarrow> poll_round list \<Rightarrow> modbusmq_context_t \<Rightarrow> modbusmq_msg_t \<Rightarrow> int \<Rightarrow>
     (int \<times> modbusmq_context_t \<times> modbusmq_msg_t) option" where
  "send_loop start wait [] c m result = None"
| "send_loop start wait (p # ps) c m result =
     (let (now, c) = millitime c;
          (leave, result, c, m) = send_round now p c m result
      in if leave \<or> \<not> now - start < wait then Some (result, c, m)
         else send_loop start wait ps c m result)"

definition modbusmq_send ::
    "poll_round list \<Rightarrow> modbusmq_context_t \<Rightarrow> modbusmq_msg_t \<Rightarrow> int \<Rightarrow>
     (int \<times> modbusmq_context_t \<times> modbusmq_msg_t) option" where
  "modbusmq_send ps c m mswait =
     (let (rid, c) = modbusmq_next_req_id c;
          m = m\<lparr>req_id := rid\<rparr>;
          wait = (if 0 < mswait then word_of_int mswait else 0);
          (start, c) = millitime c;
          (_, c, m) = modbusmq_msg_prepare c m
      in case send_loop start wait ps c m 1 of
           None \<Rightarrow> None
         | Some (result, c, m) \<Rightarrow>
             Some (result, if 0 < result then modbusmq_report_error c m MODBUSMQ_ERR_TIMEOUT else c, m))"

end
