(* ===== verification/Ieee_Facts.thy ===== *)
theory Ieee_Facts
  imports Ieee
begin

text \<open>
  How far the floating point operations are from the exact ones: every operation on finite
  numbers of moderate size gives a finite number within half a unit of the exact result.
\<close>

section \<open>Finite numbers\<close>

definition num :: "fp \<Rightarrow> bool" where
  "num x \<longleftrightarrow> (case x of FNum s r \<Rightarrow> 0 \<le> r | _ \<Rightarrow> False)"

lemma num_simps [simp]: "num (FNum s r) \<longleftrightarrow> 0 \<le> r" "\<not> num FNaN" "\<not> num (FInf s)" "num fzero"
  by (simp_all add: num_def fzero_def)

lemma numE:
  assumes "num x"
  obtains s r where "x = FNum s r" "0 \<le> r" "fval x = (if s then - r else r)"
  using assms by (cases x) (auto simp: fval_def)

lemma num_finite: "num x \<Longrightarrow> is_finite x"
  by (auto simp: is_finite_def elim: numE)

lemma fval_fzero [simp]: "fval fzero = 0"
  by (simp add: fval_def fzero_def)

lemma num_fneg [simp]: "num x \<Longrightarrow> num (fneg x)" "fval (fneg x) = - fval x"
  by (auto simp: fneg_def fval_def num_def split: fp.split)

lemma flt_num: "num x \<Longrightarrow> num y \<Longrightarrow> flt x y \<longleftrightarrow> fval x < fval y"
  by (auto elim!: numE)

lemma fle_num: "num x \<Longrightarrow> num y \<Longrightarrow> fle x y \<longleftrightarrow> fval x \<le> fval y"
  by (auto elim!: numE)

section \<open>Error bounds\<close>

definition err :: "fp_format \<Rightarrow> rat \<Rightarrow> rat" where
  "err F v = \<bar>v\<bar> * 2 powi (- fp_prec F) + 2 powi (fp_low F) / 2"

lemma rnd_error_err:
  assumes "0 \<le> x"
  shows "\<bar>rnd F x - x\<bar> \<le> err F x"
proof (cases "2 powi (fp_low F + fp_prec F - 1) \<le> x")
  case True
  then show ?thesis using rnd_error [OF True] assms powi_pos [of "fp_low F"] unfolding err_def by linarith
next
  case False
  show ?thesis
  proof (cases "x = 0")
    case x: False
    then have pos: "0 < x" using assms by simp
    have "(2 :: rat) powi rat_log2 x < 2 powi (fp_low F + fp_prec F - 1)"
      using False rat_log2_bounds(1) [OF pos] by linarith
    then have "fp_unit F x = fp_low F" by (simp add: powi_less_iff fp_unit_def)
    then have "\<bar>rnd F x - x\<bar> \<le> 2 powi (fp_low F) / 2" using rnd_error_unit [OF assms, of F] by simp
    moreover have "0 \<le> x * 2 powi (- fp_prec F)" using assms by simp
    ultimately show ?thesis using assms unfolding err_def by linarith
  qed (simp add: rnd_def err_def)
qed

lemma err_le:
  assumes "1 \<le> fp_prec F" and "fp_low F \<le> 0"
  shows "err F v \<le> \<bar>v\<bar> / 2 + 1 / 2"
proof -
  have "(2 :: rat) powi (- fp_prec F) \<le> 2 powi (- 1)" "(2 :: rat) powi fp_low F \<le> 2 powi 0"
    using assms by (simp_all only: powi_le_iff)
  then have p: "(2 :: rat) powi (- fp_prec F) \<le> 1 / 2" "(2 :: rat) powi fp_low F \<le> 1" by simp_all
  then have "\<bar>v\<bar> * 2 powi (- fp_prec F) \<le> \<bar>v\<bar> * (1 / 2)" by (intro mult_left_mono) simp_all
  moreover note p(2)
  ultimately show ?thesis by (simp add: err_def)
qed

lemma err_nonneg: "0 \<le> err F v"
  by (simp add: err_def)

text \<open>A format with room for the numbers below \<open>2 ^ 64\<close>.\<close>

definition roomy :: "fp_format \<Rightarrow> bool" where
  "roomy F \<longleftrightarrow> 1 \<le> fp_prec F \<and> fp_low F \<le> 0 \<and> 66 \<le> fp_top F"

lemma roomy_formats [simp]: "roomy binary32" "roomy binary64"
  by (simp_all add: roomy_def)

lemma fround_num:
  assumes "roomy F" and "0 \<le> x" and "x \<le> 2 ^ 64"
  shows "fround F s x = FNum s (rnd F x)" "num (fround F s x)"
    "\<bar>fval (fround F s x) - (if s then - x else x)\<bar> \<le> err F x"
proof -
  have e: "\<bar>rnd F x - x\<bar> \<le> err F x" by (rule rnd_error_err [OF assms(2)])
  have "err F x \<le> \<bar>x\<bar> / 2 + 1 / 2" by (rule err_le) (use assms(1) in \<open>simp_all add: roomy_def\<close>)
  then have "rnd F x < 2 powi 66" using e assms(2,3) by simp
  also have "(2 :: rat) powi 66 \<le> 2 powi fp_top F" using assms(1) by (simp only: powi_le_iff roomy_def)
  finally show f: "fround F s x = FNum s (rnd F x)" by (simp add: fround_def)
  show "num (fround F s x)" using rnd_nonneg [OF assms(2)] by (simp add: f)
  show "\<bar>fval (fround F s x) - (if s then - x else x)\<bar> \<le> err F x"
    unfolding f using e abs_minus_commute [of x "rnd F x"] by (cases s) (simp_all add: fval_def)
qed

lemma err_minus [simp]: "err F (- v) = err F v" "err F \<bar>v\<bar> = err F v"
  by (simp_all add: err_def)

lemma fp_of_rat_num:
  assumes "roomy F" and "\<bar>v\<bar> \<le> 2 ^ 64"
  shows "num (fp_of_rat F v)" "\<bar>fval (fp_of_rat F v) - v\<bar> \<le> err F v"
  using fround_num [OF assms(1) _ assms(2), of "v < 0"] by (simp_all add: fp_of_rat_def split: if_splits)

lemma fadd_num:
  assumes "roomy F" and "num x" and "num y" and "\<bar>fval x + fval y\<bar> \<le> 2 ^ 64"
  shows "num (fadd F x y)" "\<bar>fval (fadd F x y) - (fval x + fval y)\<bar> \<le> err F (fval x + fval y)"
proof -
  obtain s a t b where n: "x = FNum s a" "y = FNum t b" using assms(2,3) by (auto elim!: numE)
  have f: "fadd F x y = (if fval x + fval y = 0 then FNum (s \<and> t) 0 else fp_of_rat F (fval x + fval y))"
    by (simp add: n Let_def)
  have z: "fval (FNum (s \<and> t) 0) = 0" by (simp add: fval_def)
  show "num (fadd F x y)" "\<bar>fval (fadd F x y) - (fval x + fval y)\<bar> \<le> err F (fval x + fval y)"
    using fp_of_rat_num [OF assms(1,4)] err_nonneg [of F 0] unfolding f by (simp_all add: z)
qed

lemma fsub_num:
  assumes "roomy F" and "num x" and "num y" and "\<bar>fval x - fval y\<bar> \<le> 2 ^ 64"
  shows "num (fsub F x y)" "\<bar>fval (fsub F x y) - (fval x - fval y)\<bar> \<le> err F (fval x - fval y)"
  using fadd_num [OF assms(1,2) num_fneg(1) [OF assms(3)]] assms(4) by (simp_all add: fsub_def)

lemma fmul_num:
  assumes "roomy F" and "num x" and "num y" and "\<bar>fval x * fval y\<bar> \<le> 2 ^ 64"
  shows "num (fmul F x y)" "\<bar>fval (fmul F x y) - fval x * fval y\<bar> \<le> err F (fval x * fval y)"
proof -
  obtain s a where x: "x = FNum s a" "0 \<le> a" "fval x = (if s then - a else a)" using assms(2) by (rule numE)
  obtain t b where y: "y = FNum t b" "0 \<le> b" "fval y = (if t then - b else b)" using assms(3) by (rule numE)
  have b: "0 \<le> a * b" "a * b \<le> 2 ^ 64" using x y assms(4) by (auto split: if_splits)
  note f = fround_num [OF assms(1) b, of "s \<noteq> t"]
  have m: "fmul F x y = fround F (s \<noteq> t) (a * b)" by (simp add: x(1) y(1))
  have v: "fval x * fval y = (if s \<noteq> t then - (a * b) else a * b)" by (simp add: x(3) y(3))
  show "num (fmul F x y)" unfolding m by (rule f(2))
  show "\<bar>fval (fmul F x y) - fval x * fval y\<bar> \<le> err F (fval x * fval y)"
    unfolding m v using f(3) by (simp split: if_splits)
qed

lemma fdiv_num:
  assumes "roomy F" and "num x" and "num y" and "fval y \<noteq> 0" and "\<bar>fval x / fval y\<bar> \<le> 2 ^ 64"
  shows "num (fdiv F x y)" "\<bar>fval (fdiv F x y) - fval x / fval y\<bar> \<le> err F (fval x / fval y)"
proof -
  obtain s a where x: "x = FNum s a" "0 \<le> a" "fval x = (if s then - a else a)" using assms(2) by (rule numE)
  obtain t b where y: "y = FNum t b" "0 \<le> b" "fval y = (if t then - b else b)" using assms(3) by (rule numE)
  have nz: "b \<noteq> 0" using y(3) assms(4) by (cases t) simp_all
  have b: "0 \<le> a / b" "a / b \<le> 2 ^ 64" using x y assms(5) by (auto split: if_splits)
  note f = fround_num [OF assms(1) b, of "s \<noteq> t"]
  have m: "fdiv F x y = fround F (s \<noteq> t) (a / b)" using nz by (simp add: x(1) y(1))
  have v: "fval x / fval y = (if s \<noteq> t then - (a / b) else a / b)" by (simp add: x(3) y(3))
  show "num (fdiv F x y)" unfolding m by (rule f(2))
  show "\<bar>fval (fdiv F x y) - fval x / fval y\<bar> \<le> err F (fval x / fval y)"
    unfolding m v using f(3) by (simp split: if_splits)
qed

section \<open>Small integers\<close>

text \<open>In both formats the integers below \<open>2 ^ 24\<close> are exact, in \<open>double\<close> those below \<open>2 ^ 53\<close>.\<close>

lemma fp_of_int_32: "\<bar>i\<bar> < 2 ^ 24 \<Longrightarrow> fp_of_int binary32 i = FNum (i < 0) (of_int \<bar>i\<bar>)"
  by (rule fp_of_int_exact) simp_all

lemma fp_of_int_64: "\<bar>i\<bar> < 2 ^ 53 \<Longrightarrow> fp_of_int binary64 i = FNum (i < 0) (of_int \<bar>i\<bar>)"
  by (rule fp_of_int_exact) simp_all

lemma num_int [simp]:
  "\<bar>i\<bar> < 2 ^ 24 \<Longrightarrow> num (fp_of_int binary32 i)" "\<bar>i\<bar> < 2 ^ 53 \<Longrightarrow> num (fp_of_int binary64 i)"
  by (simp_all add: fp_of_int_32 fp_of_int_64)

lemma fval_int [simp]:
  "\<bar>i\<bar> < 2 ^ 24 \<Longrightarrow> fval (fp_of_int binary32 i) = of_int i"
  "\<bar>i\<bar> < 2 ^ 53 \<Longrightarrow> fval (fp_of_int binary64 i) = of_int i"
  by (simp_all add: fp_of_int_32 fp_of_int_64 fval_def)

lemma fadd_int:
  assumes "\<bar>i\<bar> < 2 ^ nat (fp_prec F)" and "\<bar>j\<bar> < 2 ^ nat (fp_prec F)" and "\<bar>i + j\<bar> < 2 ^ nat (fp_prec F)"
    and "fp_low F \<le> 0" and "0 < fp_prec F" and "fp_prec F \<le> fp_top F"
  shows "fadd F (fp_of_int F i) (fp_of_int F j) = fp_of_int F (i + j)"
proof -
  note ex = fp_of_int_exact [OF _ assms(4-6)]
  have v: "fval (FNum (i < 0) (of_int \<bar>i\<bar>)) + fval (FNum (j < 0) (of_int \<bar>j\<bar>)) = of_int (i + j)"
    by (simp add: fval_def)
  have z: "(of_int (i + j) :: rat) = 0 \<longleftrightarrow> i + j = 0" by (rule of_int_eq_0_iff)
  have "i + j = 0 \<Longrightarrow> \<not> (i < 0 \<and> j < 0)" by linarith
  then have "i + j = 0 \<Longrightarrow> FNum (i < 0 \<and> j < 0) 0 = fp_of_int F (i + j)" by (simp add: ex)
  then show ?thesis
    unfolding ex [OF assms(1)] ex [OF assms(2)] fadd.simps v Let_def z
    by (simp add: fp_of_int_def del: of_int_add)
qed

lemmas fadd_int_32 = fadd_int [of _ binary32, simplified]
lemmas fadd_int_64 = fadd_int [of _ binary64, simplified]

lemma to_signed_int:
  assumes "num x" and "\<bar>fval x - of_int i\<bar> < 1" and "0 \<le> i \<longrightarrow> of_int i \<le> fval x" and "i \<le> 0 \<longrightarrow> fval x \<le> of_int i"
    and "- (2 ^ (w - 1)) \<le> i" and "i < 2 ^ (w - 1)"
  shows "to_signed w x = Some i"
proof -
  obtain s r where x: "x = FNum s r" "0 \<le> r" "fval x = (if s then - r else r)" using assms(1) by (rule numE)
  have "ftrunc x = Some i"
  proof (cases s)
    case True
    then have "r = - fval x" "fval x \<le> 0" using x by simp_all
    then have "i \<le> 0" using assms(2,3) by (cases "0 < i") auto
    then have "of_int (- i) \<le> r" "r < of_int (- i) + 1" using assms(2,4) \<open>r = - fval x\<close> by simp_all
    then have "\<lfloor>r\<rfloor> = - i" by (simp add: floor_eq_iff)
    then show ?thesis by (simp add: ftrunc_def x(1) True)
  next
    case False
    then have "r = fval x" "0 \<le> fval x" using x by simp_all
    then have "0 \<le> i" using assms(2,4) by (cases "i < 0") auto
    then have "\<lfloor>r\<rfloor> = i" using assms(2,3) \<open>r = fval x\<close> by (simp add: floor_eq_iff)
    then show ?thesis by (simp add: ftrunc_def x(1) False)
  qed
  then show ?thesis using assms(5,6) by (simp add: to_signed_def)
qed

lemma to_signed_of_int:
  assumes "num x" and "fval x = of_int i" and "- (2 ^ (w - 1)) \<le> i" and "i < 2 ^ (w - 1)"
  shows "to_signed w x = Some i"
  by (rule to_signed_int) (use assms in simp_all)

end
