(* ===== verification/Codec_Facts.thy ===== *)
theory Codec_Facts
  imports Encode Publish Ieee_Facts
begin

text \<open>
  The registers of a channel as an integer: what the decoder reads, what the encoder writes,
  and that the two are inverse to each other.
\<close>

section \<open>Four bytes and a word\<close>

lemma bit_be32:
  "bit (be32 a b c d) n \<longleftrightarrow>
     (if n < 8 then bit d n else if n < 16 then bit c (n - 8) else if n < 24 then bit b (n - 16)
      else if n < 32 then bit a (n - 24) else False)"
  by (auto simp: be32_def bit_simps dest: bit_imp_le_length)

lemma byte_of_be32 [simp]:
  "byte_of (be32 a b c d) 24 = a" "byte_of (be32 a b c d) 16 = b"
  "byte_of (be32 a b c d) 8 = c" "byte_of (be32 a b c d) 0 = d"
  by (rule bit_word_eqI; simp add: byte_of_def bit_simps bit_be32)+

lemma be32_byte_of [simp]: "be32 (byte_of i 24) (byte_of i 16) (byte_of i 8) (byte_of i 0) = i"
  by (rule bit_word_eqI) (auto simp: byte_of_def bit_simps bit_be32)

section \<open>Registers as an integer\<close>

fun raw_int :: "modbusmq_data_format_e \<Rightarrow> byte list \<Rightarrow> int option" where
  "raw_int format_a data = Some (uint (data ! 0))"
| "raw_int format_int8 data = Some (sint (data ! 0))"
| "raw_int format_ab data = Some (modbusmq_read_int16_ab data)"
| "raw_int format_ba data = Some (modbusmq_read_int16_ba data)"
| "raw_int format_int16_ab data = Some (modbusmq_read_int16_ab_signed data)"
| "raw_int format_int16_ba data = Some (modbusmq_read_int16_ba_signed data)"
| "raw_int format_abcd data = Some (modbusmq_read_int32_abcd data)"
| "raw_int format_badc data = Some (modbusmq_read_int32_badc data)"
| "raw_int format_uint32_abcd data = Some (uint (word_of_int (modbusmq_read_int32_abcd data) :: u32))"
| "raw_int format_uint32_badc data = Some (uint (word_of_int (modbusmq_read_int32_badc data) :: u32))"
| "raw_int _ data = None"

definition int_formats :: "modbusmq_data_format_e set" where
  "int_formats = {format_a, format_int8, format_ab, format_ba, format_int16_ab, format_int16_ba,
     format_abcd, format_badc, format_uint32_abcd, format_uint32_badc}"

lemma int_formatsE:
  assumes "fmt \<in> int_formats"
  obtains "fmt = format_a" | "fmt = format_int8" | "fmt = format_ab" | "fmt = format_ba"
    | "fmt = format_int16_ab" | "fmt = format_int16_ba" | "fmt = format_abcd" | "fmt = format_badc"
    | "fmt = format_uint32_abcd" | "fmt = format_uint32_badc"
  using assms unfolding int_formats_def by blast

lemma raw_int_format: "raw_int fmt data = Some v \<Longrightarrow> fmt \<in> int_formats"
  by (cases fmt) (simp_all add: int_formats_def)

lemma decode_raw_int: "raw_int fmt data = Some v \<Longrightarrow> decode_number fmt data = Some (fp_of_int binary32 v)"
  by (cases fmt) auto

fun raw_bytes :: "modbusmq_data_format_e \<Rightarrow> int \<Rightarrow> byte list" where
  "raw_bytes fmt v =
     (let i = word_of_int v :: u32
      in if fmt \<in> {format_a, format_int8} then [lo8 v]
         else if fmt \<in> {format_ab, format_int16_ab} then [hi8 v, lo8 v]
         else if fmt \<in> {format_ba, format_int16_ba} then [lo8 v, hi8 v]
         else if fmt \<in> {format_abcd, format_uint32_abcd} then [byte_of i 24, byte_of i 16, byte_of i 8, byte_of i 0]
         else [byte_of i 16, byte_of i 24, byte_of i 0, byte_of i 8])"

declare raw_bytes.simps [simp del]

lemma encode_int_value:
  assumes "fmt \<in> int_formats" and "num x" and "fval x = of_int v"
    and "- (2 ^ 31) \<le> v" and "v < 2 ^ 32" and "modbusmq_format_size fmt \<le> 2 \<longrightarrow> v < 2 ^ 31"
  shows "modbusmq_encode_value fmt x = Inr (raw_bytes fmt v)"
proof -
  have w64: "to_signed 64 x = Some v" by (rule to_signed_of_int) (use assms(2-5) in simp_all)
  have w32: "to_signed 32 x = Some v" if "modbusmq_format_size fmt \<le> 2"
    by (rule to_signed_of_int) (use assms(2-4,6) that in simp_all)
  have wrap: "wrap_int v = v" if "modbusmq_format_size fmt \<le> 2"
    using wrap_int_id [of v] assms(4,6) that by simp
  show ?thesis using assms(1) w64 w32 wrap
    by (elim int_formatsE)
      (simp_all add: modbusmq_encode_value_def with_int_def raw_bytes.simps encode_int32_def Let_def)
qed

lemma length_raw_bytes: "fmt \<in> int_formats \<Longrightarrow> int (length (raw_bytes fmt v)) = modbusmq_format_size fmt"
  by (elim int_formatsE) (simp_all add: raw_bytes.simps Let_def)

lemma lo8_sint [simp]: "lo8 (sint (b :: byte)) = b" "lo8 (uint b) = b"
proof -
  have "sint b mod 256 = uint b" using uint_word_of_int [of "sint b", where 'a = 8] by simp
  then show "lo8 (sint b) = b" by (simp add: word_uint_eq_iff lo8_uint)
  show "lo8 (uint b) = b" by (simp add: word_uint_eq_iff lo8_uint)
qed

lemma hi8_lo8_mod: "v mod 65536 = w mod 65536 \<Longrightarrow> hi8 v = hi8 w \<and> lo8 v = lo8 w"
  using be16_hi_lo [of v] be16_hi_lo [of w] be16_inject by metis

lemma sint16_mod: "sint (word_of_int v :: u16) mod 65536 = v mod 65536"
proof -
  have "uint (word_of_int (sint (word_of_int v :: u16)) :: u16) = uint (word_of_int v :: u16)" by simp
  then show ?thesis unfolding uint_word_of_int by simp
qed

lemma hi8_sint16 [simp]:
  "hi8 (sint (word_of_int (be16 a b) :: u16)) = a" "lo8 (sint (word_of_int (be16 a b) :: u16)) = b"
  using hi8_lo8_mod [OF sint16_mod [of "be16 a b"]] by simp_all

lemmas read_int_defs =
  modbusmq_read_int16_ab_def modbusmq_read_int16_ba_def modbusmq_read_int16_ab_signed_def
  modbusmq_read_int16_ba_signed_def modbusmq_read_int32_abcd_def modbusmq_read_int32_badc_def

lemma length_size_list:
  assumes "int (length data) = modbusmq_format_size fmt" and "fmt \<in> int_formats"
  shows "(modbusmq_format_size fmt = 1 \<longrightarrow> data = [data ! 0])
    \<and> (modbusmq_format_size fmt = 2 \<longrightarrow> data = [data ! 0, data ! 1])
    \<and> (modbusmq_format_size fmt = 4 \<longrightarrow> data = [data ! 0, data ! 1, data ! 2, data ! 3])"
  using assms by (auto intro!: nth_equalityI simp: less_Suc_eq numeral_eq_Suc nth_Cons split: nat.splits)

lemma raw_bytes_raw_int:
  assumes "raw_int fmt data = Some v" and "int (length data) = modbusmq_format_size fmt"
  shows "raw_bytes fmt v = data"
proof -
  note f = raw_int_format [OF assms(1)]
  show ?thesis using f assms(1) length_size_list [OF assms(2) f]
    by (elim int_formatsE) (auto simp: raw_bytes.simps read_int_defs)
qed

lemma raw_int_bound:
  assumes "raw_int fmt data = Some v"
  shows "- (2 ^ 31) \<le> v" "v < 2 ^ 32" "modbusmq_format_size fmt \<le> 2 \<longrightarrow> - (2 ^ 15) \<le> v \<and> v < 2 ^ 16"
proof -
  have s8: "- 128 \<le> sint (b :: byte) \<and> sint b < 128" for b
    using sint_greater_eq [of b] sint_less [of b] by simp
  have s16: "- 32768 \<le> sint (b :: u16) \<and> sint b < 32768" for b
    using sint_greater_eq [of b] sint_less [of b] by simp
  have s32: "- 2147483648 \<le> sint (b :: u32) \<and> sint b < 2147483648" for b
    using sint_greater_eq [of b] sint_less [of b] by simp
  have u32: "0 \<le> uint (b :: u32) \<and> uint b < 4294967296" for b
    using uint_bounded [of b] by simp
  show "- (2 ^ 31) \<le> v" "v < 2 ^ 32" "modbusmq_format_size fmt \<le> 2 \<longrightarrow> - (2 ^ 15) \<le> v \<and> v < 2 ^ 16"
    using raw_int_format [OF assms] assms s8 [of "data ! 0"] byte_range [of "data ! 0"]
      be16_range [of "data ! 0" "data ! 1"] be16_range [of "data ! 1" "data ! 0"]
      s16 [of "word_of_int (be16 (data ! 0) (data ! 1))"] s16 [of "word_of_int (be16 (data ! 1) (data ! 0))"]
      s32 [of "be32 (data ! 0) (data ! 1) (data ! 2) (data ! 3)"]
      s32 [of "be32 (data ! 1) (data ! 0) (data ! 3) (data ! 2)"]
      u32 [of "be32 (data ! 0) (data ! 1) (data ! 2) (data ! 3)"]
      u32 [of "be32 (data ! 1) (data ! 0) (data ! 3) (data ! 2)"]
    by (elim int_formatsE; simp add: read_int_defs; linarith)+
qed

lemma sint_word_id:
  "- (2 ^ 15) \<le> v \<Longrightarrow> v < 2 ^ 15 \<Longrightarrow> sint (word_of_int v :: u16) = v"
  "- (2 ^ 31) \<le> v \<Longrightarrow> v < 2 ^ 31 \<Longrightarrow> sint (word_of_int v :: u32) = v"
  "- (2 ^ 7) \<le> v \<Longrightarrow> v < 2 ^ 7 \<Longrightarrow> sint (word_of_int v :: byte) = v"
  unfolding sint_sbintrunc' by (rule signed_take_bit_int_eq_self; simp)+

text \<open>
  What the format makes of a value in its limits: itself, except that the unsigned 16-bit
  formats take a negative value for its two's complement.
\<close>

definition stored_value :: "modbusmq_data_format_e \<Rightarrow> int \<Rightarrow> int" where
  "stored_value fmt v = (if fmt \<in> {format_ab, format_ba} then v mod 65536 else v)"

lemma raw_int_raw_bytes:
  assumes "fmt \<in> int_formats" and "raw_limits fmt = (lo, hi)" and "lo \<le> v" and "v \<le> hi"
  shows "raw_int fmt (raw_bytes fmt v) = Some (stored_value fmt v)"
proof -
  have s16: "sint (word_of_int (be16 (hi8 v) (lo8 v)) :: u16) = v" if "- 32768 \<le> v" "v \<le> 32767"
  proof -
    have "(word_of_int (v mod 65536) :: u16) = word_of_int v" by (simp add: word_uint_eq_iff uint_word_of_int)
    then show ?thesis using sint_word_id(1) [of v] that by (simp add: be16_hi_lo)
  qed
  have u8: "uint (lo8 v) = v" if "0 \<le> v" "v \<le> 255" using that by (simp add: lo8_uint)
  have s8: "sint (lo8 v) = v" if "- 128 \<le> v" "v \<le> 127"
  proof -
    have "lo8 v = word_of_int v" by (simp add: word_uint_eq_iff lo8_uint uint_word_of_int)
    then show ?thesis using sint_word_id(3) [of v] that by simp
  qed
  have s32: "sint (word_of_int v :: u32) = v" if "- 2147483648 \<le> v" "v \<le> 2147483647"
    using sint_word_id(2) [of v] that by simp
  have u32: "uint (word_of_int v :: u32) = v" if "0 \<le> v" "v \<le> 4294967295"
    using that by (simp add: uint_word_of_int)
  show ?thesis using assms s16 s8 u8 s32 u32
    by (elim int_formatsE) (auto simp: raw_bytes.simps stored_value_def read_int_defs be16_hi_lo Let_def)
qed

section \<open>Floats\<close>

lemma encode_float_value:
  assumes "is_float fmt" and "decode_number fmt data = Some x" and "x \<noteq> FNaN" and "length data = 4"
  shows "modbusmq_encode_value fmt x = Inr data"
proof -
  have ex: "exact binary32 x" "bits_of_float (fp_conv binary32 x) = w" if "float_of_bits w = x" for w
  proof -
    show e: "exact binary32 x" using float_of_bits_exact [of w] that by simp
    show "bits_of_float (fp_conv binary32 x) = w"
      using fp_conv_exact [OF e] bits_of_float_of_bits [of w] that assms(3) by simp
  qed
  have d: "data = [data ! 0, data ! 1, data ! 2, data ! 3]"
    using assms(4) by (auto intro!: nth_equalityI simp: less_Suc_eq numeral_eq_Suc nth_Cons split: nat.splits)
  have w: "(word_of_int (sint (be32 a b c e)) :: u32) = be32 a b c e" for a b c e by simp
  show ?thesis
    using assms(1,2) ex(2) d
    by (auto simp: is_float_def modbusmq_encode_value_def encode_int32_def Let_def
        modbusmq_read_float_abcd_def modbusmq_read_float_badc_def modbusmq_read_float_dcba_def
        modbusmq_read_float_cdab_def modbusmq_read_int32_dcba_def read_int_defs w)
qed

end
