(* ===== verification/Scale_Facts.thy ===== *)
theory Scale_Facts
  imports Codec_Facts
begin

text \<open>
  Scaling and unscaling with bounded error: what \<open>modbusmq_encode_scaled\<close> writes is an integer
  within its format's limits next to the unscaled value, and no conversion on the way is one
  C leaves undefined.
\<close>

section \<open>Numbers and infinities\<close>

definition well :: "fp \<Rightarrow> bool" where
  "well x \<longleftrightarrow> num x \<or> (\<exists>s. x = FInf s)"

lemma wellE:
  assumes "well x"
  obtains "num x" | s where "x = FInf s"
  using assms unfolding well_def by blast

lemma well_num [simp]: "num x \<Longrightarrow> well x"
  by (simp add: well_def)

lemma well_fround: "0 \<le> r \<Longrightarrow> well (fround F s r)"
  using rnd_nonneg [of r F] by (simp add: fround_def well_def Let_def)

lemma well_simps [simp]: "well (FInf s)" "well (FNum s r) \<longleftrightarrow> 0 \<le> r" "\<not> well FNaN"
  by (simp_all add: well_def)

lemma well_fneg [simp]: "well x \<Longrightarrow> well (fneg x)"
  by (cases x) (simp_all add: fneg_def)

lemma well_fadd: "well x \<Longrightarrow> num y \<Longrightarrow> well (fadd F x y)"
  by (cases x; cases y) (simp_all add: Let_def fp_of_rat_def well_fround)

lemma well_fsub: "well x \<Longrightarrow> num y \<Longrightarrow> well (fsub F x y)"
  by (simp add: fsub_def well_fadd)

lemma fval_nonzero: "fval (FNum s r) \<noteq> 0 \<longleftrightarrow> r \<noteq> 0"
  by (simp add: fval_def)

lemma well_fmul: "well x \<Longrightarrow> num y \<Longrightarrow> fval y \<noteq> 0 \<Longrightarrow> well (fmul F x y)"
  by (cases x; cases y) (simp_all add: well_fround fval_nonzero)

lemma well_fdiv: "well x \<Longrightarrow> num y \<Longrightarrow> fval y \<noteq> 0 \<Longrightarrow> well (fdiv F x y)"
  by (cases x; cases y) (simp_all add: well_fround fval_nonzero)

text \<open>The scaling keys of a channel are values of \<open>int\<close>.\<close>

definition c_int :: "int \<Rightarrow> bool" where
  "c_int i \<longleftrightarrow> - (2 ^ 31) \<le> i \<and> i < 2 ^ 31"

lemma c_int_64 [simp]:
  assumes "c_int i"
  shows "num (fp_of_int binary64 i)" "fval (fp_of_int binary64 i) = of_int i"
  using assms by (auto simp: c_int_def intro!: num_int fval_int)

lemma well_unscale:
  assumes "num value" and "c_int add" and "c_int md" and "c_int mul"
  shows "well (unscale add md mul value)"
proof -
  define a where "a = (if mul \<noteq> 0 then fdiv binary64 value (fp_of_int binary64 mul) else value)"
  have "well a" using assms by (auto simp: a_def intro!: well_fdiv)
  then have "well (if 0 < md then fdiv binary64 a (fp_of_int binary64 md)
      else if md < 0 then fmul binary64 a (fneg (fp_of_int binary64 md)) else a)"
    using assms by (auto intro!: well_fdiv well_fmul)
  then show ?thesis using assms unfolding unscale_def a_def Let_def by (intro well_fsub) simp_all
qed

section \<open>Rounding to a raw value\<close>

lemma err_64:
  assumes "\<bar>v\<bar> \<le> 2 ^ 34"
  shows "err binary64 v \<le> 2 powi (- 18)"
proof -
  have "\<bar>v\<bar> * 2 powi (- 53) \<le> 2 ^ 34 * 2 powi (- 53)" by (rule mult_right_mono [OF assms]) simp
  moreover have "(2 :: rat) powi (- 1074) \<le> 2 powi (- 19)" by (simp only: powi_le_iff)
  ultimately show ?thesis by (simp add: err_def)
qed

lemma to_signed_floor:
  assumes "num x" and "0 \<le> fval x" and "\<lfloor>fval x\<rfloor> < 2 ^ (w - 1)"
  shows "to_signed w x = Some \<lfloor>fval x\<rfloor>"
proof -
  obtain s r where x: "x = FNum s r" "0 \<le> r" "fval x = (if s then - r else r)" using assms(1) by (rule numE)
  have "ftrunc x = Some \<lfloor>fval x\<rfloor>"
  proof (cases s)
    case True
    then have "r = 0" using x(2,3) assms(2) by simp
    then show ?thesis by (simp add: ftrunc_def x(1) fval_def)
  qed (simp add: ftrunc_def x(1) fval_def)
  moreover have "- (2 ^ (w - 1)) \<le> (0 :: int)" by simp
  then have "- (2 ^ (w - 1)) \<le> \<lfloor>fval x\<rfloor>" by (rule order_trans) (use assms(2) in simp)
  ultimately show ?thesis using assms(3) by (simp add: to_signed_def)
qed

text \<open>Adding a half and cutting off finds the nearest integer, up to the rounding of the sum.\<close>

lemma half_up:
  assumes "num x" and "0 \<le> fval x" and "fval x \<le> 2 ^ 33"
  obtains v where "to_signed 64 (fadd binary64 x fhalf) = Some v" "0 \<le> v"
    "\<bar>of_int v - fval x\<bar> \<le> 1 / 2 + 2 powi (- 18)"
proof -
  let ?z = "fadd binary64 x fhalf"
  have h: "num fhalf" "fval fhalf = 1 / 2" by (simp_all add: fhalf_def fval_def)
  have z: "num ?z" "\<bar>fval ?z - (fval x + 1 / 2)\<bar> \<le> err binary64 (fval x + 1 / 2)"
    using fadd_num [OF roomy_formats(2) assms(1) h(1)] assms(2,3) by (simp_all add: h(2))
  have "err binary64 (fval x + 1 / 2) \<le> 2 powi (- 18)" by (rule err_64) (use assms(2,3) in simp)
  then have near: "\<bar>fval ?z - (fval x + 1 / 2)\<bar> \<le> 2 powi (- 18)" using z(2) by linarith
  define v where "v = \<lfloor>fval ?z\<rfloor>"
  have v: "of_int v \<le> fval ?z" "fval ?z < of_int v + 1" unfolding v_def by linarith+
  have e: "(0 :: rat) < 2 powi (- 18)" "(2 :: rat) powi (- 18) < 1 / 2" by simp_all
  have r: "0 \<le> fval ?z" "fval ?z < of_int (2 ^ 34)" using near assms(2,3) e unfolding abs_le_iff by simp_all
  then have b: "0 \<le> v" "v < 2 ^ 34" unfolding v_def by (simp_all only: le_floor_iff floor_less_iff of_int_0)
  have "to_signed 64 ?z = Some v"
    unfolding v_def by (rule to_signed_floor [OF z(1) r(1)]) (use b(2) in \<open>simp add: v_def\<close>)
  moreover have "\<bar>of_int v - fval x\<bar> \<le> 1 / 2 + 2 powi (- 18)"
    using near v unfolding abs_le_iff by linarith
  ultimately show thesis using b(1) that by blast
qed

lemma round_raw_num:
  assumes "num raw" and "\<bar>fval raw\<bar> \<le> 2 ^ 33"
  obtains r v where "round_raw raw = Inr r" "num r" "fval r = of_int v" "\<bar>v\<bar> < 2 ^ 35"
    "\<bar>of_int v - fval raw\<bar> \<le> 1 / 2 + 2 powi (- 18)"
proof -
  have e: "(2 :: rat) powi (- 18) < 1 / 2" by simp
  have small: "\<bar>i\<bar> < 2 ^ 35" if "0 \<le> i" "\<bar>of_int i - \<bar>fval raw\<bar>\<bar> \<le> 1 / 2 + 2 powi (- 18)" for i :: int
  proof -
    have "(of_int i :: rat) \<le> 2 ^ 33 + 1" using that(2) assms(2) e by linarith
    then have "of_int i < (of_int (2 ^ 35) :: rat)" by simp
    then show ?thesis using that(1) by (simp only: of_int_less_iff abs_of_nonneg)
  qed
  show thesis
  proof (cases "fval raw < 0")
    case True
    obtain v where v: "to_signed 64 (fadd binary64 (fneg raw) fhalf) = Some v" "0 \<le> v"
      "\<bar>of_int v - fval (fneg raw)\<bar> \<le> 1 / 2 + 2 powi (- 18)"
      by (rule half_up [of "fneg raw"]) (use assms True in simp_all)
    have i: "\<bar>v\<bar> < 2 ^ 35" by (rule small) (use v(2,3) True in simp_all)
    have "round_raw raw = Inr (fneg (fp_of_int binary64 v))"
      using True assms(1) v(1) by (simp add: round_raw_def flt_num with_int_def)
    moreover have "\<bar>of_int (- v) - fval raw\<bar> \<le> 1 / 2 + 2 powi (- 18)"
      using v(3) True abs_minus_commute [of "fval raw" "- of_int v"] by (simp add: add.commute)
    ultimately show thesis using i that [of "fneg (fp_of_int binary64 v)" "- v"] by simp
  next
    case False
    obtain v where v: "to_signed 64 (fadd binary64 raw fhalf) = Some v" "0 \<le> v"
      "\<bar>of_int v - fval raw\<bar> \<le> 1 / 2 + 2 powi (- 18)"
      by (rule half_up [of raw]) (use assms False in simp_all)
    have i: "\<bar>v\<bar> < 2 ^ 35" by (rule small) (use v(2,3) False in simp_all)
    have "round_raw raw = Inr (fp_of_int binary64 v)"
      using False assms(1) v(1) by (simp add: round_raw_def flt_num with_int_def)
    then show thesis using i v(3) that [of "fp_of_int binary64 v" v] by simp
  qed
qed

lemma raw_limits_bounds:
  assumes "raw_limits fmt = (lo, hi)"
  shows "- (2 ^ 31) \<le> lo" "lo \<le> 0" "0 < hi" "hi < 2 ^ 32"
  using assms by (cases fmt; auto)+

lemma limits_small:
  assumes "raw_limits fmt = (lo, hi)"
  shows "\<bar>lo\<bar> < 2 ^ 53" "\<bar>hi\<bar> < 2 ^ 53" "\<bar>lo - 1\<bar> < 2 ^ 53" "\<bar>hi + 1\<bar> < 2 ^ 53"
  using raw_limits_bounds [OF assms] by simp_all

lemma check_raw_limits:
  assumes "raw_limits fmt = (lo, hi)"
  shows "check_raw fmt raw =
      (case (if fle (fp_of_int binary64 (lo - 1)) raw \<and> fle raw (fp_of_int binary64 (hi + 1)) then round_raw raw else Inr raw) of
         Inl e \<Rightarrow> Inl e
       | Inr r \<Rightarrow> if flt r (fp_of_int binary64 lo) \<or> flt (fp_of_int binary64 hi) r then refuse else Inr r)"
proof -
  note i = limits_small [OF assms]
  have one: "fneg (fp_of_int binary64 1) = fp_of_int binary64 (- 1)"
    by (simp add: fp_of_int_64 fneg_def)
  have "fsub binary64 (fp_of_int binary64 lo) (fp_of_int binary64 1) = fp_of_int binary64 (lo - 1)"
    "fadd binary64 (fp_of_int binary64 hi) (fp_of_int binary64 1) = fp_of_int binary64 (hi + 1)"
    using fadd_int_64 [of lo "- 1"] fadd_int_64 [of hi 1] i by (simp_all add: fsub_def one)
  then show ?thesis by (simp add: check_raw_def assms)
qed

text \<open>A raw value the format has room for, or a refusal.\<close>

lemma check_raw_cases:
  assumes "well raw" and lim: "raw_limits fmt = (lo, hi)"
  obtains "check_raw fmt raw = refuse"
    | r v where "check_raw fmt raw = Inr r" "num raw" "num r" "fval r = of_int v" "lo \<le> v" "v \<le> hi"
        "\<bar>of_int v - fval raw\<bar> \<le> 1 / 2 + 2 powi (- 18)"
proof -
  note b = raw_limits_bounds [OF lim] and i = limits_small [OF lim] and c = check_raw_limits [OF lim]
  show thesis
  proof (cases "num raw")
    case True
    show thesis
    proof (cases "of_int (lo - 1) \<le> fval raw \<and> fval raw \<le> of_int (hi + 1)")
      case in_range: True
      then have "\<bar>fval raw\<bar> \<le> 2 ^ 33"
      proof -
        have "- (2 ^ 33) \<le> (of_int (lo - 1) :: rat)" "of_int (hi + 1) \<le> (2 ^ 33 :: rat)"
          using b by (simp_all flip: of_int_le_iff of_int_less_iff)
        then show ?thesis using in_range unfolding abs_le_iff by linarith
      qed
      then obtain r v where rv: "round_raw raw = Inr r" "num r" "fval r = of_int v" "\<bar>v\<bar> < 2 ^ 35"
        "\<bar>of_int v - fval raw\<bar> \<le> 1 / 2 + 2 powi (- 18)"
        using round_raw_num [OF True] by blast
      have "check_raw fmt raw = (if v < lo \<or> hi < v then refuse else Inr r)"
        using in_range True rv(1-3) i by (simp add: c fle_num flt_num)
      then show thesis using rv True that by (cases "v < lo \<or> hi < v") auto
    next
      case False
      then have "fval raw < of_int lo \<or> of_int hi < fval raw" by auto
      then have "check_raw fmt raw = refuse" using False True i by (auto simp: c fle_num flt_num)
      then show thesis by (rule that(1))
    qed
  next
    case False
    then obtain s where s: "raw = FInf s" using assms(1) by (auto simp: well_def)
    obtain x y where "fp_of_int binary64 lo = FNum x y" using i by (simp add: fp_of_int_64)
    moreover obtain x' y' where "fp_of_int binary64 hi = FNum x' y'" using i by (simp add: fp_of_int_64)
    moreover obtain x1 y1 where "fp_of_int binary64 (lo - 1) = FNum x1 y1" using i by (simp add: fp_of_int_64)
    moreover obtain x2 y2 where "fp_of_int binary64 (hi + 1) = FNum x2 y2" using i by (simp add: fp_of_int_64)
    ultimately have "check_raw fmt raw = refuse" unfolding s c by (cases s) simp_all
    then show thesis by (rule that(1))
  qed
qed

section \<open>Writing a scaled value\<close>

lemma encode_value_defined:
  assumes "num r" and "fval r = of_int v" and "raw_limits fmt = (lo, hi)" and "lo \<le> v" and "v \<le> hi"
  shows "modbusmq_encode_value fmt r \<noteq> Inl Undefined"
proof -
  note b = raw_limits_bounds [OF assms(3)]
  have "to_signed 64 r = Some v" by (rule to_signed_of_int) (use assms b in simp_all)
  moreover have "to_signed 32 r = Some v" if "modbusmq_format_size fmt = 1"
  proof -
    have "hi < 2 ^ 31" using that assms(3) by (cases fmt) auto
    then show ?thesis by (intro to_signed_of_int) (use assms b in simp_all)
  qed
  ultimately show ?thesis
    by (simp add: modbusmq_encode_value_def with_int_def encode_int32_def refuse_def Let_def)
qed

lemma encode_scaled_int:
  assumes "num value" and "c_int add" and "c_int md" and "c_int mul" and "fmt \<in> int_formats"
    and "raw_limits fmt = (lo, hi)"
  obtains "modbusmq_encode_scaled fmt add md mul value = refuse"
    | v where "modbusmq_encode_scaled fmt add md mul value = Inr (pack_registers (raw_bytes fmt v))"
        "lo \<le> v" "v \<le> hi" "\<bar>of_int v - fval (unscale add md mul value)\<bar> \<le> 1 / 2 + 2 powi (- 18)"
proof -
  have nf: "\<not> is_float fmt" using assms(5) by (elim int_formatsE) (simp_all add: is_float_def)
  note d = modbusmq_encode_scaled_def [of fmt add md mul "value"]
  show thesis
  proof (cases rule: check_raw_cases [OF well_unscale [OF assms(1-4)] assms(6)])
    case 1
    then show thesis using nf num_finite [OF assms(1)] that(1) by (simp add: d refuse_def)
  next
    case (2 r v)
    note b = raw_limits_bounds [OF assms(6)]
    have "modbusmq_format_size fmt \<le> 2 \<longrightarrow> v < 2 ^ 31"
      using assms(5,6) 2(6) by (elim int_formatsE) auto
    then have "modbusmq_encode_value fmt r = Inr (raw_bytes fmt v)"
      using encode_int_value [OF assms(5) 2(3,4)] 2(5,6) b by linarith
    then have e: "modbusmq_encode_scaled fmt add md mul value =
        (if length (raw_bytes fmt v) \<noteq> 2 \<and> length (raw_bytes fmt v) \<noteq> 4 then refuse else Inr (pack_registers (raw_bytes fmt v)))"
      using nf num_finite [OF assms(1)] 2(1) by (simp add: d)
    show thesis
      using that(1) that(2) [of v] 2(5-7) e by (simp split: if_splits)
  qed
qed

lemma encode_scaled_defined:
  assumes "num value" and "c_int add" and "c_int md" and "c_int mul"
  shows "modbusmq_encode_scaled fmt add md mul value \<noteq> Inl Undefined"
proof -
  note d = modbusmq_encode_scaled_def [of fmt add md mul "value"]
  have fl: "modbusmq_encode_value fmt x \<noteq> Inl Undefined" if "is_float fmt" for x
    using that by (auto simp: is_float_def modbusmq_encode_value_def encode_int32_def refuse_def Let_def)
  obtain lo hi where lim: "raw_limits fmt = (lo, hi)" by fastforce
  show ?thesis
  proof (cases "is_float fmt")
    case True
    then show ?thesis using fl by (auto simp: d refuse_def Let_def split: sum.split)
  next
    case False
    show ?thesis
    proof (cases rule: check_raw_cases [OF well_unscale [OF assms] lim])
      case 1
      then show ?thesis using False by (simp add: d refuse_def)
    next
      case (2 r v)
      from encode_value_defined [OF 2(3,4) lim 2(5,6)] show ?thesis
        using False 2(1) by (auto simp: d refuse_def Let_def split: sum.split)
    qed
  qed
qed

end
