(* ===== verification/Readback.thy ===== *)
theory Readback
  imports Scale_Facts
begin

text \<open>
  Reading a channel and writing the value back: the rounding of the scaling, in \<open>float\<close> one way
  and in \<open>double\<close> the other, as a relative error, and the registers that come out.
\<close>

section \<open>Relative error\<close>

text \<open>The number \<open>x\<close> is the exact \<open>y\<close> up to the relative error \<open>e\<close>.\<close>

definition near :: "rat \<Rightarrow> fp \<Rightarrow> rat \<Rightarrow> bool" where
  "near e x y \<longleftrightarrow> num x \<and> \<bar>fval x - y\<bar> \<le> e * \<bar>y\<bar>"

definition ulp :: "fp_format \<Rightarrow> rat" where
  "ulp F = 2 powi (- fp_prec F) * (17 / 16)"

text \<open>Neither overflow nor underflow: the products and quotients of the scaling keys are in here.\<close>

definition moderate :: "rat \<Rightarrow> bool" where
  "moderate y \<longleftrightarrow> y = 0 \<or> 2 powi (- 62) \<le> \<bar>y\<bar> \<and> \<bar>y\<bar> \<le> 2 ^ 62"

lemma near_exact: "num x \<Longrightarrow> fval x = y \<Longrightarrow> 0 \<le> e \<Longrightarrow> near e x y"
  by (simp add: near_def)

lemma near_mono: "near e x y \<Longrightarrow> e \<le> e' \<Longrightarrow> near e' x y"
  unfolding near_def by (meson abs_ge_zero mult_right_mono order_trans)

lemma ulp_pos: "0 \<le> ulp F"
  by (simp add: ulp_def)

definition wide :: "fp_format \<Rightarrow> bool" where
  "wide F \<longleftrightarrow> roomy F \<and> fp_low F + fp_prec F \<le> - 68"

lemma wide_formats [simp]: "wide binary32" "wide binary64"
  by (simp_all add: wide_def)

lemma err_ulp:
  assumes "wide F" and "2 powi (- 63) \<le> \<bar>y\<bar>"
  shows "err F y \<le> ulp F * \<bar>y\<bar>"
proof -
  have "(2 :: rat) powi fp_low F \<le> 2 powi (- fp_prec F + (- 63) + (- 4))"
    unfolding powi_le_iff using assms(1) by (simp add: wide_def)
  also have "\<dots> = 2 powi (- fp_prec F) * (2 powi (- 63) / 16)"
    by (simp only: powi_add) (simp add: power_int_minus)
  also have "\<dots> \<le> 2 powi (- fp_prec F) * (\<bar>y\<bar> / 16)"
    using assms(2) by (intro mult_left_mono divide_right_mono) simp_all
  finally have "2 powi fp_low F / 2 \<le> 2 powi (- fp_prec F) * (\<bar>y\<bar> / 16)"
    using powi_pos [of "fp_low F"] by linarith
  then show ?thesis by (simp add: err_def ulp_def algebra_simps)
qed

lemma near_round:
  assumes F: "wide F" and y: "moderate y" and e: "e \<le> 1 / 2" "0 \<le> e"
    and w: "\<bar>w - y\<bar> \<le> e * \<bar>y\<bar>" and z: "w = 0 \<Longrightarrow> fval z = 0"
    and zw: "\<bar>w\<bar> \<le> 2 ^ 64 \<Longrightarrow> num z \<and> \<bar>fval z - w\<bar> \<le> err F w"
  shows "near (e + 2 * ulp F) z y"
proof (cases "y = 0")
  case True
  then have "w = 0" using w by simp
  then show ?thesis using True z zw by (simp add: near_def)
next
  case False
  then have b: "2 powi (- 62) \<le> \<bar>y\<bar>" "\<bar>y\<bar> \<le> 2 ^ 62" using y by (simp_all add: moderate_def)
  have "e * \<bar>y\<bar> \<le> \<bar>y\<bar> / 2" using mult_right_mono [OF e(1) abs_ge_zero [of y]] by simp
  then have h: "\<bar>w\<bar> \<le> 2 * \<bar>y\<bar>" "\<bar>y\<bar> / 2 \<le> \<bar>w\<bar>" using w by linarith+
  have "(2 :: rat) powi (- 63) = 2 powi (- 62) / 2" by simp
  then have l: "2 powi (- 63) \<le> \<bar>w\<bar>" using h(2) b(1) by linarith
  have "\<bar>w\<bar> \<le> 2 ^ 64" using h(1) b(2) by simp
  then have n: "num z" "\<bar>fval z - w\<bar> \<le> err F w" using zw by simp_all
  have "err F w \<le> ulp F * \<bar>w\<bar>" by (rule err_ulp [OF F l])
  also have "\<dots> \<le> ulp F * (2 * \<bar>y\<bar>)" by (rule mult_left_mono [OF h(1) ulp_pos])
  finally have "\<bar>fval z - y\<bar> \<le> ulp F * (2 * \<bar>y\<bar>) + e * \<bar>y\<bar>" using n(2) w by linarith
  then show ?thesis using n(1) by (simp add: near_def algebra_simps)
qed

lemma fround_0: "wide F \<Longrightarrow> fval (fround F s 0) = 0"
  using fround_num(1) [of F 0 s] by (simp add: wide_def fval_def rnd_def)

lemma near_fmul:
  assumes "wide F" and "near e x y" and "num k" and "fval k = c" and "moderate (y * c)" and "e \<le> 1 / 2" and "0 \<le> e"
  shows "near (e + 2 * ulp F) (fmul F x k) (y * c)"
proof (rule near_round [OF assms(1,5-7), where w = "fval x * c"])
  have "\<bar>fval x * c - y * c\<bar> = \<bar>fval x - y\<bar> * \<bar>c\<bar>" by (simp add: left_diff_distrib flip: abs_mult)
  also have "\<dots> \<le> e * \<bar>y\<bar> * \<bar>c\<bar>" using assms(2) by (intro mult_right_mono) (simp_all add: near_def)
  finally show "\<bar>fval x * c - y * c\<bar> \<le> e * \<bar>y * c\<bar>" by (simp add: abs_mult)
next
  assume z: "fval x * c = 0"
  obtain s a where x: "x = FNum s a" "0 \<le> a" "fval x = (if s then - a else a)"
    using assms(2) by (auto simp: near_def elim: numE)
  obtain t b where k: "k = FNum t b" "0 \<le> b" "fval k = (if t then - b else b)" using assms(3) by (rule numE)
  have "a * b = 0" using z x(3) k(3) assms(4) by (auto split: if_splits)
  then show "fval (fmul F x k) = 0"
    by (simp only: x(1) k(1) fmul.simps fround_0 [OF assms(1)])
next
  assume "\<bar>fval x * c\<bar> \<le> 2 ^ 64"
  then show "num (fmul F x k) \<and> \<bar>fval (fmul F x k) - fval x * c\<bar> \<le> err F (fval x * c)"
    using fmul_num [of F x k] assms(1-4) by (simp add: near_def wide_def)
qed

lemma near_fdiv:
  assumes "wide F" and "near e x y" and "num k" and "fval k = c" and "c \<noteq> 0" and "moderate (y / c)" and "e \<le> 1 / 2" and "0 \<le> e"
  shows "near (e + 2 * ulp F) (fdiv F x k) (y / c)"
proof (rule near_round [OF assms(1,6-8), where w = "fval x / c"])
  have "\<bar>fval x / c - y / c\<bar> = \<bar>fval x - y\<bar> / \<bar>c\<bar>" by (simp add: diff_divide_distrib flip: abs_divide)
  also have "\<dots> \<le> e * \<bar>y\<bar> / \<bar>c\<bar>" using assms(2) by (intro divide_right_mono) (simp_all add: near_def)
  finally show "\<bar>fval x / c - y / c\<bar> \<le> e * \<bar>y / c\<bar>" by simp
next
  assume z: "fval x / c = 0"
  obtain s a where x: "x = FNum s a" "0 \<le> a" "fval x = (if s then - a else a)"
    using assms(2) by (auto simp: near_def elim: numE)
  obtain t b where k: "k = FNum t b" "0 \<le> b" "fval k = (if t then - b else b)" using assms(3) by (rule numE)
  have "a = 0" "b \<noteq> 0" using z x(3) k(3) assms(4,5) by (auto split: if_splits)
  then show "fval (fdiv F x k) = 0"
    by (simp add: x(1) k(1) fround_0 [OF assms(1)])
next
  assume "\<bar>fval x / c\<bar> \<le> 2 ^ 64"
  then show "num (fdiv F x k) \<and> \<bar>fval (fdiv F x k) - fval x / c\<bar> \<le> err F (fval x / c)"
    using fdiv_num [of F x k] assms(1-5) by (simp add: near_def wide_def)
qed

section \<open>Scaling and unscaling\<close>

text \<open>The scaled value without rounding, for a raw value with \<open>add\<close> already added.\<close>

definition scaled_by :: "int \<Rightarrow> int \<Rightarrow> rat" where
  "scaled_by md n = (if 0 < md then of_int n * of_int md else if md < 0 then of_int n / of_int (- md) else of_int n)"

definition mul_by :: "int \<Rightarrow> rat \<Rightarrow> rat" where
  "mul_by mul y = (if mul \<noteq> 0 then y * of_int mul else y)"

lemma moderate_ratio:
  assumes "\<bar>i\<bar> \<le> 2 ^ 62" and "0 < k" and "k < 2 ^ 20"
  shows "moderate (of_int i / of_int k)"
proof (cases "i = 0")
  case False
  have k: "(1 :: rat) \<le> of_int k" "(of_int k :: rat) \<le> of_int (2 ^ 20)"
    using assms(2,3) by (simp_all only: of_int_le_iff of_int_1_le_iff)
  have i: "(1 :: rat) \<le> \<bar>of_int i\<bar>" "\<bar>of_int i\<bar> \<le> (of_int (2 ^ 62) :: rat)"
    using False assms(1) by (simp_all only: of_int_abs [symmetric] of_int_le_iff of_int_1_le_iff)
  have "1 / of_int (2 ^ 20) \<le> \<bar>of_int i\<bar> / (of_int k :: rat)" by (rule frac_le) (use i k in simp_all)
  moreover have "\<bar>of_int i\<bar> / of_int k \<le> of_int (2 ^ 62) / (1 :: rat)" by (rule frac_le) (use i k in simp_all)
  moreover have "(2 :: rat) powi (- 62) \<le> 1 / of_int (2 ^ 20)" by simp
  ultimately show ?thesis using assms(2) by (simp add: moderate_def)
qed (simp add: moderate_def)

lemma moderate_int: "\<bar>i\<bar> \<le> 2 ^ 62 \<Longrightarrow> moderate (of_int i)"
  using moderate_ratio [of i 1] by simp

text \<open>Keys and values for which every step is moderate.\<close>

definition modest :: "int \<Rightarrow> int \<Rightarrow> int \<Rightarrow> bool" where
  "modest n md mul \<longleftrightarrow> \<bar>n\<bar> < 2 ^ 20 \<and> \<bar>md\<bar> < 2 ^ 20 \<and> \<bar>mul\<bar> < 2 ^ 20"

lemma abs_mult_le: "\<bar>a\<bar> \<le> p \<Longrightarrow> \<bar>b\<bar> \<le> q \<Longrightarrow> \<bar>a * b :: int\<bar> \<le> p * q"
  unfolding abs_mult by (rule mult_mono) simp_all

lemma modest_moderate:
  assumes "modest n md mul"
  shows "moderate (of_int n)" "moderate (scaled_by md n)" "moderate (mul_by mul (scaled_by md n))"
proof -
  have b: "\<bar>n\<bar> \<le> 2 ^ 20" "\<bar>md\<bar> \<le> 2 ^ 20" "\<bar>mul\<bar> \<le> 2 ^ 20" using assms by (simp_all add: modest_def)
  have m: "\<bar>n * md\<bar> \<le> 2 ^ 62" "\<bar>n * mul\<bar> \<le> 2 ^ 62" "\<bar>n * md * mul\<bar> \<le> 2 ^ 62"
    using abs_mult_le [OF b(1,2)] abs_mult_le [OF b(1,3)] abs_mult_le [OF abs_mult_le [OF b(1,2)] b(3)] by simp_all
  have n: "\<bar>n\<bar> \<le> 2 ^ 62" using b by simp
  have k: "- md < 2 ^ 20" using assms unfolding modest_def by linarith
  show "moderate (of_int n)" using n by (rule moderate_int)
  show "moderate (scaled_by md n)"
    using moderate_int [OF m(1)] moderate_int [OF n] moderate_ratio [OF n _ k] by (simp add: scaled_by_def)
  have q: "scaled_by md n * of_int mul =
      (if 0 < md then of_int (n * md * mul) else if md < 0 then of_int (n * mul) / of_int (- md) else of_int (n * mul))"
    by (simp add: scaled_by_def)
  have "moderate (scaled_by md n * of_int mul)"
    unfolding q using moderate_int [OF m(3)] moderate_int [OF m(2)] moderate_ratio [OF m(2) _ k] by simp
  then show "moderate (mul_by mul (scaled_by md n))"
    using \<open>moderate (scaled_by md n)\<close> by (simp add: mul_by_def)
qed

text \<open>A scaling key as a number of either format.\<close>

lemma key_int [simp]:
  assumes "\<bar>k\<bar> < 2 ^ 20"
  shows "num (fp_of_int binary32 k)" "fval (fp_of_int binary32 k) = of_int k"
    "num (fp_of_int binary64 k)" "fval (fp_of_int binary64 k) = of_int k"
proof -
  have k: "\<bar>k\<bar> < 2 ^ 24" "\<bar>k\<bar> < 2 ^ 53" using assms by simp_all
  show "num (fp_of_int binary32 k)" "fval (fp_of_int binary32 k) = of_int k"
    "num (fp_of_int binary64 k)" "fval (fp_of_int binary64 k) = of_int k"
    by (rule num_int(1) [OF k(1)] fval_int(1) [OF k(1)] num_int(2) [OF k(2)] fval_int(2) [OF k(2)])+
qed

lemma scale_near:
  assumes "modest (v + ch_add ch) (ch_mod ch) (ch_mul ch)" and "\<bar>v\<bar> < 2 ^ 24" and "\<bar>ch_add ch\<bar> < 2 ^ 24"
  shows "near (4 * ulp binary32) (scale_number ch (fp_of_int binary32 v))
    (mul_by (ch_mul ch) (scaled_by (ch_mod ch) (v + ch_add ch)))"
proof -
  let ?n = "v + ch_add ch" and ?md = "ch_mod ch" and ?mul = "ch_mul ch" and ?u = "2 * ulp binary32"
  note m = modest_moderate [OF assms(1)]
  have keys: "\<bar>?md\<bar> < 2 ^ 20" "\<bar>?mul\<bar> < 2 ^ 20" "\<bar>?n\<bar> < 2 ^ 24" using assms(1) by (simp_all add: modest_def)
  have u: "0 \<le> ?u" "?u \<le> 1 / 2" by (simp_all add: ulp_def)
  define a where "a = fadd binary32 (fp_of_int binary32 v) (fp_of_int binary32 (ch_add ch))"
  have "a = fp_of_int binary32 ?n" unfolding a_def using assms(2,3) keys(3) by (intro fadd_int_32) simp_all
  then have a: "near 0 a (of_int ?n)" using num_int(1) [OF keys(3)] fval_int(1) [OF keys(3)] by (intro near_exact) simp_all
  define b where "b = (if 0 < ?md then fmul binary32 a (fp_of_int binary32 ?md)
      else if ?md < 0 then fdiv binary32 a (fneg (fp_of_int binary32 ?md)) else a)"
  have b: "near ?u b (scaled_by ?md ?n)"
  proof -
    consider "0 < ?md" | "?md < 0" | "?md = 0" by linarith
    then show ?thesis
    proof cases
      case 1
      then show ?thesis using near_fmul [OF _ a key_int(1,2) [OF keys(1)]] keys(1) m(2) by (simp add: b_def scaled_by_def)
    next
      case 2
      then show ?thesis using near_fdiv [OF _ a num_fneg(1) [OF key_int(1) [OF keys(1)]] refl] keys(1) m(2)
        by (simp add: b_def scaled_by_def)
    next
      case 3
      then show ?thesis using near_mono [OF a u(1)] by (simp add: b_def scaled_by_def)
    qed
  qed
  have s: "scale_number ch (fp_of_int binary32 v) = (if ?mul \<noteq> 0 then fmul binary32 b (fp_of_int binary32 ?mul) else b)"
    by (simp add: scale_number_def a_def b_def Let_def)
  show ?thesis
  proof (cases "?mul = 0")
    case True
    then show ?thesis using near_mono [OF b, of "4 * ulp binary32"] u by (simp add: s mul_by_def)
  next
    case False
    then have "near (?u + 2 * ulp binary32) (fmul binary32 b (fp_of_int binary32 ?mul)) (mul_by ?mul (scaled_by ?md ?n))"
      using near_fmul [OF wide_formats(1) b key_int(1,2) [OF keys(2)] _ u(2,1)] m(3) by (simp add: mul_by_def)
    then show ?thesis using False by (simp add: s)
  qed
qed

lemma unscale_near:
  assumes "near e x (mul_by mul (scaled_by md n))" and "0 \<le> e" and "e \<le> 1 / 4"
    and "modest n md mul" and "\<bar>add\<bar> < 2 ^ 24"
  shows "num (unscale add md mul x)"
    "\<bar>fval (unscale add md mul x) - of_int (n - add)\<bar> \<le> (e + 4 * ulp binary64) * 2 ^ 20 + 2 powi (- 20)"
proof -
  let ?u = "2 * ulp binary64"
  note m = modest_moderate [OF assms(4)]
  have keys: "\<bar>md\<bar> < 2 ^ 20" "\<bar>mul\<bar> < 2 ^ 20" "\<bar>n\<bar> < 2 ^ 20" using assms(4) by (simp_all add: modest_def)
  have u: "0 \<le> ?u" "?u \<le> 1 / 16" by (simp_all add: ulp_def)
  have e: "0 \<le> e + ?u" "e + ?u \<le> 1 / 2" "e \<le> 1 / 2" using assms(2,3) u by linarith+
  define a where "a = (if mul \<noteq> 0 then fdiv binary64 x (fp_of_int binary64 mul) else x)"
  have a: "near (e + ?u) a (scaled_by md n)"
  proof (cases "mul = 0")
    case True
    then show ?thesis using near_mono [OF assms(1), of "e + ?u"] u(1) by (simp add: a_def mul_by_def)
  next
    case False
    have "near (e + ?u) (fdiv binary64 x (fp_of_int binary64 mul)) (mul_by mul (scaled_by md n) / of_int mul)"
      by (rule near_fdiv [OF wide_formats(2) assms(1) key_int(3,4) [OF keys(2)] _ _ e(3) assms(2)])
        (use False m(2) in \<open>simp_all add: mul_by_def\<close>)
    then show ?thesis using False by (simp add: a_def mul_by_def)
  qed
  define b where "b = (if 0 < md then fdiv binary64 a (fp_of_int binary64 md)
      else if md < 0 then fmul binary64 a (fneg (fp_of_int binary64 md)) else a)"
  have b: "near (e + ?u + ?u) b (of_int n)"
  proof -
    consider "0 < md" | "md < 0" | "md = 0" by linarith
    then show ?thesis
    proof cases
      case 1
      then show ?thesis using near_fdiv [OF wide_formats(2) a key_int(3,4) [OF keys(1)] _ _ e(2,1)] m(1)
        by (simp add: b_def scaled_by_def)
    next
      case 2
      then show ?thesis
        using near_fmul [OF wide_formats(2) a num_fneg(1) [OF key_int(3) [OF keys(1)]] refl _ e(2,1)] keys(1) m(1)
        by (simp add: b_def scaled_by_def)
    next
      case 3
      then show ?thesis using near_mono [OF a, of "e + ?u + ?u"] u(1) by (simp add: b_def scaled_by_def)
    qed
  qed
  have n: "\<bar>of_int n\<bar> \<le> (2 ^ 20 :: rat)" using keys(3) by (simp flip: of_int_abs)
  have "(e + ?u + ?u) * \<bar>of_int n\<bar> \<le> (e + ?u + ?u) * 2 ^ 20" by (rule mult_left_mono [OF n]) (use assms(2) u in simp)
  then have d: "num b" "\<bar>fval b - of_int n\<bar> \<le> (e + ?u + ?u) * 2 ^ 20" using b by (simp_all add: near_def)
  have ad: "num (fp_of_int binary64 add)" "fval (fp_of_int binary64 add) = of_int add" "\<bar>of_int add\<bar> \<le> (2 ^ 24 :: rat)"
    using assms(5) by (simp_all flip: of_int_abs)
  have "(e + ?u + ?u) * 2 ^ 20 \<le> (1 :: rat) * 2 ^ 20" by (rule mult_right_mono) (use assms(3) u in linarith, simp)
  then have "\<bar>fval b - of_int n\<bar> \<le> 2 ^ 20" using d(2) by linarith
  moreover have "\<bar>fval b - of_int add\<bar> \<le> \<bar>fval b - of_int n\<bar> + \<bar>of_int n\<bar> + \<bar>of_int add\<bar>" by linarith
  ultimately have w: "\<bar>fval b - of_int add\<bar> \<le> 2 ^ 25" using ad(3) n by simp
  have c: "unscale add md mul x = fsub binary64 b (fp_of_int binary64 add)"
    by (simp add: unscale_def a_def b_def Let_def)
  have f: "num (fsub binary64 b (fp_of_int binary64 add))"
    "\<bar>fval (fsub binary64 b (fp_of_int binary64 add)) - (fval b - of_int add)\<bar> \<le> err binary64 (fval b - of_int add)"
    using fsub_num [OF roomy_formats(2) d(1) ad(1)] w by (simp_all add: ad(2))
  have "\<bar>fval b - of_int add\<bar> * 2 powi (- 53) \<le> 2 ^ 25 * 2 powi (- 53)" by (rule mult_right_mono [OF w]) simp
  moreover have "(2 :: rat) powi (- 1074) \<le> 2 powi (- 21)" by (simp only: powi_le_iff)
  ultimately have "err binary64 (fval b - of_int add) \<le> 2 powi (- 20)" by (simp add: err_def)
  then show "num (unscale add md mul x)"
    "\<bar>fval (unscale add md mul x) - of_int (n - add)\<bar> \<le> (e + 4 * ulp binary64) * 2 ^ 20 + 2 powi (- 20)"
    using f d(2) by (simp_all add: c algebra_simps)
qed

section \<open>The registers that come out\<close>

lemma check_raw_near:
  assumes "num raw" and "\<bar>fval raw - of_int v\<bar> \<le> 2 / 5" and lim: "raw_limits fmt = (lo, hi)" and "lo \<le> v" and "v \<le> hi"
  obtains r where "check_raw fmt raw = Inr r" "num r" "fval r = of_int v"
proof -
  note b = raw_limits_bounds [OF lim] and i = limits_small [OF lim]
  have v: "(of_int lo :: rat) \<le> of_int v" "of_int v \<le> (of_int hi :: rat)" using assms(4,5) by simp_all
  have "\<bar>v\<bar> \<le> 2 ^ 32" using b assms(4,5) by simp
  then have "\<bar>of_int v\<bar> \<le> (2 ^ 32 :: rat)" by (simp flip: of_int_abs)
  moreover have "\<bar>fval raw\<bar> \<le> \<bar>fval raw - of_int v\<bar> + \<bar>of_int v\<bar>" by linarith
  ultimately have "\<bar>fval raw\<bar> \<le> 2 ^ 33" using assms(2) by simp
  then obtain r w where r: "round_raw raw = Inr r" "num r" "fval r = of_int w"
    "\<bar>of_int w - fval raw\<bar> \<le> 1 / 2 + 2 powi (- 18)"
    using round_raw_num [OF assms(1)] by blast
  have "\<bar>of_int w - of_int v\<bar> < (1 :: rat)"
  proof -
    have "(2 :: rat) powi (- 18) < 1 / 10" by simp
    then show ?thesis using r(4) assms(2) by linarith
  qed
  then have w: "w = v" by linarith
  have "of_int (lo - 1) \<le> fval raw" "fval raw \<le> of_int (hi + 1)"
    using v assms(2) unfolding of_int_diff of_int_add of_int_1 abs_le_iff by linarith+
  then have "check_raw fmt raw = Inr r"
    using assms(1,4,5) r(1,2,3) w i by (simp add: check_raw_limits [OF lim] fle_num flt_num)
  then show thesis using that r(2,3) w by blast
qed

lemma raw_int_limits:
  assumes "raw_int fmt data = Some v" and "raw_limits fmt = (lo, hi)"
  shows "lo \<le> v" "v \<le> hi"
proof -
  note f = raw_int_format [OF assms(1)]
  have s: "- (2 ^ 15) \<le> sint (b :: u16)" "sint b < 2 ^ 15" "- (2 ^ 31) \<le> sint (d :: u32)" "sint d < 2 ^ 31"
    "0 \<le> uint d" "uint d < 2 ^ 32" for b d
    using sint_greater_eq [of b] sint_less [of b] sint_greater_eq [of d] sint_less [of d] uint_bounded [of d] by simp_all
  have "lo \<le> v \<and> v \<le> hi"
    using f assms(1,2) byte_range [of "data ! 0"] be16_range [of "data ! 0" "data ! 1"] be16_range [of "data ! 1" "data ! 0"]
      sint_greater_eq [of "data ! 0"] sint_less [of "data ! 0"]
      s(1,2) [of "word_of_int (be16 (data ! 0) (data ! 1))"] s(1,2) [of "word_of_int (be16 (data ! 1) (data ! 0))"]
      s(3-6) [of "be32 (data ! 0) (data ! 1) (data ! 2) (data ! 3)"]
      s(3-6) [of "be32 (data ! 1) (data ! 0) (data ! 3) (data ! 2)"]
    by (elim int_formatsE; simp add: read_int_defs; linarith)
  then show "lo \<le> v" "v \<le> hi" by simp_all
qed

text \<open>A value that unscales to almost \<open>v\<close> is written as \<open>v\<close>.\<close>

lemma encode_scaled_near:
  assumes "num value" and "raw_int fmt data = Some v" and "int (length data) = modbusmq_format_size fmt"
    and "modbusmq_format_size fmt \<noteq> 1"
    and "num (unscale add md mul value)" and "\<bar>fval (unscale add md mul value) - of_int v\<bar> \<le> 2 / 5"
  shows "modbusmq_encode_scaled fmt add md mul value = Inr (pack_registers data)"
proof -
  note f = raw_int_format [OF assms(2)]
  obtain lo hi where lim: "raw_limits fmt = (lo, hi)" by fastforce
  obtain r where r: "check_raw fmt (unscale add md mul value) = Inr r" "num r" "fval r = of_int v"
    by (rule check_raw_near [OF assms(5,6) lim raw_int_limits [OF assms(2) lim]])
  have "modbusmq_format_size fmt \<le> 2 \<longrightarrow> v < 2 ^ 31" using raw_int_bound(3) [OF assms(2)] by auto
  then have "modbusmq_encode_value fmt r = Inr (raw_bytes fmt v)"
    by (rule encode_int_value [OF f r(2,3) raw_int_bound(1,2) [OF assms(2)]])
  then have e: "modbusmq_encode_value fmt r = Inr data" using raw_bytes_raw_int [OF assms(2,3)] by simp
  have nf: "\<not> is_float fmt" using f by (elim int_formatsE) (simp_all add: is_float_def)
  have "length data = 2 \<or> length data = 4" using f assms(3,4) by (elim int_formatsE) simp_all
  then show ?thesis using r(1) e nf num_finite [OF assms(1)] by (auto simp: modbusmq_encode_scaled_def)
qed

end
