(* ===== verification/Codec_Props.thy ===== *)
theory Codec_Props
  imports Readback Link_Props
begin

text \<open>
  The properties of the channel codec: what is read depends on received data only, a value read
  is written back as it was, and a write stays within the limits of its format.
\<close>

section \<open>Reading received bytes only\<close>















section \<open>Writing within limits\<close>

definition register_bytes :: "u16 list \<Rightarrow> byte list" where
  "register_bytes regs = concat (map (\<lambda>r. [hi8 (uint r), lo8 (uint r)]) regs)"

lemma register_bytes_pack:
  assumes "length bs = 2 \<or> length bs = 4"
  shows "register_bytes (pack_registers bs) = bs"
proof -
  have m: "be16 a b mod 65536 = be16 a b" for a b using be16_range [of a b] by simp
  consider a b where "bs = [a, b]" | a b c d where "bs = [a, b, c, d]"
    using assms by (auto simp: length_Suc_conv numeral_eq_Suc)
  then show ?thesis by cases (simp_all add: register_bytes_def pack_registers_def uint_word_of_int m)
qed

text \<open>
  C36. A finite value for an integer register format is either refused or written as an integer
  within the format's limits, at most half a unit (and the rounding of one addition) from the
  unscaled value, which the decoder of the same format reads back; no conversion on the way is
  one that C leaves undefined.
\<close>

theorem scaled_write_in_range:
  assumes "num value" and "c_int add" and "c_int md" and "c_int mul" and "fmt \<in> int_formats"
    and "modbusmq_format_size fmt \<noteq> 1" and "raw_limits fmt = (lo, hi)"
  shows "modbusmq_encode_scaled fmt add md mul value = refuse
    \<or> (\<exists>regs v. modbusmq_encode_scaled fmt add md mul value = Inr regs
         \<and> lo \<le> v \<and> v \<le> hi \<and> \<bar>of_int v - fval (unscale add md mul value)\<bar> \<le> 1 / 2 + 2 powi (- 18)
         \<and> decode_number fmt (register_bytes regs) = Some (fp_of_int binary32 (stored_value fmt v)))"
proof (cases rule: encode_scaled_int [OF assms(1-5,7)])
  case (2 v)
  have l: "length (raw_bytes fmt v) = 2 \<or> length (raw_bytes fmt v) = 4"
    using length_raw_bytes [OF assms(5), of v] assms(5,6) by (elim int_formatsE) simp_all
  have "decode_number fmt (raw_bytes fmt v) = Some (fp_of_int binary32 (stored_value fmt v))"
    by (rule decode_raw_int [OF raw_int_raw_bytes [OF assms(5,7) 2(2,3)]])
  then show ?thesis using 2 register_bytes_pack [OF l] by metis
qed simp

theorem scaled_write_in_range_witness:
  "modbusmq_encode_scaled format_int16_ab 0 (- 10) 0 (fp_of_int binary64 4000) = refuse
   \<or> (\<exists>regs v. modbusmq_encode_scaled format_int16_ab 0 (- 10) 0 (fp_of_int binary64 4000) = Inr regs
         \<and> - 32768 \<le> v \<and> v \<le> 32767
         \<and> \<bar>of_int v - fval (unscale 0 (- 10) 0 (fp_of_int binary64 4000))\<bar> \<le> 1 / 2 + 2 powi (- 18)
         \<and> decode_number format_int16_ab (register_bytes regs) = Some (fp_of_int binary32 (stored_value format_int16_ab v)))"
  by (rule scaled_write_in_range) (simp_all add: c_int_def int_formats_def)

section \<open>Writing back what was read\<close>



end
