(* ===== verification/Ack.thy ===== *)
theory Ack
  imports Reply Publish Loop Encode
begin

text \<open>
  The bridge between the bus and MQTT (programs/modbusmq.c), first half: its state, the writes
  waiting for an answer, the acks published for them and the callbacks the library calls.

  What \<open>mosquitto_publish\<close> returns comes from outside, by the number of the call. A call is
  recorded with its arguments whatever it returns. Memory does not run out, log output is left
  out, and the program is the build with MQTT.
\<close>

section \<open>State\<close>

record pending_write_t =
  pw_req_id :: u32
  pw_write_index :: nat
  pw_value :: string

record publish =
  pb_topic :: "string option"
  pb_payload :: string
  pb_qos :: int
  pb_retain :: bool

text \<open>
  The globals of the program, the library context and the configuration, and what has been
  said to the broker so far.
\<close>

record bridge =
  has_mqtt :: bool
  mqtt_connected :: bool
  mqtt_reconnect_at_ms :: millitime_t
  modbus_connected :: bool
  modbus_reconnect_at_ms :: millitime_t
  pending_writes :: "pending_write_t list"
  br_config :: modbusmq_config_t
  br_context :: modbusmq_context_t
  br_libc :: libc_time
  mosq_publish_rc :: "nat \<Rightarrow> int"
  published :: "publish list"
  subscribed :: "string list"

abbreviation (input) MOSQ_ERR_SUCCESS :: int where "MOSQ_ERR_SUCCESS \<equiv> 0"
abbreviation (input) MOSQ_ERR_NO_CONN :: int where "MOSQ_ERR_NO_CONN \<equiv> 4"
abbreviation (input) MOSQ_ERR_CONN_LOST :: int where "MOSQ_ERR_CONN_LOST \<equiv> 7"

definition mosquitto_publish :: "string option \<Rightarrow> string \<Rightarrow> int \<Rightarrow> bool \<Rightarrow> bridge \<Rightarrow> int \<times> bridge" where
  "mosquitto_publish topic payload qos retain b =
     (mosq_publish_rc b (length (published b)),
      b\<lparr>published := published b @ [\<lparr>pb_topic = topic, pb_payload = payload, pb_qos = qos, pb_retain = retain\<rparr>]\<rparr>)"

definition bridge_millitime :: "bridge \<Rightarrow> millitime_t \<times> bridge" where
  "bridge_millitime b = (let (now, c) = millitime (br_context b) in (now, b\<lparr>br_context := c\<rparr>))"

section \<open>JSON\<close>

text \<open>A buffer of \<open>nbuf\<close> bytes filled piece by piece; what does not fit is cut off.\<close>

definition json_append :: "nat \<Rightarrow> string \<Rightarrow> string \<Rightarrow> string" where
  "json_append nbuf buf piece =
     (if nbuf \<le> length buf + 1 then buf else buf @ take (nbuf - length buf - 1) piece)"

definition hex_lower :: "nat \<Rightarrow> char" where
  "hex_lower d = char_of (if d < 10 then 48 + d else 87 + d)"

definition json_esc :: "char \<Rightarrow> string" where
  "json_esc ch =
     (if ch = CHR 0x22 then [CHR 0x5C, CHR 0x22]
      else if ch = CHR 0x5C then [CHR 0x5C, CHR 0x5C]
      else if ch = CHR 0x0A then [CHR 0x5C, CHR ''n'']
      else if ch = CHR 0x0D then [CHR 0x5C, CHR ''r'']
      else if ch = CHR 0x09 then [CHR 0x5C, CHR ''t'']
      else let c = of_char ch :: nat
           in if c < 0x20 then [CHR 0x5C, CHR ''u'', CHR ''0'', CHR ''0'', hex_lower (c div 16), hex_lower (c mod 16)]
              else [ch])"

fun json_escape_loop :: "nat \<Rightarrow> string \<Rightarrow> string \<Rightarrow> string" where
  "json_escape_loop nout [] out = out"
| "json_escape_loop nout (p # ps) out =
     (if nout \<le> length out + length (json_esc p) then out else json_escape_loop nout ps (out @ json_esc p))"

definition json_escape :: "nat \<Rightarrow> string option \<Rightarrow> string" where
  "json_escape nout s = json_escape_loop nout (case s of None \<Rightarrow> [] | Some t \<Rightarrow> t) []"

section \<open>Writes waiting for an answer\<close>

definition pending_write_add :: "u32 \<Rightarrow> nat \<Rightarrow> string \<Rightarrow> bridge \<Rightarrow> bridge" where
  "pending_write_add rid index v b =
     b\<lparr>pending_writes := pending_writes b @ [\<lparr>pw_req_id = rid, pw_write_index = index, pw_value = fit 96 v\<rparr>]\<rparr>"

fun take_pending :: "u32 \<Rightarrow> pending_write_t list \<Rightarrow> pending_write_t option \<times> pending_write_t list" where
  "take_pending rid [] = (None, [])"
| "take_pending rid (p # ps) =
     (if pw_req_id p \<noteq> rid then (let (taken, rest) = take_pending rid ps in (taken, p # rest))
      else (Some p, ps))"

definition pending_write_take :: "u32 \<Rightarrow> bridge \<Rightarrow> pending_write_t option \<times> bridge" where
  "pending_write_take rid b =
     (let (taken, rest) = take_pending rid (pending_writes b) in (taken, b\<lparr>pending_writes := rest\<rparr>))"

section \<open>Acks\<close>

text \<open>\<open>"key":"text"\<close> with a comma in front\<close>

definition json_field :: "string \<Rightarrow> string \<Rightarrow> string" where
  "json_field key text = CHR '','' # CHR 0x22 # key @ [CHR 0x22, CHR '':'', CHR 0x22] @ text @ [CHR 0x22]"

definition json_number :: "string \<Rightarrow> string \<Rightarrow> string" where
  "json_number key text = CHR '','' # CHR 0x22 # key @ [CHR 0x22, CHR '':''] @ text"

definition ack_pieces ::
    "modbusmq_write_t \<Rightarrow> u32 \<Rightarrow> string \<Rightarrow> string option \<Rightarrow> string option \<Rightarrow> string option \<Rightarrow> int \<Rightarrow> string list" where
  "ack_pieces w rid status v reason message code =
     [CHR ''{'' # tl (json_field ''status'' status)]
     @ (if wr_name w = None then [] else [json_field ''name'' (json_escape 128 (wr_name w))])
     @ (if wr_topic w = None then [] else [json_field ''topic'' (json_escape 256 (wr_topic w))])
     @ (if rid = 0 then [] else [json_number ''req'' (nat_str (unat rid))])
     @ (if v = None then [] else [json_field ''value'' (json_escape 192 v)])
     @ (case reason of None \<Rightarrow> [] | Some r \<Rightarrow> [json_field ''reason'' r])
     @ (if 0 < code then [json_number ''code'' (int_str code)] else [])
     @ (if message = None then [] else [json_field ''message'' (json_escape 192 message)])
     @ [''}'']"

definition ack_payload ::
    "modbusmq_write_t \<Rightarrow> u32 \<Rightarrow> string \<Rightarrow> string option \<Rightarrow> string option \<Rightarrow> string option \<Rightarrow> int \<Rightarrow> string" where
  "ack_payload w rid status v reason message code =
     foldl (json_append 900) [] (ack_pieces w rid status v reason message code)"

definition mqtt_write_result ::
    "modbusmq_write_t \<Rightarrow> u32 \<Rightarrow> string \<Rightarrow> string option \<Rightarrow> string option \<Rightarrow> string option \<Rightarrow> int \<Rightarrow> bridge \<Rightarrow> bridge" where
  "mqtt_write_result w rid status v reason message code b =
     (if \<not> wr_ack w \<or> wr_ack_topic w = None then b
      else if \<not> has_mqtt b \<or> \<not> mqtt_connected b then b
      else
        (let (rc, b) = mosquitto_publish (wr_ack_topic w) (ack_payload w rid status v reason message code)
               (mqtt_qos (br_config b)) False b
         in if rc = MOSQ_ERR_NO_CONN \<or> rc = MOSQ_ERR_CONN_LOST then b\<lparr>mqtt_connected := False\<rparr> else b))"

definition mqtt_write_ack :: "modbusmq_write_t \<Rightarrow> u32 \<Rightarrow> string \<Rightarrow> bool \<Rightarrow> bridge \<Rightarrow> bridge" where
  "mqtt_write_ack w rid v broadcast b =
     mqtt_write_result w rid (if broadcast then ''sent'' else ''ok'') (Some v) None None 0 b"

definition mqtt_write_nack :: "modbusmq_write_t \<Rightarrow> u32 \<Rightarrow> string \<Rightarrow> string \<Rightarrow> int \<Rightarrow> bridge \<Rightarrow> bridge" where
  "mqtt_write_nack w rid reason message code b =
     mqtt_write_result w rid ''error'' None (Some reason) (Some message) code b"

definition modbusmq_error_tag :: "int \<Rightarrow> string" where
  "modbusmq_error_tag error =
     (if error = MODBUSMQ_ERR_TIMEOUT then ''timeout''
      else if error = MODBUSMQ_ERR_PROTOCOL then ''protocol''
      else if error = MODBUSMQ_ERR_TRANSPORT then ''transport''
      else if error = MODBUSMQ_ERR_EXCEPTION then ''exception'' else ''error'')"

section \<open>The callbacks\<close>

definition modbusmq_message_callback :: "modbusmq_msg_t \<Rightarrow> bridge \<Rightarrow> bridge" where
  "modbusmq_message_callback m b =
     (case pending_write_take (req_id m) b of
        (None, b) \<Rightarrow> b
      | (Some p, b) \<Rightarrow>
          mqtt_write_ack (cfg_writes (br_config b) ! pw_write_index p) (req_id m) (pw_value p)
            (modbusmq_msg_broadcast (br_context b) m) b)"

definition modbusmq_error_callback :: "modbusmq_msg_t \<Rightarrow> int \<Rightarrow> bridge \<Rightarrow> bridge" where
  "modbusmq_error_callback m error b =
     (let code = (if error = MODBUSMQ_ERR_EXCEPTION then modbusmq_frame_exception_code (br_context b) (frame1 m) else 0)
      in case pending_write_take (req_id m) b of
           (None, b) \<Rightarrow> b
         | (Some p, b) \<Rightarrow>
             mqtt_write_nack (cfg_writes (br_config b) ! pw_write_index p) (req_id m) (modbusmq_error_tag error)
               (if 0 < code then modbusmq_exception_string code else modbusmq_strerror (br_context b) error) code b)"

definition MODBUSMQ_TEXT_MAX :: nat where
  "MODBUSMQ_TEXT_MAX = 140"

text \<open>The value of one channel and its text; \<open>None\<close> when the channel is skipped.\<close>

definition channel_text ::
    "bridge \<Rightarrow> modbusmq_msg_t \<Rightarrow> modbusmq_input_t \<Rightarrow> modbusmq_channel_t \<Rightarrow> (fp \<times> string) option" where
  "channel_text b m i ch =
     (let cfg = Some (br_config b); c = br_context b
      in if \<not> modbusmq_channel_in_range cfg c m i ch then None
         else if modbusmq_format_is_text (ch_format ch) then
           map_option (Pair fzero) (modbusmq_read_channel_text (br_libc b) cfg c m i ch MODBUSMQ_TEXT_MAX)
         else (let f = modbusmq_read_channel cfg c m i ch
               in map_option (Pair f) (modbusmq_channel_format_value i ch f MODBUSMQ_TEXT_MAX)))"

definition publish_channel :: "modbusmq_channel_t \<Rightarrow> string \<Rightarrow> bridge \<Rightarrow> bridge" where
  "publish_channel ch text b =
     (if \<not> has_mqtt b \<or> \<not> mqtt_connected b then b
      else
        (let cfg = br_config b;
             retain = (if ch_has_retain ch then ch_retain ch else mqtt_retain cfg);
             qos = (if ch_has_qos ch then ch_qos ch else mqtt_qos cfg);
             (rc, b) = mosquitto_publish (ch_topic ch) text qos retain b
         in if rc = MOSQ_ERR_NO_CONN \<or> rc = MOSQ_ERR_CONN_LOST then b\<lparr>mqtt_connected := False\<rparr> else b))"

definition set_channel :: "nat \<Rightarrow> nat \<Rightarrow> modbusmq_channel_t \<Rightarrow> bridge \<Rightarrow> bridge" where
  "set_channel n k ch b =
     (let cfg = br_config b; i = inputs cfg ! n
      in b\<lparr>br_config := cfg\<lparr>inputs := (inputs cfg)[n := i\<lparr>in_channels := (in_channels i)[k := ch]\<rparr>]\<rparr>\<rparr>)"

definition deliver_channel :: "modbusmq_msg_t \<Rightarrow> nat \<Rightarrow> nat \<Rightarrow> bridge \<Rightarrow> bridge" where
  "deliver_channel m n k b =
     (let i = inputs (br_config b) ! n; ch = in_channels i ! k
      in case channel_text b m i ch of
           None \<Rightarrow> b
         | Some (f, text) \<Rightarrow>
             (let (now, b) = bridge_millitime b;
                  (send, ch) = modbusmq_channel_publish_decide i ch f text now;
                  b = set_channel n k ch b
              in if send then publish_channel ch text b else b))"

definition modbusmq_subscription_callback :: "modbusmq_msg_t \<Rightarrow> nat \<Rightarrow> bridge \<Rightarrow> bridge" where
  "modbusmq_subscription_callback m n b =
     fold (deliver_channel m n) [0..<length (in_channels (inputs (br_config b) ! n))] b"

text \<open>The topics of raw requests and their replies.\<close>

definition raw_topic :: "modbusmq_config_t \<Rightarrow> string \<Rightarrow> string" where
  "raw_topic cfg suff =
     fit 256 ((case mqtt_topic_prefix cfg of None \<Rightarrow> [] | Some p \<Rightarrow> p) @ ''request/raw'' @ suff)"

definition raw_reply_callback :: "string \<Rightarrow> bridge \<Rightarrow> bridge" where
  "raw_reply_callback reply b =
     (if \<not> has_mqtt b \<or> \<not> mqtt_connected b then b
      else snd (mosquitto_publish (Some (raw_topic (br_config b) ''/reply'')) reply 0 False b))"

text \<open>
  What the library reported in a call, answered in order once the call is over. The callbacks
  call nothing of the library that changes its state.
\<close>

fun run_callback :: "event \<Rightarrow> bridge \<Rightarrow> bridge" where
  "run_callback (Ev_Message m) b = modbusmq_message_callback m b"
| "run_callback (Ev_Subscribe m n) b = modbusmq_subscription_callback m n b"
| "run_callback (Ev_Error m error) b = modbusmq_error_callback m error b"
| "run_callback (Ev_Raw_Reply reply) b = raw_reply_callback reply b"

definition run_callbacks :: "bridge \<Rightarrow> bridge" where
  "run_callbacks b =
     fold run_callback (events (br_context b)) (b\<lparr>br_context := (br_context b)\<lparr>events := []\<rparr>\<rparr>)"

end
