(* ===== verification/Respond.thy ===== *)
theory Respond
  imports Connect Encode Config_Parse
begin

text \<open>
  How the virtual server answers a request (programs/modbusmq_server.c,
  \<open>modbusmq_prepare_response\<close>) and how values from MQTT reach the channels it serves (the
  \<open>emu_\<close> functions). Printing is left out. \<open>None\<close> is undefined behaviour of the C program:
  a conversion of a value out of the range of its type.
\<close>

section \<open>Answering on TCP\<close>

text \<open>Both frames of the exchange: the request has been read, the response is built.\<close>

definition response_header :: "modbusmq_frame_t \<Rightarrow> modbusmq_frame_t \<Rightarrow> modbusmq_frame_t" where
  "response_header req res =
     setb 7 (getb req 7) (setb 6 (getb req 6) (setb 3 0 (setb 2 0
       (setb 1 (getb req 1) (setb 0 (getb req 0) res)))))"

definition illegal_value :: "byte \<Rightarrow> modbusmq_frame_t \<Rightarrow> modbusmq_frame_t" where
  "illegal_value function res =
     (setb 5 3 (setb 4 0 (setb 8 0x03 (setb 7 (function OR 0x80) res))))\<lparr>flength := 9\<rparr>"

definition write_request_bad :: "modbusmq_frame_t \<Rightarrow> bool" where
  "write_request_bad req \<longleftrightarrow>
     (let function = uint (getb req 7); v = be16 (getb req 10) (getb req 11); nbyte = uint (getb req 12)
      in if function = MODBUSMQ_WRITE_SINGLE_COIL then v \<noteq> 0xFF00 \<and> v \<noteq> 0x0000
         else if function = MODBUSMQ_WRITE_SINGLE_REGISTER then False
         else v < 1 \<or> 123 < v \<or> nbyte \<noteq> v * 2 \<or> xmit req < 13 + nbyte)"

definition respond_write :: "modbusmq_frame_t \<Rightarrow> modbusmq_frame_t \<Rightarrow> modbusmq_frame_t" where
  "respond_write req res =
     (if write_request_bad req then illegal_value (getb req 7) res
      else (setb 5 6 (setb 4 0 (setb 11 (getb req 11) (setb 10 (getb req 10)
             (setb 9 (getb req 9) (setb 8 (getb req 8) res))))))\<lparr>flength := 12\<rparr>)"

text \<open>The channels the two nested loops come by: those in use, of the inputs that match.\<close>

definition served_channels ::
    "modbusmq_config_t \<Rightarrow> int \<Rightarrow> int \<Rightarrow> (modbusmq_input_t \<times> modbusmq_channel_t) list" where
  "served_channels cfg slave function =
     concat (map (\<lambda>i. map (Pair i) (filter (\<lambda>ch. ch_topic ch \<noteq> None) (in_channels i)))
       (filter (\<lambda>i. in_slave i = slave \<and> in_type i = function) (inputs cfg)))"

text \<open>\<open>memset(&res->buf[9], 0, n)\<close>\<close>

definition clear_payload :: "nat \<Rightarrow> modbusmq_frame_t \<Rightarrow> modbusmq_frame_t" where
  "clear_payload n res = res\<lparr>fbuf := take 9 (fbuf res) @ replicate n 0 @ drop (9 + n) (fbuf res)\<rparr>"

definition finish_response :: "int \<Rightarrow> modbusmq_frame_t \<Rightarrow> modbusmq_frame_t" where
  "finish_response n res =
     (setb 5 (lo8 (n + 3)) (setb 4 (hi8 (n + 3)) (setb 8 (lo8 n) res)))\<lparr>flength := n + 3 + 6\<rparr>"

definition fp_is_zero :: "fp \<Rightarrow> bool" where
  "fp_is_zero x = (case x of FNum s r \<Rightarrow> r = 0 | _ \<Rightarrow> False)"

definition serve_coil ::
    "int \<Rightarrow> int \<Rightarrow> modbusmq_input_t \<times> modbusmq_channel_t \<Rightarrow> modbusmq_frame_t \<Rightarrow> modbusmq_frame_t" where
  "serve_coil address_start naddress ic res =
     (let (i, ch) = ic;
          icoil = (in_address i + ch_offset ch) - address_start;
          k = 9 + nat icoil div 8
      in if icoil < 0 \<or> naddress \<le> icoil then res
         else if fp_is_zero (ch_value ch) then res
         else setb k (getb res k OR push_bit (nat icoil mod 8) 1) res)"

text \<open>
  \<open>encoded\<close> bytes at the channel's place in the payload. The room for a text is what the
  response has left; a text encoder that would write past it is taken for undefined.
\<close>

definition put_at :: "nat \<Rightarrow> byte list \<Rightarrow> modbusmq_frame_t \<Rightarrow> modbusmq_frame_t option" where
  "put_at k bs res =
     (if k + length bs \<le> length (fbuf res)
      then Some (res\<lparr>fbuf := take k (fbuf res) @ bs @ drop (k + length bs) (fbuf res)\<rparr>) else None)"

definition serve_register ::
    "int \<Rightarrow> int \<Rightarrow> int \<Rightarrow> modbusmq_input_t \<times> modbusmq_channel_t \<Rightarrow> modbusmq_frame_t \<Rightarrow> modbusmq_frame_t option" where
  "serve_register address_start nbytes unit ic res =
     (let (i, ch) = ic;
          pos = ch_offset ch * unit - (address_start - in_address i) * 2;
          k = 9 + nat pos
      in if pos < 0 \<or> nbytes < pos + ch_length ch then Some res
         else if modbusmq_format_is_text (ch_format ch) then
           (case ch_value_text ch of
              None \<Rightarrow> Some res
            | Some t \<Rightarrow>
                (case modbusmq_encode_text ch t (take (nat (nbytes - pos)) (drop k (fbuf res))) of
                   None \<Rightarrow> None
                 | Some (rc, bs) \<Rightarrow> put_at k bs res))
         else
           (case modbusmq_encode_value (ch_format ch) (ch_value ch) of
              Inl Undefined \<Rightarrow> None
            | Inl Refused \<Rightarrow> Some res
            | Inr bs \<Rightarrow> put_at k bs res))"

fun serve_registers ::
    "int \<Rightarrow> int \<Rightarrow> int \<Rightarrow> (modbusmq_input_t \<times> modbusmq_channel_t) list \<Rightarrow> modbusmq_frame_t \<Rightarrow> modbusmq_frame_t option" where
  "serve_registers address_start nbytes unit [] res = Some res"
| "serve_registers address_start nbytes unit (ic # ics) res =
     (case serve_register address_start nbytes unit ic res of
        None \<Rightarrow> None
      | Some res' \<Rightarrow> serve_registers address_start nbytes unit ics res')"

definition respond_tcp :: "modbusmq_config_t \<Rightarrow> modbusmq_frame_t \<Rightarrow> modbusmq_frame_t \<Rightarrow> modbusmq_frame_t option" where
  "respond_tcp cfg req res =
     (let res = response_header req res;
          slave = uint (getb req 6); function = uint (getb req 7);
          address_start = be16 (getb req 8) (getb req 9);
          naddress = be16 (getb req 10) (getb req 11);
          is_bit = (function = 1 \<or> function = 2);
          chs = served_channels cfg slave function
      in if function \<in> {MODBUSMQ_WRITE_SINGLE_COIL, MODBUSMQ_WRITE_SINGLE_REGISTER, MODBUSMQ_WRITE_MULTIPLE_REGISTERS}
         then Some (respond_write req res)
         else if naddress \<le> 0 \<or> (if is_bit then 2000 else 125) < naddress then Some (illegal_value (getb req 7) res)
         else if is_bit then
           (let nb = (naddress + 7) div 8
            in Some (finish_response nb (fold (serve_coil address_start naddress) chs (clear_payload (nat nb) res))))
         else
           (let nbytes = naddress * 2; unit = (if 0 < offset_size cfg then offset_size cfg else 1)
            in map_option (finish_response nbytes)
                 (serve_registers address_start nbytes unit chs (clear_payload (nat nbytes) res))))"

definition modbusmq_prepare_response ::
    "modbusmq_context_t \<Rightarrow> modbusmq_config_t \<Rightarrow> modbusmq_msg_t \<Rightarrow> modbusmq_msg_t option" where
  "modbusmq_prepare_response c cfg m =
     (case link c of
        Tcp _ \<Rightarrow> map_option (\<lambda>res. m\<lparr>frame1 := res\<rparr>) (respond_tcp cfg (frame0 m) (frame1 m))
      | Rtu _ \<Rightarrow> Some m)"

section \<open>Values from MQTT\<close>

definition emu_raw_value :: "modbusmq_channel_t \<Rightarrow> fp \<Rightarrow> fp option" where
  "emu_raw_value ch value =
     (let raw = unscale (ch_add ch) (ch_mod ch) (ch_mul ch) value
      in if is_float (ch_format ch) then Some raw
         else case round_raw raw of Inr r \<Rightarrow> Some r | Inl _ \<Rightarrow> None)"

text \<open>The walk of the prefix along the topic; \<open>None\<close> where they differ.\<close>

fun own_topic_loop :: "string \<Rightarrow> string \<Rightarrow> string option" where
  "own_topic_loop [] t = Some t"
| "own_topic_loop (p # ps) t =
     (case ps of
        CHR ''i'' # ps' \<Rightarrow>
          (if p = CHR ''%'' then
             if takeWhile is_decimal t = [] then None else own_topic_loop ps' (dropWhile is_decimal t)
           else if take 1 t = [p] then own_topic_loop ps (drop 1 t) else None)
      | _ \<Rightarrow> (if take 1 t = [p] then own_topic_loop ps (drop 1 t) else None))"

definition emu_own_topic :: "string option \<Rightarrow> string \<Rightarrow> string" where
  "emu_own_topic pre topic =
     (case pre of
        None \<Rightarrow> topic
      | Some p \<Rightarrow> (case own_topic_loop p topic of None \<Rightarrow> topic | Some t \<Rightarrow> t))"

definition emu_channel ::
    "string option \<Rightarrow> string \<Rightarrow> string \<Rightarrow> modbusmq_channel_t \<Rightarrow> modbusmq_channel_t option" where
  "emu_channel pre rest payload ch =
     (case ch_topic ch of
        None \<Rightarrow> Some ch
      | Some topic \<Rightarrow>
          if emu_own_topic pre topic \<noteq> rest then Some ch
          else if modbusmq_format_is_text (ch_format ch) then Some (ch\<lparr>ch_value_text := Some payload\<rparr>)
          else
            (case strtod payload of
               Some (v, []) \<Rightarrow>
                 if is_finite v then map_option (\<lambda>r. ch\<lparr>ch_value := r\<rparr>) (emu_raw_value ch v) else Some ch
             | _ \<Rightarrow> Some ch))"

definition emu_apply :: "modbusmq_config_t \<Rightarrow> string \<Rightarrow> string \<Rightarrow> modbusmq_config_t option" where
  "emu_apply cfg rest payload =
     map_option (\<lambda>is. cfg\<lparr>inputs := is\<rparr>)
       (map_all (\<lambda>i. map_option (\<lambda>chs. i\<lparr>in_channels := chs\<rparr>)
          (map_all (emu_channel (mqtt_topic_prefix cfg) rest payload) (in_channels i))) (inputs cfg))"

text \<open>The payload arrives as bytes without a NUL; a NUL inside ends the C string.\<close>

definition c_string :: "string \<Rightarrow> string" where
  "c_string = takeWhile (\<lambda>ch. ch \<noteq> CHR 0x00)"

definition emu_message_callback ::
    "string \<Rightarrow> string \<Rightarrow> string \<Rightarrow> modbusmq_config_t \<Rightarrow> modbusmq_config_t option" where
  "emu_message_callback pre topic payload cfg =
     (if payload = [] \<or> 1023 < length payload then Some cfg
      else if take (length pre) topic \<noteq> pre then Some cfg
      else emu_apply cfg (drop (length pre) topic) (c_string payload))"

text \<open>The topic subscribed to once the broker has accepted the connection.\<close>

definition emu_connect_callback :: "string \<Rightarrow> int \<Rightarrow> string option" where
  "emu_connect_callback pre result = (if result \<noteq> 0 then None else Some (fit 512 (pre @ ''#'')))"

end
