(* ===== verification/Server.thy ===== *)
theory Server
  imports Respond Loop
begin

text \<open>
  The virtual server of programs/modbusmq_server.c: arguments, client slots, the broker
  connection and one pass of the select loop.

  A descriptor number stands for a socket with its waiting bytes, its room for writing and
  whether calls on it fail; what \<open>select\<close>, \<open>accept\<close> and mosquitto report comes from outside, one
  \<open>select_round\<close> per pass. \<open>None\<close> is undefined behaviour. The listening socket is in
  \<open>Opening\<close>; printing is left out.
\<close>

section \<open>Arguments and server options\<close>

record server_args =
  sa_config_filename :: "string option"
  sa_verbose :: nat
  sa_overrides :: "string list"
  sa_server_options :: "string list"

datatype 'a parsed_args = Args_Fail | Args_Stop | Args_Ok 'a

definition MAX_CONFIG_OVERRIDES :: nat where
  "MAX_CONFIG_OVERRIDES = 64"

text \<open>\<open>strstr(s, pat) != NULL\<close>\<close>

fun strstr :: "string \<Rightarrow> string \<Rightarrow> bool" where
  "strstr [] pat = (pat = [])"
| "strstr (ch # s) pat = (take (length pat) (ch # s) = pat \<or> strstr s pat)"

definition key_value :: "string \<Rightarrow> bool" where
  "key_value e \<longleftrightarrow> CHR ''='' \<in> set e \<and> hd e \<noteq> CHR ''=''"

definition server_add_option :: "string \<Rightarrow> server_args \<Rightarrow> server_args" where
  "server_add_option e g =
     (if take 4 e = ''emu.'' \<or> take 7 e = ''server.''
      then g\<lparr>sa_server_options := sa_server_options g @ [e]\<rparr>
      else g\<lparr>sa_overrides := sa_overrides g @ [e]\<rparr>)"

text \<open>\<open>-c\<close> as the last argument takes the NULL that ends \<open>argv\<close>.\<close>

fun server_parse_argv :: "string list \<Rightarrow> server_args \<Rightarrow> server_args parsed_args" where
  "server_parse_argv [] g = Args_Ok g"
| "server_parse_argv (a # rest) g =
     (if a = ''-e'' then
        (case rest of
           [] \<Rightarrow> Args_Fail
         | e # rest' \<Rightarrow>
             if \<not> key_value e then Args_Fail
             else if MAX_CONFIG_OVERRIDES \<le> length (sa_overrides g) + length (sa_server_options g) then Args_Fail
             else server_parse_argv rest' (server_add_option e g))
      else if strstr a ''--ver'' then Args_Stop
      else if strstr a ''-h'' then Args_Stop
      else if strstr a ''-v'' then server_parse_argv rest (g\<lparr>sa_verbose := Suc (sa_verbose g)\<rparr>)
      else if strstr a ''-c'' then
        (case rest of
           [] \<Rightarrow> Args_Ok (g\<lparr>sa_config_filename := None\<rparr>)
         | f # rest' \<Rightarrow> server_parse_argv rest' (g\<lparr>sa_config_filename := Some f\<rparr>))
      else server_parse_argv rest g)"

fun server_option :: "string list \<Rightarrow> string \<Rightarrow> string option" where
  "server_option [] key = None"
| "server_option (e # es) key =
     (if take (Suc (length key)) e = key @ ''='' then Some (drop (Suc (length key)) e) else server_option es key)"

text \<open>\<open>FD_SETSIZE - 16\<close> with the 1024 of glibc\<close>

definition MODBUSMQ_CONNECTION_LIMIT :: int where
  "MODBUSMQ_CONNECTION_LIMIT = 1024 - 16"

definition MODBUSMQ_CONNECTION_DEFAULT :: int where
  "MODBUSMQ_CONNECTION_DEFAULT = 10"

definition strtol10 :: "string \<Rightarrow> (int \<times> string) option" where
  "strtol10 text =
     (let (neg, s) = scan_sign text
      in map_option (\<lambda>(v, rest). (clamp_long (if neg then - int v else int v), rest)) (scan_digits 10 s))"

definition server_connection_max :: "string option \<Rightarrow> int option" where
  "server_connection_max text =
     (case text of
        None \<Rightarrow> Some MODBUSMQ_CONNECTION_DEFAULT
      | Some s \<Rightarrow>
          (case strtol10 s of
             Some (n, []) \<Rightarrow> if n < 1 \<or> MODBUSMQ_CONNECTION_LIMIT < n then None else Some n
           | _ \<Rightarrow> None))"

section \<open>Sockets, slots and the broker\<close>

record sock =
  sk_in :: "byte list"
  sk_room :: nat
  sk_fault :: bool
  sk_out :: "byte list"

record modbusmq_connection_t =
  conn_fd :: int
  conn_msg :: modbusmq_msg_t
  last_rx_ms :: millitime_t

record emu =
  emu_mosq :: bool
  emu_connected :: bool
  emu_reconnect_at_ms :: millitime_t
  emu_prefix_text :: string

record server =
  sv_context :: modbusmq_context_t
  sv_config :: modbusmq_config_t
  connections :: "modbusmq_connection_t list"
  sv_socks :: "int \<Rightarrow> sock"
  sv_closed :: "int list"
  sv_emu :: emu

text \<open>What the calls into mosquitto give in one pass, and the messages \<open>mosquitto_loop_read\<close> delivers.\<close>

record mosq_round =
  mq_socket_before :: int
  mq_want_write :: bool
  mq_reconnect_ok :: bool
  mq_socket_after :: int
  mq_read_ok :: bool
  mq_messages :: "(string \<times> string) list"
  mq_write_ok :: bool

record select_round =
  sel_rc :: int
  sel_read :: "int list"
  sel_write :: "int list"
  sel_listening :: bool
  sel_accept :: int
  sel_arrived :: "int \<Rightarrow> byte list"
  sel_room :: "int \<Rightarrow> nat"
  sel_fault :: "int \<Rightarrow> bool"
  sel_mosq :: mosq_round

definition server_millitime :: "server \<Rightarrow> millitime_t \<times> server" where
  "server_millitime s = (let (now, c) = millitime (sv_context s) in (now, s\<lparr>sv_context := c\<rparr>))"

definition msg_zero :: modbusmq_msg_t where
  "msg_zero = \<lparr>msg_id = 0, req_id = 0, frame0 = frame_zero, frame1 = frame_zero\<rparr>"

definition connection_zero :: modbusmq_connection_t where
  "connection_zero = \<lparr>conn_fd = 0, conn_msg = msg_zero, last_rx_ms = 0\<rparr>"

definition set_conn :: "nat \<Rightarrow> modbusmq_connection_t \<Rightarrow> server \<Rightarrow> server" where
  "set_conn i k s = s\<lparr>connections := (connections s)[i := k]\<rparr>"

definition close_fd :: "int \<Rightarrow> server \<Rightarrow> server" where
  "close_fd n s = s\<lparr>sv_closed := sv_closed s @ [n]\<rparr>"

text \<open>A library call on descriptor \<open>n\<close>: the line of the context is that socket.\<close>

definition on_socket ::
    "int \<Rightarrow> (modbusmq_context_t \<Rightarrow> modbusmq_frame_t \<Rightarrow> int \<times> modbusmq_context_t \<times> modbusmq_frame_t) \<Rightarrow>
     server \<Rightarrow> modbusmq_frame_t \<Rightarrow> int \<times> server \<times> modbusmq_frame_t" where
  "on_socket n f s fr =
     (let k = sv_socks s n; c0 = sv_context s;
          (rc, c, fr) = f (c0\<lparr>line_in := sk_in k, line_room := sk_room k, line_fault := sk_fault k, line_out := sk_out k\<rparr>) fr
      in (rc, s\<lparr>sv_context := c\<lparr>line_in := line_in c0, line_room := line_room c0, line_fault := line_fault c0,
                                 line_out := line_out c0\<rparr>,
                sv_socks := (sv_socks s)(n := k\<lparr>sk_in := line_in c, sk_out := line_out c\<rparr>)\<rparr>, fr))"

section \<open>The broker connection\<close>

definition EMU_RECONNECT_INTERVAL_MS :: millitime_t where
  "EMU_RECONNECT_INTERVAL_MS = 1000"

definition emu_retry :: "server \<Rightarrow> server" where
  "emu_retry s =
     (let (now, s) = server_millitime s
      in s\<lparr>sv_emu := (sv_emu s)\<lparr>emu_reconnect_at_ms := now + EMU_RECONNECT_INTERVAL_MS\<rparr>\<rparr>)"

definition emu_lost :: "server \<Rightarrow> server" where
  "emu_lost s = emu_retry (s\<lparr>sv_emu := (sv_emu s)\<lparr>emu_connected := False\<rparr>\<rparr>)"

text \<open>The broker's socket in the read and the write set of \<open>select\<close>.\<close>

definition emu_fd_set :: "mosq_round \<Rightarrow> server \<Rightarrow> int list \<times> int list \<times> server" where
  "emu_fd_set q s =
     (let n = mq_socket_before q
      in if \<not> emu_mosq (sv_emu s) \<or> \<not> emu_connected (sv_emu s) then ([], [], s)
         else if n < 0 then ([], [], emu_lost s)
         else ([n], if mq_want_write q then [n] else [], s))"

fun emu_deliver :: "string \<Rightarrow> (string \<times> string) list \<Rightarrow> modbusmq_config_t \<Rightarrow> modbusmq_config_t option" where
  "emu_deliver pre [] cfg = Some cfg"
| "emu_deliver pre ((topic, payload) # ms) cfg =
     (case emu_message_callback pre topic payload cfg of None \<Rightarrow> None | Some cfg' \<Rightarrow> emu_deliver pre ms cfg')"

definition emu_service :: "mosq_round \<Rightarrow> int list \<Rightarrow> int list \<Rightarrow> server \<Rightarrow> server option" where
  "emu_service q read_set write_set s =
     (if \<not> emu_mosq (sv_emu s) then Some s
      else if \<not> emu_connected (sv_emu s) then
        (let (now, s) = server_millitime s
         in if now < emu_reconnect_at_ms (sv_emu s) then Some s
            else if \<not> mq_reconnect_ok q then Some (emu_retry s)
            else Some (s\<lparr>sv_emu := (sv_emu s)\<lparr>emu_connected := True\<rparr>\<rparr>))
      else if mq_socket_after q < 0 then Some (emu_lost s)
      else
        (case (if mq_socket_after q \<in> set read_set
               then map_option (\<lambda>cfg. s\<lparr>sv_config := cfg\<rparr>)
                      (emu_deliver (emu_prefix_text (sv_emu s)) (mq_messages q) (sv_config s))
               else Some s) of
           None \<Rightarrow> None
         | Some s \<Rightarrow>
             if mq_socket_after q \<in> set read_set \<and> \<not> mq_read_ok q then Some (emu_lost s)
             else if mq_socket_after q \<in> set write_set \<and> \<not> mq_write_ok q then Some (emu_lost s)
             else Some s))"

text \<open>
  \<open>emu_start\<close> with \<open>connect_ok\<close> from \<open>mosquitto_connect\<close>; \<open>None\<close> for the return code \<open>-1\<close>.
  Creating the client does not fail here.
\<close>

definition emu_connect_text :: "string \<Rightarrow> string" where
  "emu_connect_text text = fit 256 (if strstr text ''://'' then text else ''tcp://'' @ text)"

definition emu_start :: "string \<Rightarrow> string \<Rightarrow> bool \<Rightarrow> server \<Rightarrow> server option" where
  "emu_start text pre connect_ok s =
     (case modbusmq_parse_connect_string (emu_connect_text text) of
        Inl _ \<Rightarrow> None
      | Inr _ \<Rightarrow>
          (let s = s\<lparr>sv_emu := (sv_emu s)\<lparr>emu_mosq := True, emu_prefix_text := pre\<rparr>\<rparr>
           in Some (if connect_ok then s\<lparr>sv_emu := (sv_emu s)\<lparr>emu_connected := True\<rparr>\<rparr> else emu_retry s)))"

section \<open>Client slots\<close>

text \<open>A free slot, or the one to take from: the client not heard of for longest.\<close>

fun slot_loop :: "modbusmq_connection_t list \<Rightarrow> nat list \<Rightarrow> nat \<Rightarrow> nat option \<times> nat" where
  "slot_loop ks [] oldest = (None, oldest)"
| "slot_loop ks (i # is) oldest =
     (if conn_fd (ks ! i) = 0 then (Some i, oldest)
      else slot_loop ks is (if last_rx_ms (ks ! i) < last_rx_ms (ks ! oldest) then i else oldest))"

definition accept_client :: "int \<Rightarrow> server \<Rightarrow> server" where
  "accept_client new_fd s =
     (if new_fd < 0 then s
      else
        (let (free, oldest) = slot_loop (connections s) [0..<length (connections s)] 0;
             (slot, s) = (case free of
                 Some i \<Rightarrow> (i, s)
               | None \<Rightarrow> (oldest, close_fd (conn_fd (connections s ! oldest)) (snd (server_millitime s))));
             (now, s) = server_millitime s;
             m = msg_zero\<lparr>frame0 := frame_zero\<lparr>is_tcp := True\<rparr>,
                          frame1 := frame_zero\<lparr>is_writer := True, is_tcp := True\<rparr>\<rparr>
         in set_conn slot \<lparr>conn_fd = new_fd, conn_msg = m, last_rx_ms = now\<rparr> s))"

text \<open>What is asked of \<open>select\<close> for the clients: reading always, writing once a request is complete.\<close>

definition wants_write :: "modbusmq_context_t \<Rightarrow> modbusmq_connection_t \<Rightarrow> bool" where
  "wants_write c k \<longleftrightarrow>
     modbusmq_frame_incomplete c (frame0 (conn_msg k)) = 0 \<and> modbusmq_frame_incomplete c (frame1 (conn_msg k)) \<noteq> 0"

definition client_sets :: "server \<Rightarrow> int list \<times> int list" where
  "client_sets s =
     (let ks = filter (\<lambda>k. 0 < conn_fd k) (connections s)
      in (map conn_fd ks, map conn_fd (filter (wants_write (sv_context s)) ks)))"

section \<open>One client in one pass\<close>

text \<open>The flag is set when the rest of the pass is skipped for this client.\<close>

definition client_read :: "nat \<Rightarrow> server \<Rightarrow> (bool \<times> server) option" where
  "client_read i s =
     (let k = connections s ! i; m = conn_msg k
      in if modbusmq_frame_incomplete (sv_context s) (frame0 m) = 0 then Some (False, s)
         else
           (let (rc, s, f) = on_socket (conn_fd k) modbusmq_read s (frame0 m);
                m = m\<lparr>frame0 := f\<rparr>
            in if rc < 0 then
                 Some (True, set_conn i (k\<lparr>conn_msg := m\<rparr>)
                   (s\<lparr>sv_context := (sv_context s)\<lparr>err := err (sv_context s) + 1\<rparr>\<rparr>))
               else if rc = 0 then
                 (case link (sv_context s) of
                    Tcp _ \<Rightarrow> Some (False, set_conn i (k\<lparr>conn_msg := m, conn_fd := 0\<rparr>) (close_fd (conn_fd k) s))
                  | Rtu _ \<Rightarrow> Some (False, set_conn i (k\<lparr>conn_msg := m\<rparr>) s))
               else
                 (let (now, s) = server_millitime s; k = k\<lparr>last_rx_ms := now\<rparr>
                  in if xmit f = flength f then
                       map_option (\<lambda>m. (False, set_conn i (k\<lparr>conn_msg := m\<rparr>) s))
                         (modbusmq_prepare_response (sv_context s) (sv_config s) m)
                     else Some (False, set_conn i (k\<lparr>conn_msg := m\<rparr>) s))))"

definition client_write :: "nat \<Rightarrow> server \<Rightarrow> server" where
  "client_write i s =
     (let k = connections s ! i; m = conn_msg k
      in if modbusmq_frame_incomplete (sv_context s) (frame1 m) = 0 then s
         else
           (let (rc, s, f) = on_socket (conn_fd k) modbusmq_write s (frame1 m)
            in if rc < 0 then
                 set_conn i (k\<lparr>conn_msg := m\<lparr>frame1 := f\<rparr>, conn_fd := 0\<rparr>)
                   (close_fd (conn_fd k) (s\<lparr>sv_context := (sv_context s)\<lparr>err := err (sv_context s) + 1\<rparr>\<rparr>))
               else
                 (let (now, s) = server_millitime s;
                      s = s\<lparr>sv_context := (sv_context s)\<lparr>last_write_ms := now\<rparr>\<rparr>;
                      m = msg_zero\<lparr>frame1 := frame_zero\<lparr>is_writer := True\<rparr>\<rparr>;
                      m = (case link (sv_context s) of
                             Tcp _ \<Rightarrow> m | Rtu _ \<Rightarrow> m\<lparr>frame0 := (frame0 m)\<lparr>flength := 8\<rparr>\<rparr>)
                  in set_conn i (k\<lparr>conn_msg := m\<rparr>) s)))"

definition serve_client :: "int list \<Rightarrow> int list \<Rightarrow> nat \<Rightarrow> server \<Rightarrow> server option" where
  "serve_client read_set write_set i s =
     (let n = conn_fd (connections s ! i)
      in if n = 0 then Some s
         else
           (case (if n \<in> set read_set then client_read i s else Some (False, s)) of
              None \<Rightarrow> None
            | Some (skip, s) \<Rightarrow>
                if skip then Some s
                else if conn_fd (connections s ! i) \<in> set write_set then Some (client_write i s) else Some s))"

fun serve_clients :: "int list \<Rightarrow> int list \<Rightarrow> nat list \<Rightarrow> server \<Rightarrow> server option" where
  "serve_clients read_set write_set [] s = Some s"
| "serve_clients read_set write_set (i # is) s =
     (case serve_client read_set write_set i s of
        None \<Rightarrow> None
      | Some s' \<Rightarrow> serve_clients read_set write_set is s')"

section \<open>One pass\<close>

datatype server_result = Server_Exit | Server_Undefined | Server_On server

definition let_time_pass :: "select_round \<Rightarrow> server \<Rightarrow> server" where
  "let_time_pass e s =
     s\<lparr>sv_socks := (\<lambda>n. let k = sv_socks s n in
        k\<lparr>sk_in := sk_in k @ sel_arrived e n, sk_room := sel_room e n, sk_fault := sel_fault e n\<rparr>)\<rparr>"

definition server_pass :: "select_round \<Rightarrow> server \<Rightarrow> server_result" where
  "server_pass e s =
     (let (emu_read, emu_write, s) = emu_fd_set (sel_mosq e) s;
          (want_read, want_write) = client_sets s;
          ready = (\<lambda>asked ns. if sel_rc e = 0 then [] else filter (\<lambda>n. n \<in> set asked) ns);
          read_set = ready (emu_read @ want_read) (sel_read e);
          write_set = ready (emu_write @ want_write) (sel_write e);
          s = let_time_pass e s
      in if sel_rc e < 0 then Server_Exit
         else
           (case emu_service (sel_mosq e) read_set write_set s of
              None \<Rightarrow> Server_Undefined
            | Some s \<Rightarrow>
                if sel_rc e = 0 then Server_On s
                else
                  (let s = (if sel_listening e then accept_client (sel_accept e) s else s)
                   in case serve_clients read_set write_set [0..<length (connections s)] s of
                        None \<Rightarrow> Server_Undefined
                      | Some s \<Rightarrow> Server_On s)))"

end
