(* ===== verification/Bridge.thy ===== *)
theory Bridge
  imports Ack Server Raw Rounds Subscribe Config_Parse
begin

text \<open>
  The bridge, second half: messages from MQTT to writes on the bus, the arguments, the start
  and one pass of the main loop (programs/modbusmq.c).
\<close>

section \<open>Payloads\<close>

definition is_blank_of :: "string \<Rightarrow> char \<Rightarrow> bool" where
  "is_blank_of blanks ch \<longleftrightarrow> ch \<in> set blanks"

definition tab_blanks :: string where
  "tab_blanks = [CHR '' '', CHR 0x09]"

definition line_blanks :: string where
  "line_blanks = tab_blanks @ [CHR 0x0D, CHR 0x0A]"

definition quoted :: "string \<Rightarrow> string" where
  "quoted s = CHR 0x22 # s @ [CHR 0x22]"

text \<open>
  The value a payload asks for, or why it is refused, in the \<open>nwhy\<close> bytes of the caller. The
  conversion of a number to \<open>int\<close> is that of \<open>int_of_double\<close>.
\<close>

definition command_value :: "modbusmq_write_t \<Rightarrow> string \<Rightarrow> string + bool" where
  "command_value w payload =
     (if strcase_eq payload ''on'' \<or> strcase_eq payload ''true'' then Inr True
      else if strcase_eq payload ''off'' \<or> strcase_eq payload ''false'' then Inr False
      else
        (case strtod payload of
           Some (d, []) \<Rightarrow>
             (if int_of_double d = wr_on_value w then Inr True
              else if int_of_double d = wr_off_value w then Inr False
              else Inl (''payload '' @ quoted payload @ '' is neither on_value '' @ int_str (wr_on_value w)
                        @ '' nor off_value '' @ int_str (wr_off_value w)))
         | _ \<Rightarrow> Inl (''payload '' @ quoted payload @ '' is not a command'')))"

definition mqtt_payload_value :: "modbusmq_write_t \<Rightarrow> string \<Rightarrow> nat \<Rightarrow> string + fp" where
  "mqtt_payload_value w payload nwhy =
     (let payload = dropWhile (is_blank_of tab_blanks) payload
      in map_sum (fit nwhy) id
           (if payload = [] then Inl ''empty payload''
            else if wr_has_on_value w then
              map_sum id (\<lambda>on. fp_of_int binary64 (if on then wr_on_value w else wr_off_value w)) (command_value w payload)
            else
              (case strtod payload of
                 None \<Rightarrow> Inl (''payload '' @ quoted payload @ '' is not a number'')
               | Some (d, rest) \<Rightarrow>
                   if dropWhile (is_blank_of line_blanks) rest \<noteq> []
                   then Inl (''payload '' @ quoted payload @ '' has trailing junk'') else Inr d)))"

text \<open>
  The numbers of a list. Each round takes a number, so the length of the text is enough fuel;
  the rest of the text comes back with them.
\<close>

fun block_numbers :: "nat \<Rightarrow> nat \<Rightarrow> string \<Rightarrow> string \<Rightarrow> fp list \<Rightarrow> string + (fp list \<times> string)" where
  "block_numbers 0 nmax payload p vs = Inr (vs, p)"
| "block_numbers (Suc fuel) nmax payload p vs =
     (let p = dropWhile (is_blank_of (CHR '','' # line_blanks)) p
      in if p = [] \<or> hd p = CHR '']'' then Inr (vs, p)
         else if nmax \<le> length vs then Inl (''more values than the '' @ nat_str nmax @ '' this block holds'')
         else
           (case strtod p of
              None \<Rightarrow> Inl (''payload '' @ quoted payload @ '' is not a list of numbers'')
            | Some (d, rest) \<Rightarrow> block_numbers fuel nmax payload rest (vs @ [d])))"

text \<open>\<open>None\<close> in place of the values is the trigger form, the return code 0.\<close>

definition mqtt_payload_block :: "modbusmq_write_t \<Rightarrow> string \<Rightarrow> nat \<Rightarrow> nat \<Rightarrow> string + fp list option" where
  "mqtt_payload_block w payload nmax nwhy =
     (let p = dropWhile (is_blank_of line_blanks) payload
      in map_sum (fit nwhy) id
           (if p = [] \<or> strcase_eq p ''default'' \<or> strcase_eq p ''defaults'' then
              if \<not> wr_has_defaults w
              then Inl ''no value list, and not every channel has a default to fall back on'' else Inr None
            else
              (case block_numbers (Suc (length p)) nmax payload (if hd p = CHR ''['' then tl p else p) [] of
                 Inl why \<Rightarrow> Inl why
               | Inr (vs, rest) \<Rightarrow>
                   if dropWhile (is_blank_of (CHR '']'' # line_blanks)) rest \<noteq> []
                   then Inl (''payload '' @ quoted payload @ '' has trailing junk'')
                   else if length vs \<noteq> length (wr_channels w)
                   then Inl (nat_str (length vs) @ '' value(s) for a block of ''
                             @ nat_str (length (wr_channels w)) @ '' channels'')
                   else Inr (Some vs))))"

section \<open>Printing with \<open>%.6g\<close>\<close>

text \<open>The decimal exponent of a positive number.\<close>

definition dec_exponent :: "rat \<Rightarrow> int" where
  "dec_exponent r =
     (if 1 \<le> r then int (length (nat_str (nat \<lfloor>r\<rfloor>))) - 1
      else let k = length (nat_str (nat \<lfloor>1 / r\<rfloor>))
           in if r * 10 ^ (k - 1) = 1 then - int (k - 1) else - int k)"

definition drop_zeros :: "string \<Rightarrow> string" where
  "drop_zeros s = rev (dropWhile (\<lambda>ch. ch = CHR ''0'') (rev s))"

text \<open>Six digits \<open>ds\<close> of which the first has the weight \<open>10 ^ x\<close>.\<close>

definition general_digits :: "string \<Rightarrow> int \<Rightarrow> string" where
  "general_digits ds x =
     (let point = (\<lambda>a b. if b = [] then a else a @ ''.'' @ b)
      in if -4 \<le> x \<and> x < 6 then
           (if 0 \<le> x then point (take (nat x + 1) ds) (drop_zeros (drop (nat x + 1) ds))
            else point ''0'' (drop_zeros (replicate (nat (- x) - 1) (CHR ''0'') @ ds)))
         else point (take 1 ds) (drop_zeros (drop 1 ds)) @ ''e''
              @ (if x < 0 then ''-'' else ''+'') @ pad_left 2 (nat_str (nat \<bar>x\<bar>)))"

definition print_general :: "fp \<Rightarrow> string" where
  "print_general v = (case v of
      FNaN \<Rightarrow> ''nan''
    | FInf s \<Rightarrow> (if s then ''-inf'' else ''inf'')
    | FNum s r \<Rightarrow>
        (if s then ''-'' else []) @
        (if r = 0 then ''0''
         else let x = dec_exponent r; m = round_even (r * 10 powi (5 - x))
              in if m = 1000000 then general_digits ''100000'' (x + 1)
                 else general_digits (nat_str (nat m)) x))"

section \<open>Posting a write\<close>

text \<open>What the ack reports of a block, in a buffer of 96 bytes.\<close>

fun written_loop :: "string \<Rightarrow> fp list \<Rightarrow> string" where
  "written_loop out [] = out"
| "written_loop out (v # vs) =
     (let out' = out @ (if out = [] then [] else '','') @ print_general v
      in if 96 \<le> length out' then fit 96 out' else written_loop out' vs)"

definition empty_msg :: "modbusmq_frame_t \<Rightarrow> modbusmq_msg_t" where
  "empty_msg f = \<lparr>msg_id = 0, req_id = 0, frame0 = f, frame1 = frame_zero\<rparr>"

definition reject_write :: "modbusmq_write_t \<Rightarrow> string \<Rightarrow> string \<Rightarrow> bridge \<Rightarrow> (int \<times> bridge) option" where
  "reject_write w reason message b = Some (-1, mqtt_write_nack w 0 reason message 0 b)"

definition queue_write :: "modbusmq_write_t \<Rightarrow> nat \<Rightarrow> modbusmq_frame_t \<Rightarrow> string \<Rightarrow> bridge \<Rightarrow> (int \<times> bridge) option" where
  "queue_write w index f written b =
     (let (rc, c, m) = modbusmq_post (br_context b) (empty_msg f); b = b\<lparr>br_context := c\<rparr>
      in if rc \<noteq> 0 then reject_write w ''queue'' ''the request could not be queued'' b
         else Some (0, if wr_ack w then pending_write_add (req_id m) index written b else b))"

text \<open>\<open>values = None\<close> for a block's configured values; \<open>None\<close> as the result is undefined behaviour.\<close>

definition post_block :: "modbusmq_write_t \<Rightarrow> nat \<Rightarrow> fp list option \<Rightarrow> bridge \<Rightarrow> (int \<times> bridge) option" where
  "post_block w index vs b =
     (case modbusmq_write_encode_block w vs 123 of
        Inl Undefined \<Rightarrow> None
      | Inl Refused \<Rightarrow> reject_write w ''encode'' ''a value does not fit its channel format'' b
      | Inr regs \<Rightarrow>
          (case modbusmq_frame_write_registers (br_context b) frame_zero (wr_address w) (int (length regs)) regs of
             None \<Rightarrow> None
           | Some (_, f) \<Rightarrow>
               queue_write w index f
                 (written_loop [] (case vs of None \<Rightarrow> map wc_value (wr_channels w) | Some vs \<Rightarrow> vs)) b))"

definition post_coil :: "modbusmq_write_t \<Rightarrow> nat \<Rightarrow> fp \<Rightarrow> bridge \<Rightarrow> (int \<times> bridge) option" where
  "post_coil w index v b =
     (let on = (if wr_has_on_value w then int_of_double v = wr_on_value w else \<not> fp_is_zero v);
          value = (if on then 1 else 0);
          (_, f) = modbusmq_frame_write_coil_bit (br_context b) (wr_address w) value
      in queue_write w index f (int_str value) b)"

definition post_registers :: "modbusmq_write_t \<Rightarrow> nat \<Rightarrow> fp \<Rightarrow> bridge \<Rightarrow> (int \<times> bridge) option" where
  "post_registers w index v b =
     (case modbusmq_write_encode w v of
        Inl Undefined \<Rightarrow> None
      | Inl Refused \<Rightarrow> reject_write w ''encode'' ''the value does not fit the configured format'' b
      | Inr regs \<Rightarrow>
          (if length regs = 1 \<and> wr_function w \<noteq> 0x10 then
             (let (_, f) = modbusmq_frame_write_register (br_context b) (wr_address w) (uint (regs ! 0))
              in queue_write w index f (fit 96 (print_general v)) b)
           else
             (case modbusmq_frame_write_registers (br_context b) frame_zero (wr_address w) (int (length regs)) regs of
                None \<Rightarrow> None
              | Some (_, f) \<Rightarrow> queue_write w index f (fit 96 (print_general v)) b)))"

definition modbus_write_post :: "modbusmq_write_t \<Rightarrow> nat \<Rightarrow> fp list option \<Rightarrow> bridge \<Rightarrow> (int \<times> bridge) option" where
  "modbus_write_post w index vs b =
     (if \<not> modbus_connected b then reject_write w ''offline'' ''not connected to the device'' b
      else
        let b = b\<lparr>br_context := modbusmq_set_slave (wr_slave w) (br_context b)\<rparr>
        in if wr_channels w \<noteq> [] then post_block w index vs b
           else if wr_function w = 0x05 then post_coil w index (hd (the vs)) b
           else post_registers w index (hd (the vs)) b)"

section \<open>Messages from the broker\<close>

definition deliver_write :: "string \<Rightarrow> nat \<Rightarrow> modbusmq_write_t \<Rightarrow> bridge \<Rightarrow> bridge option" where
  "deliver_write payload index w b =
     (if wr_channels w \<noteq> [] then
        (case mqtt_payload_block w payload 123 160 of
           Inl why \<Rightarrow> Some (mqtt_write_nack w 0 ''payload'' why 0 b)
         | Inr vs \<Rightarrow> map_option snd (modbus_write_post w index vs b))
      else
        (case mqtt_payload_value w payload 160 of
           Inl why \<Rightarrow> Some (mqtt_write_nack w 0 ''payload'' why 0 b)
         | Inr v \<Rightarrow> map_option snd (modbus_write_post w index (Some [v]) b)))"

fun deliver_writes :: "string \<Rightarrow> string \<Rightarrow> nat list \<Rightarrow> bridge \<Rightarrow> bridge option" where
  "deliver_writes topic payload [] b = Some b"
| "deliver_writes topic payload (i # is) b =
     (let w = cfg_writes (br_config b) ! i
      in if wr_topic w \<noteq> Some topic then deliver_writes topic payload is b
         else case deliver_write payload i w b of
                None \<Rightarrow> None
              | Some b' \<Rightarrow> deliver_writes topic payload is b')"

definition bridge_context :: "modbusmq_context_t \<Rightarrow> bridge \<Rightarrow> bridge" where
  "bridge_context c b = b\<lparr>br_context := c\<rparr>"

definition mqtt_message_callback :: "string \<Rightarrow> string \<Rightarrow> bridge \<Rightarrow> bridge option" where
  "mqtt_message_callback topic payload b =
     (if 1024 \<le> length payload then Some b
      else
        let payload = c_string payload
        in if topic = raw_topic (br_config b) [] then
             map_option (\<lambda>(rc, c). run_callbacks (bridge_context c b)) (modbusmq_raw_request (br_context b) payload)
           else deliver_writes topic payload [0..<length (cfg_writes (br_config b))] b)"

text \<open>\<open>ok\<close> is whether the broker's library takes a subscription; the result is the return code.\<close>

definition mqtt_subscribe_writes :: "(string \<Rightarrow> bool) \<Rightarrow> bridge \<Rightarrow> int \<times> bridge" where
  "mqtt_subscribe_writes ok b =
     (let topics = map the (filter (\<lambda>t. t \<noteq> None) (map wr_topic (cfg_writes (br_config b)))) @ [raw_topic (br_config b) []]
      in (if list_all ok topics then 0 else -1, b\<lparr>subscribed := subscribed b @ topics\<rparr>))"

section \<open>Arguments\<close>

record bridge_args =
  ba_config_filename :: "string option"
  ba_overrides :: "string list"
  ba_verbose :: nat

fun bridge_args_loop :: "string list \<Rightarrow> bridge_args \<Rightarrow> bridge_args parsed_args" where
  "bridge_args_loop [] g = Args_Ok g"
| "bridge_args_loop (a # rest) g =
     (if a = ''-h'' \<or> a = ''--help'' then Args_Stop
      else if strstr a ''--v'' then Args_Stop
      else if a = ''-c'' \<or> a = ''--config'' then
        (case rest of
           [] \<Rightarrow> Args_Fail
         | f # rest' \<Rightarrow> if 300 \<le> length f then Args_Fail else bridge_args_loop rest' (g\<lparr>ba_config_filename := Some f\<rparr>))
      else if a = ''-e'' then
        (case rest of
           [] \<Rightarrow> Args_Fail
         | e # rest' \<Rightarrow>
             if \<not> key_value e then Args_Fail
             else if MAX_CONFIG_OVERRIDES \<le> length (ba_overrides g) then Args_Fail
             else bridge_args_loop rest' (g\<lparr>ba_overrides := ba_overrides g @ [e]\<rparr>))
      else if a = ''-v'' then bridge_args_loop rest (g\<lparr>ba_verbose := Suc (ba_verbose g)\<rparr>)
      else bridge_args_loop rest g)"

definition bridge_parse_argv :: "string list \<Rightarrow> bridge_args parsed_args" where
  "bridge_parse_argv args =
     (case bridge_args_loop args \<lparr>ba_config_filename = None, ba_overrides = [], ba_verbose = 0\<rparr> of
        Args_Ok g \<Rightarrow> if ba_config_filename g = None then Args_Fail else Args_Ok g
      | r \<Rightarrow> r)"

section \<open>Start\<close>

definition MQTT_RECONNECT_INTERVAL_MS :: millitime_t where
  "MQTT_RECONNECT_INTERVAL_MS = 5000"

definition MODBUS_RECONNECT_INTERVAL_MS :: millitime_t where
  "MODBUS_RECONNECT_INTERVAL_MS = 5000"

text \<open>The poll request of an input; one of no known type stays an empty frame.\<close>

definition input_request :: "modbusmq_context_t \<Rightarrow> modbusmq_input_t \<Rightarrow> modbusmq_frame_t" where
  "input_request c i =
     (let address = in_address i + in_address_offset i; n = in_naddress i
      in if in_type i = 3 then snd (modbusmq_frame_read_holding_registers c address n)
         else if in_type i = 4 then snd (modbusmq_frame_read_input_registers c address n)
         else if in_type i = 1 then snd (modbusmq_frame_read_coil_bits c address n)
         else if in_type i = 2 then snd (modbusmq_frame_read_input_bits c address n)
         else frame_zero)"

fun subscribe_inputs :: "modbusmq_input_t list \<Rightarrow> modbusmq_context_t \<Rightarrow> modbusmq_context_t option" where
  "subscribe_inputs [] c = Some c"
| "subscribe_inputs (i # is) c =
     (let c = modbusmq_set_slave (in_slave i) c
      in case modbusmq_subscribe c (empty_msg (input_request c i)) (in_interval i) of
           None \<Rightarrow> None
         | Some (rc, c') \<Rightarrow> subscribe_inputs is c')"

text \<open>
  From the connected context on: settings, the first connection to the device by \<open>open_link\<close>
  and to the broker, subscriptions. \<open>None\<close> where a subscription would leave its buffers.
\<close>

definition apply_settings :: "modbusmq_config_t \<Rightarrow> modbusmq_context_t \<Rightarrow> modbusmq_context_t" where
  "apply_settings cfg c =
     (let c = modbusmq_set_config (Some cfg) c;
          c = (if 0 < cfg_rts_delay_us cfg then snd (modbusmq_rtu_rts_delay c (cfg_rts_delay_us cfg)) else c)
      in if 0 < cfg_frame_timeout_ms cfg then snd (modbusmq_frame_timeout (cfg_frame_timeout_ms cfg) c) else c)"

definition connect_device ::
    "(modbusmq_context_t \<Rightarrow> int \<times> modbusmq_context_t) \<Rightarrow> bridge \<Rightarrow> bridge" where
  "connect_device open_link b =
     (let (rc, c) = modbusmq_connect open_link (br_context b); b = bridge_context c b
      in if rc < 0 then
           (let (now, b) = bridge_millitime b
            in b\<lparr>modbus_connected := False, modbus_reconnect_at_ms := now + MODBUS_RECONNECT_INTERVAL_MS\<rparr>)
         else b\<lparr>modbus_connected := True\<rparr>)"

definition broker_connected :: "(string \<Rightarrow> bool) \<Rightarrow> bridge \<Rightarrow> bridge" where
  "broker_connected ok b =
     (let b = snd (mqtt_subscribe_writes ok (b\<lparr>mqtt_connected := True\<rparr>))
      in b\<lparr>br_config := modbusmq_config_reset_publish_state (br_config b)\<rparr>)"

definition connect_broker :: "bool \<Rightarrow> (string \<Rightarrow> bool) \<Rightarrow> bridge \<Rightarrow> bridge" where
  "connect_broker connect_ok ok b =
     (if \<not> has_mqtt b then b
      else if \<not> connect_ok then
        (let (now, b) = bridge_millitime b
         in b\<lparr>mqtt_connected := False, mqtt_reconnect_at_ms := now + MQTT_RECONNECT_INTERVAL_MS\<rparr>)
      else broker_connected ok b)"

definition bridge_start ::
    "(modbusmq_context_t \<Rightarrow> int \<times> modbusmq_context_t) \<Rightarrow> bool \<Rightarrow> (string \<Rightarrow> bool) \<Rightarrow> bridge \<Rightarrow> bridge option" where
  "bridge_start open_link connect_ok ok b =
     (let cfg = br_config b;
          b = b\<lparr>has_mqtt := (case mqtt_connect cfg of None \<Rightarrow> False | Some s \<Rightarrow> s \<noteq> [])\<rparr>;
          b = connect_device open_link (bridge_context (apply_settings cfg (br_context b)) b);
          b = bridge_context ((br_context b)\<lparr>has_message_cb := True, has_subscribe_cb := True, has_error_cb := True\<rparr>) b;
          b = connect_broker connect_ok ok b
      in map_option (\<lambda>c. bridge_context c b) (subscribe_inputs (inputs (br_config b)) (br_context b)))"

section \<open>One pass of the main loop\<close>

text \<open>
  What a pass learns from outside: how \<open>poll\<close> returns and with which events, what has arrived
  on the bus and the room for writing, how opening the device goes, and what the calls into
  mosquitto give, with the messages delivered while it reads.
\<close>

record bridge_round =
  poll_rc :: int
  modbus_revents :: int
  mqtt_ready :: bool
  bus_arrived :: "byte list"
  bus_room :: nat
  bus_fault :: bool
  open_device :: "modbusmq_context_t \<Rightarrow> int \<times> modbusmq_context_t"
  mosq_socket :: int
  mosq_reconnect_ok :: bool
  mosq_subscribe_ok :: "string \<Rightarrow> bool"
  mosq_read_rc :: int
  mosq_messages :: "(string \<times> string) list"

definition until :: "millitime_t \<Rightarrow> millitime_t \<Rightarrow> millitime_t" where
  "until t now = (if now < t then t - now else 0)"

text \<open>The library is left, the queue reported as lost, and a new connection due in a while.\<close>

definition drop_device :: "millitime_t \<Rightarrow> bridge \<Rightarrow> bridge" where
  "drop_device now b =
     (run_callbacks (bridge_context (modbusmq_reset_queue (br_context b)) b))
       \<lparr>modbus_connected := False, modbus_reconnect_at_ms := now + MODBUS_RECONNECT_INTERVAL_MS\<rparr>"

text \<open>Before \<open>poll\<close>: whether the device is in the set, and how long to sleep.\<close>

definition prepare_device :: "millitime_t \<Rightarrow> millitime_t \<Rightarrow> bridge \<Rightarrow> bool \<times> int \<times> millitime_t \<times> bridge" where
  "prepare_device time_now millisleep b =
     (if modbus_connected b then
        (let (n, c, millisleep, evs) = modbusmq_loop_prepare (br_context b) millisleep;
             b = run_callbacks (bridge_context c b)
         in if n < 0 then (False, 0, millisleep, drop_device time_now b)
            else (True, evs OR POLLERR OR POLLHUP, millisleep, b))
      else (False, 0, min (until (modbus_reconnect_at_ms b) time_now) millisleep, b))"

definition prepare_broker :: "bridge_round \<Rightarrow> millitime_t \<Rightarrow> millitime_t \<Rightarrow> bridge \<Rightarrow> bool \<times> millitime_t" where
  "prepare_broker e time_now millisleep b =
     (if \<not> has_mqtt b then (False, millisleep)
      else if mqtt_connected b then (0 \<le> mosq_socket e, millisleep)
      else (False, min (until (mqtt_reconnect_at_ms b) time_now) millisleep))"

text \<open>After it: the device, then the broker.\<close>

definition let_bus_run :: "bridge_round \<Rightarrow> bridge \<Rightarrow> bridge" where
  "let_bus_run e b =
     (let c = br_context b
      in bridge_context (c\<lparr>line_in := line_in c @ bus_arrived e, line_room := bus_room e, line_fault := bus_fault e\<rparr>) b)"

definition handle_device :: "bridge_round \<Rightarrow> bool \<Rightarrow> int \<Rightarrow> millitime_t \<Rightarrow> bridge \<Rightarrow> bridge" where
  "handle_device e polled evs time_now b =
     (if modbus_connected b then
        (let revents = modbus_revents e AND evs
         in if polled \<and> has_event revents (POLLIN OR POLLOUT OR POLLERR OR POLLHUP) then
              (let (rc, c) = modbusmq_loop_write_read (br_config b) (br_context b) revents; b = run_callbacks (bridge_context c b)
               in if rc < 0 \<and> rc \<noteq> MODBUSMQ_ERR_PROTOCOL then
                    (let b = drop_device 0 (bridge_context (snd (modbusmq_close (br_context b))) b);
                         (now, b) = bridge_millitime b
                     in b\<lparr>modbus_reconnect_at_ms := now + MODBUS_RECONNECT_INTERVAL_MS\<rparr>)
                  else b)
            else b)
      else if modbus_reconnect_at_ms b \<le> time_now then
        (let (rc, c) = modbusmq_connect (open_device e) (br_context b);
             b = (bridge_context c b)\<lparr>modbus_reconnect_at_ms := time_now + MODBUS_RECONNECT_INTERVAL_MS\<rparr>
         in if rc = 0 then b\<lparr>modbus_connected := True\<rparr> else b)
      else b)"

definition mqtt_try_reconnect :: "bridge_round \<Rightarrow> bridge \<Rightarrow> int \<times> bridge" where
  "mqtt_try_reconnect e b =
     (let (now, b) = bridge_millitime b
      in if now < mqtt_reconnect_at_ms b then (0, b)
         else
           let b = b\<lparr>mqtt_reconnect_at_ms := now + MQTT_RECONNECT_INTERVAL_MS\<rparr>
           in if mosq_reconnect_ok e then (1, broker_connected (mosq_subscribe_ok e) b) else (0, b))"

definition broker_lost :: "bridge \<Rightarrow> bridge" where
  "broker_lost b =
     (let (now, b) = bridge_millitime b
      in b\<lparr>mqtt_connected := False, mqtt_reconnect_at_ms := now + MQTT_RECONNECT_INTERVAL_MS\<rparr>)"

fun deliver_messages :: "(string \<times> string) list \<Rightarrow> bridge \<Rightarrow> bridge option" where
  "deliver_messages [] b = Some b"
| "deliver_messages ((topic, payload) # ms) b =
     (case mqtt_message_callback topic payload b of None \<Rightarrow> None | Some b' \<Rightarrow> deliver_messages ms b')"

definition handle_broker :: "bridge_round \<Rightarrow> bool \<Rightarrow> bridge \<Rightarrow> bridge option" where
  "handle_broker e polled b =
     (if \<not> has_mqtt b then Some b
      else if \<not> mqtt_connected b then Some (snd (mqtt_try_reconnect e b))
      else if mosq_socket e < 0 then Some (broker_lost b)
      else if polled \<and> mqtt_ready e then
        map_option (\<lambda>b. if mosq_read_rc e = MOSQ_ERR_CONN_LOST \<or> mosq_read_rc e = MOSQ_ERR_NO_CONN
                        then broker_lost b else b)
          (deliver_messages (mosq_messages e) b)
      else Some b)"

datatype bridge_result = Bridge_Exit | Bridge_Undefined | Bridge_On bridge

definition bridge_pass :: "bridge_round \<Rightarrow> bridge \<Rightarrow> bridge_result" where
  "bridge_pass e b =
     (let (time_now, b) = bridge_millitime b;
          (polled, evs, millisleep, b) = prepare_device time_now 1000 b;
          (mqtt_polled, millisleep) = prepare_broker e time_now millisleep b
      in if poll_rc e < 0 then Bridge_Exit
         else
           (let (time_now, b) = bridge_millitime (let_bus_run e b)
            in case handle_broker e mqtt_polled (handle_device e polled evs time_now b) of
                 None \<Rightarrow> Bridge_Undefined
               | Some b \<Rightarrow> Bridge_On b))"

end
