(* ===== verification/Tools.thy ===== *)
theory Tools
  imports Bridge Send
begin

text \<open>
  The command line tools: the configuration checker with its conversion of old keys
  (programs/modbusmq_config.c) and the query tool (programs/modbusmq_query.c). Printing is left
  out; what is printed as a result is the value of the definition.
\<close>

section \<open>Old keys\<close>

definition renamed_keys :: "(string \<times> string) list" where
  "renamed_keys =
     [(''modbusmq.frame_timeout'', ''modbusmq.frame_timeout_ms''),
      (''modbusmq.rts_delay'', ''modbusmq.rts_delay_us''),
      (''modbusmq.slave_retry_max'', ''modbusmq.slave_retry_max_ms''),
      (''modbusmq.request_gap'', ''modbusmq.frame_delay_ms'')]"

definition interval_suffixes :: "string list" where
  "interval_suffixes = [''.interval'', ''.min_interval'', ''.max_interval'', ''.round_interval'']"

definition ends_with :: "string \<Rightarrow> string \<Rightarrow> bool" where
  "ends_with key suff \<longleftrightarrow> length suff \<le> length key \<and> drop (length key - length suff) key = suff"

definition renamed_key :: "string \<Rightarrow> string option" where
  "renamed_key key =
     (case map_of renamed_keys key of
        Some new \<Rightarrow> Some (fit 264 new)
      | None \<Rightarrow> if list_ex (ends_with key) interval_suffixes then Some (fit 264 (key @ ''_ms'')) else None)"

text \<open>The line as it goes out, and whether its key was renamed.\<close>

definition key_end :: "char \<Rightarrow> bool" where
  "key_end ch \<longleftrightarrow> ch \<in> {CHR '' '', CHR 0x09, CHR ''='', CHR 0x0D, CHR 0x0A}"

definition convert_line :: "string \<Rightarrow> string \<times> bool" where
  "convert_line line =
     (let lead = takeWhile (is_blank_of tab_blanks) line;
          start = dropWhile (is_blank_of tab_blanks) line;
          key = takeWhile (\<lambda>ch. \<not> key_end ch) start;
          rest = dropWhile (\<lambda>ch. \<not> key_end ch) start
      in if take 1 start = ''#'' \<or> key = [] \<or> CHR ''='' \<notin> set rest \<or> 256 \<le> length key then (line, False)
         else case renamed_key key of
                None \<Rightarrow> (line, False)
              | Some new \<Rightarrow> (lead @ new @ rest, True))"

definition convert_text :: "string \<Rightarrow> string \<times> nat" where
  "convert_text text =
     (let ls = map convert_line (split_lines text) in (concat (map fst ls), length (filter snd ls)))"

section \<open>The checker\<close>

record config_args =
  ca_filename :: "string option"
  ca_convert :: bool
  ca_allow_unknown :: bool

fun config_args_loop :: "string list \<Rightarrow> config_args \<Rightarrow> config_args parsed_args" where
  "config_args_loop [] g = (if ca_filename g = None then Args_Fail else Args_Ok g)"
| "config_args_loop (a # rest) g =
     (if a = ''-h'' \<or> a = ''--help'' then Args_Stop
      else if a = ''--version'' then Args_Stop
      else if a = ''--convert'' then config_args_loop rest (g\<lparr>ca_convert := True\<rparr>)
      else if a = ''--allow-unknown'' then config_args_loop rest (g\<lparr>ca_allow_unknown := True\<rparr>)
      else case rest of
             f # rest' \<Rightarrow> if a = ''-c'' then config_args_loop rest' (g\<lparr>ca_filename := Some f\<rparr>) else Args_Fail
           | [] \<Rightarrow> Args_Fail)"

text \<open>The prefixes of \<open>config.foreign\<close> and the unknown keys, gathered while the parse runs.\<close>

fun unknown_handler :: "nat \<times> string \<times> string \<Rightarrow> string \<times> (nat \<times> string) list \<Rightarrow> string \<times> (nat \<times> string) list" where
  "unknown_handler (line, key, value) (foreign, unknown) =
     (if key = ''config.foreign'' then (foreign @ '' '' @ value, unknown) else (foreign, unknown @ [(line, key)]))"

definition foreign_sep :: "char \<Rightarrow> bool" where
  "foreign_sep ch \<longleftrightarrow> ch = CHR '' '' \<or> ch = CHR '',''"

function is_foreign :: "string \<Rightarrow> string \<Rightarrow> bool" where
  "is_foreign foreign key =
     (let p = dropWhile foreign_sep foreign; t = takeWhile (\<lambda>ch. \<not> foreign_sep ch) p
      in if p = [] then False
         else if take (length t) key = t then True
         else is_foreign (drop (length t) p) key)"
  by pat_completeness auto
termination
proof (relation "measure (\<lambda>(foreign, key). length foreign)", goal_cases)
  case (2 foreign key p t)
  have sep: "\<not> foreign_sep (hd p)" using 2(1,3) hd_dropWhile[of foreign_sep foreign] by simp
  have "t \<noteq> []" using sep 2(2,3) by (cases p) auto
  then have "0 < length t" by simp
  moreover have "length p \<le> length foreign" using 2(1) by (simp add: length_dropWhile_le)
  moreover have "0 < length p" using 2(3) by simp
  ultimately have "length p - length t < length foreign" by linarith
  then show ?case by simp
qed simp

declare is_foreign.simps [simp del]

definition report_unknown :: "bool \<Rightarrow> string \<Rightarrow> (nat \<times> string) list \<Rightarrow> nat" where
  "report_unknown allow foreign unknown =
     (if allow then 0 else length (filter (\<lambda>(line, key). \<not> is_foreign foreign key) unknown))"

definition check_config :: "modbusmq_config_t \<Rightarrow> nat" where
  "check_config cfg = (if cfg_frame_timeout_ms cfg \<le> frame_delay_ms cfg then 1 else 0)"

text \<open>
  The exit code, and what \<open>--convert\<close> prints. \<open>nlog\<close> is the number of lines the library logs
  while it parses.
\<close>

definition config_tool :: "config_args \<Rightarrow> nat \<Rightarrow> string \<Rightarrow> int \<times> string" where
  "config_tool g nlog text =
     (let text' = (if ca_convert g then fst (convert_text text) else text)
      in (case (if ca_convert g then modbusmq_config_parse_text [] text' config_zero
                else config_parse_stream [] (split_lines text') config_zero) of
            None \<Rightarrow> -1
          | Some (cfg, ps) \<Rightarrow>
              (let (foreign, unknown) = fold unknown_handler (unknown_keys ps) ([], []);
                   warnings = nlog + report_unknown (ca_allow_unknown g) foreign unknown + check_config cfg
               in if 0 < warnings then 1 else 0),
          if ca_convert g then text' else []))"

section \<open>The query tool\<close>

record query_args =
  qa_connect :: "string option"
  qa_slave :: int
  qa_input :: int
  qa_addr :: int
  qa_naddr :: int
  qa_output_size :: int
  qa_verbose :: nat
  qa_dry_run :: bool
  qa_is_write :: bool
  qa_write_value :: fp
  qa_format :: modbusmq_data_format_e
  qa_mod :: int
  qa_mul :: int
  qa_add :: int
  qa_function :: int
  qa_prefix :: "string option"
  qa_raw :: "string option"
  qa_timeout_ms :: int

definition query_args_zero :: query_args where
  "query_args_zero =
     \<lparr>qa_connect = None, qa_slave = -1, qa_input = 0, qa_addr = -1, qa_naddr = 0, qa_output_size = 0,
      qa_verbose = 0, qa_dry_run = False, qa_is_write = False, qa_write_value = fzero,
      qa_format = format_unknown, qa_mod = 0, qa_mul = 0, qa_add = 0, qa_function = 0, qa_prefix = None,
      qa_raw = None, qa_timeout_ms = 0\<rparr>"

text \<open>A flag with its value; \<open>None\<close> is refused.\<close>

definition query_flags :: "string list" where
  "query_flags = [''--write'', ''--format'', ''--mod'', ''--mul'', ''--add'', ''--function'', ''--prefix'', ''--raw'', ''--timeout'']"

definition query_flag :: "string \<Rightarrow> string \<Rightarrow> query_args \<Rightarrow> query_args option" where
  "query_flag flag v g =
     (if flag = ''--write'' then
        (case strtod v of Some (x, []) \<Rightarrow> Some (g\<lparr>qa_write_value := x, qa_is_write := True\<rparr>) | _ \<Rightarrow> None)
      else if flag = ''--format'' then
        (let f = modbusmq_config_dataformat v
         in if f = format_unknown then None else if modbusmq_format_is_text f then None else Some (g\<lparr>qa_format := f\<rparr>))
      else if flag = ''--prefix'' then Some (g\<lparr>qa_prefix := Some v\<rparr>)
      else if flag = ''--raw'' then Some (g\<lparr>qa_raw := Some v\<rparr>)
      else if flag = ''--mod'' then Some (g\<lparr>qa_mod := int_of_strtol v\<rparr>)
      else if flag = ''--mul'' then Some (g\<lparr>qa_mul := int_of_strtol v\<rparr>)
      else if flag = ''--add'' then Some (g\<lparr>qa_add := int_of_strtol v\<rparr>)
      else if flag = ''--function'' then
        (let f = modbusmq_config_write_function v in if f = 0 then None else Some (g\<lparr>qa_function := f\<rparr>))
      else
        (let t = int_of_strtol v in if t \<le> 0 then None else Some (g\<lparr>qa_timeout_ms := t\<rparr>)))"

fun query_args_loop :: "string list \<Rightarrow> query_args \<Rightarrow> query_args parsed_args" where
  "query_args_loop [] g = Args_Ok g"
| "query_args_loop (a # rest) g =
     (if a = ''-h'' \<or> a = ''--help'' then Args_Stop
      else if take 7 a = ''mqtt://'' \<or> strstr a ''tcp'' \<or> strstr a ''rtu''
      then query_args_loop rest (g\<lparr>qa_connect := Some a\<rparr>)
      else if strstr a ''--v'' then Args_Stop
      else if qa_slave g < 0 \<and> take 2 a \<noteq> ''--''
      then query_args_loop rest (g\<lparr>qa_slave := int_of_double (double_of_text a)\<rparr>)
      else if strstr a ''input'' \<or> strstr a ''holding'' \<or> strstr a ''coil'' then
        (let t = modbusmq_config_input_type a
         in if t = 0 then Args_Fail else query_args_loop rest (g\<lparr>qa_input := t\<rparr>))
      else if a = ''-4'' then query_args_loop rest (g\<lparr>qa_output_size := 4\<rparr>)
      else if a = ''-2'' then query_args_loop rest (g\<lparr>qa_output_size := 2\<rparr>)
      else if a = ''-v'' then query_args_loop rest (g\<lparr>qa_verbose := Suc (qa_verbose g)\<rparr>)
      else if a = ''--dry-run'' then query_args_loop rest (g\<lparr>qa_dry_run := True\<rparr>)
      else if a \<in> set query_flags then
        (case rest of
           [] \<Rightarrow> Args_Fail
         | v # rest' \<Rightarrow>
             (case query_flag a v g of None \<Rightarrow> Args_Fail | Some g' \<Rightarrow> query_args_loop rest' g'))
      else if qa_addr g < 0 then query_args_loop rest (g\<lparr>qa_addr := int_of_double (double_of_text a)\<rparr>)
      else if qa_naddr g = 0 then query_args_loop rest (g\<lparr>qa_naddr := int_of_double (double_of_text a)\<rparr>)
      else Args_Fail)"

definition query_settle :: "query_args \<Rightarrow> query_args parsed_args" where
  "query_settle g =
     (case qa_connect g of
        None \<Rightarrow> Args_Fail
      | Some s \<Rightarrow>
          if take 7 s = ''mqtt://'' then (if qa_raw g = None then Args_Fail else Args_Ok g)
          else if qa_slave g < 0 \<or> qa_input g = 0 \<or> qa_addr g < 0 \<or> (\<not> qa_is_write g \<and> qa_naddr g \<le> 0) then Args_Fail
          else if qa_is_write g \<and> qa_input g = 4 then Args_Fail
          else if qa_is_write g \<and> qa_input g \<noteq> 1 \<and> qa_format g = format_unknown then Args_Ok (g\<lparr>qa_format := format_ab\<rparr>)
          else Args_Ok g)"

definition query_parse_argv :: "string list \<Rightarrow> query_args parsed_args" where
  "query_parse_argv args =
     (case query_args_loop args query_args_zero of Args_Ok g \<Rightarrow> query_settle g | r \<Rightarrow> r)"

text \<open>The frame of a write, refused or undefined where the encoder is.\<close>

definition query_write :: "query_args \<Rightarrow> modbusmq_write_t" where
  "query_write g =
     write_zero\<lparr>wr_name := Some ''query'', wr_slave := qa_slave g, wr_type := 3, wr_address := qa_addr g,
                wr_format := qa_format g, wr_length := modbusmq_format_size (qa_format g), wr_mod := qa_mod g,
                wr_mul := qa_mul g, wr_add := qa_add g, wr_function := qa_function g\<rparr>"

definition query_write_frame :: "query_args \<Rightarrow> modbusmq_context_t \<Rightarrow> modbusmq_frame_t encoded" where
  "query_write_frame g c =
     (if qa_input g = 1
      then Inr (snd (modbusmq_frame_write_coil_bit c (qa_addr g) (if fp_is_zero (qa_write_value g) then 0 else 1)))
      else
        (case modbusmq_write_encode (query_write g) (qa_write_value g) of
           Inl e \<Rightarrow> Inl e
         | Inr regs \<Rightarrow>
             (if length regs = 1 \<and> qa_function g \<noteq> 0x10
              then Inr (snd (modbusmq_frame_write_register c (qa_addr g) (uint (regs ! 0))))
              else
                (case modbusmq_frame_write_registers c (frame_zero\<lparr>is_writer := True\<rparr>) (qa_addr g) (int (length regs)) regs of
                   None \<Rightarrow> Inl Undefined
                 | Some (_, f) \<Rightarrow> Inr f))))"

definition query_read_frame :: "query_args \<Rightarrow> modbusmq_context_t \<Rightarrow> modbusmq_frame_t option" where
  "query_read_frame g c =
     (if qa_input g = 3 then Some (snd (modbusmq_frame_read_holding_registers c (qa_addr g) (qa_naddr g)))
      else if qa_input g = 4 then Some (snd (modbusmq_frame_read_input_registers c (qa_addr g) (qa_naddr g)))
      else if qa_input g = 1 then Some (snd (modbusmq_frame_read_coil_bits c (qa_addr g) (qa_naddr g)))
      else if qa_input g = 2 then Some (snd (modbusmq_frame_read_input_bits c (qa_addr g) (qa_naddr g)))
      else None)"

text \<open>The values printed of a response, whole chunks only.\<close>

fun query_values :: "nat \<Rightarrow> byte list \<Rightarrow> nat \<Rightarrow> nat \<Rightarrow> int list" where
  "query_values 0 data chunk nbytes = []"
| "query_values (Suc fuel) data chunk nbytes =
     (if nbytes < chunk then []
      else (if chunk = 2 then modbusmq_read_int16_ab data else modbusmq_read_int32_abcd data)
           # query_values fuel (drop chunk data) chunk (nbytes - chunk))"

datatype query_result =
    Query_Refused
  | Query_Undefined
  | Query_Frame "byte list"
  | Query_Waiting
  | Query_Code int
  | Query_Values "int list"

definition query_timeout :: "query_args \<Rightarrow> int" where
  "query_timeout g = (if 0 < qa_timeout_ms g then qa_timeout_ms g else 2000)"

text \<open>
  \<open>main\<close> from the connected context on; \<open>ps\<close> is what \<open>poll\<close> reports while \<open>modbusmq_send\<close> waits.
\<close>

definition query_msg :: "modbusmq_frame_t \<Rightarrow> modbusmq_msg_t" where
  "query_msg f = \<lparr>msg_id = 0, req_id = 0, frame0 = f, frame1 = frame_zero\<rparr>"

definition query_run_write :: "poll_round list \<Rightarrow> query_args \<Rightarrow> modbusmq_context_t \<Rightarrow> query_result" where
  "query_run_write ps g c =
     (case query_write_frame g c of
        Inl Refused \<Rightarrow> Query_Refused
      | Inl Undefined \<Rightarrow> Query_Undefined
      | Inr f \<Rightarrow>
          if qa_dry_run g then Query_Frame (wire f)
          else (case modbusmq_send ps c (query_msg f) (query_timeout g) of
                  None \<Rightarrow> Query_Waiting
                | Some (rc, c, m) \<Rightarrow> Query_Code (if rc = 0 then 0 else 1)))"

definition query_run_read :: "poll_round list \<Rightarrow> query_args \<Rightarrow> modbusmq_context_t \<Rightarrow> query_result" where
  "query_run_read ps g c =
     (case query_read_frame g c of
        None \<Rightarrow> Query_Code 2
      | Some f \<Rightarrow>
          (case modbusmq_send ps c (query_msg f) (query_timeout g) of
             None \<Rightarrow> Query_Waiting
           | Some (rc, c, m) \<Rightarrow>
               (let data = modbusmq_frame_data c (frame1 m); nbytes = modbusmq_frame_nbytes c (frame1 m);
                    chunk = nat (if qa_output_size g \<le> 0 then 2 else qa_output_size g)
                in if rc < 0 then Query_Code 1
                   else if nbytes \<le> 0 then Query_Code (-1)
                   else Query_Values (query_values (nat nbytes) data chunk (nat nbytes)))))"

definition query_run :: "poll_round list \<Rightarrow> query_args \<Rightarrow> modbusmq_context_t \<Rightarrow> query_result" where
  "query_run ps g c =
     (let c = modbusmq_set_slave (qa_slave g) c
      in if qa_dry_run g \<and> \<not> qa_is_write g then Query_Code (-1)
         else if qa_is_write g then query_run_write ps g c else query_run_read ps g c)"

text \<open>A reply over the broker counts when it begins with the tag and a blank.\<close>

definition raw_message_callback :: "string \<Rightarrow> string \<Rightarrow> string option" where
  "raw_message_callback tag payload =
     (if length payload \<le> length tag \<or> 1024 \<le> length payload then None
      else if take (length tag) payload \<noteq> tag \<or> payload ! length tag \<noteq> CHR '' '' then None
      else Some (c_string payload))"

definition query_raw_tag :: "int \<Rightarrow> string \<Rightarrow> string \<times> string" where
  "query_raw_tag pid raw =
     (if take 1 raw = ''@''
      then (fit 32 (takeWhile (\<lambda>ch. ch \<noteq> CHR '' '') raw), fit 1024 raw)
      else let tag = fit 32 (''@q'' @ int_str pid) in (tag, fit 1024 (tag @ '' '' @ raw)))"

text \<open>
  Waiting for the reply. Each round is the clock in milliseconds, the payloads delivered and
  whether \<open>mosquitto_loop\<close> succeeded; rounds that run out leave the tool waiting.
\<close>

fun query_wait :: "int \<Rightarrow> string \<Rightarrow> (int \<times> string list \<times> bool) list \<Rightarrow> string option \<Rightarrow> string option option" where
  "query_wait deadline tag ps (Some reply) = Some (Some reply)"
| "query_wait deadline tag [] None = None"
| "query_wait deadline tag ((now, payloads, ok) # ps) None =
     (if deadline \<le> now then Some None
      else if \<not> ok then Some None
      else query_wait deadline tag ps
             (fold (\<lambda>p r. case raw_message_callback tag p of None \<Rightarrow> r | Some t \<Rightarrow> Some t) payloads None))"

text \<open>
  \<open>connect_ok\<close> and \<open>ask_ok\<close> are the answers of the calls into mosquitto, the second one of
  \<open>mosquitto_subscribe\<close> and \<open>mosquitto_publish\<close> together; the result is the reply printed with
  the exit code, and the message published.
\<close>

definition query_mqtt ::
    "int \<Rightarrow> bool \<Rightarrow> bool \<Rightarrow> int \<Rightarrow> (int \<times> string list \<times> bool) list \<Rightarrow> query_args \<Rightarrow> (int \<times> string) option" where
  "query_mqtt pid connect_ok ask_ok now ps g =
     (let (tag, request) = query_raw_tag pid (case qa_raw g of None \<Rightarrow> [] | Some r \<Rightarrow> r)
      in case modbusmq_parse_connect_string (case qa_connect g of None \<Rightarrow> [] | Some s \<Rightarrow> s) of
           Inl e \<Rightarrow> Some (-1, [])
         | Inr cn \<Rightarrow>
             if \<not> connect_ok \<or> \<not> ask_ok then Some (-1, [])
             else
               (case query_wait (now + (if 0 < qa_timeout_ms g then qa_timeout_ms g else 5000)) tag ps None of
                  None \<Rightarrow> None
                | Some None \<Rightarrow> Some (-1, [])
                | Some (Some reply) \<Rightarrow> Some (if strstr reply '' -> error'' then -1 else 0, reply)))"

text \<open>What is published, and on which topic.\<close>

definition query_request :: "int \<Rightarrow> query_args \<Rightarrow> string \<times> string" where
  "query_request pid g =
     (fit 256 ((case qa_prefix g of None \<Rightarrow> [] | Some p \<Rightarrow> p) @ ''request/raw''),
      snd (query_raw_tag pid (case qa_raw g of None \<Rightarrow> [] | Some r \<Rightarrow> r)))"

text \<open>The context of a connect string, and the whole of \<open>main\<close> for a device.\<close>

definition query_context ::
    "(nat \<Rightarrow> millitime_t) \<Rightarrow> (int \<Rightarrow> string) \<Rightarrow> string \<Rightarrow> modbusmq_context_t option" where
  "query_context clk strerr text =
     (case modbusmq_parse_connect_string text of
        Inl e \<Rightarrow> None
      | Inr cn \<Rightarrow>
          (case connect_type cn of
             CONNECT_TCP \<Rightarrow> modbusmq_tcp_context clk strerr text
           | CONNECT_RTU \<Rightarrow> modbusmq_rtu_context clk strerr (cn_device cn) (cn_baudrate cn) (cn_parity cn)
                              (cn_databits cn) (cn_stopbit cn)
           | CONNECT_MQTT \<Rightarrow> None))"

definition query_device ::
    "(nat \<Rightarrow> millitime_t) \<Rightarrow> (int \<Rightarrow> string) \<Rightarrow> (modbusmq_context_t \<Rightarrow> int \<times> modbusmq_context_t)
       \<Rightarrow> poll_round list \<Rightarrow> query_args \<Rightarrow> query_result" where
  "query_device clk strerr open_link ps g =
     (case query_context clk strerr (case qa_connect g of None \<Rightarrow> [] | Some s \<Rightarrow> s) of
        None \<Rightarrow> Query_Code (-2)
      | Some c \<Rightarrow>
          if qa_dry_run g then query_run ps g c
          else let (rc, c) = modbusmq_connect open_link c
               in if rc \<noteq> 0 then Query_Code 2 else query_run ps g c)"

end
