(* ===== verification/Respond_Facts.thy ===== *)
theory Respond_Facts
  imports Respond Assembly Builders_Facts
begin

text \<open>
  The virtual server's answers seen from the client of the library: what the server puts in its
  frame, that the client's acceptance check takes it, and which bits and bytes it carries.
\<close>

section \<open>The header of an answer\<close>

text \<open>\<open>f\<close> is an answer under construction to \<open>req\<close>: transaction, unit and function are copied.\<close>

definition headed :: "modbusmq_frame_t \<Rightarrow> modbusmq_frame_t \<Rightarrow> bool" where
  "headed req f \<longleftrightarrow> length (fbuf f) = 260 \<and> getb f 0 = getb req 0 \<and> getb f 1 = getb req 1
     \<and> getb f 2 = 0 \<and> getb f 3 = 0 \<and> getb f 6 = getb req 6 \<and> getb f 7 = getb req 7"

lemma headed_header: "length (fbuf res) = 260 \<Longrightarrow> headed req (response_header req res)"
  by (simp add: headed_def response_header_def getb_def)

lemma headed_clear: "headed req f \<Longrightarrow> n \<le> 251 \<Longrightarrow> headed req (clear_payload n f)"
  by (auto simp: headed_def clear_payload_def getb_def nth_append)

lemma headed_serve_coil: "headed req f \<Longrightarrow> headed req (serve_coil a n ic f)"
  by (auto simp: headed_def serve_coil_def getb_def Let_def split: prod.split)

lemma headed_serve_coils: "headed req f \<Longrightarrow> headed req (fold (serve_coil a n) ics f)"
  by (induction ics arbitrary: f) (auto intro: headed_serve_coil)

lemma headed_put_at: "headed req f \<Longrightarrow> 9 \<le> k \<Longrightarrow> put_at k bs f = Some g \<Longrightarrow> headed req g"
  by (auto simp: headed_def put_at_def getb_def nth_append split: if_splits)

lemma headed_serve_register:
  assumes "headed req f" and "serve_register a n u ic f = Some g"
  shows "headed req g"
  using assms headed_put_at [OF assms(1), of "9 + nat p" for p]
  by (auto simp: serve_register_def Let_def split: prod.splits if_splits option.splits sum.splits encode_error.splits)

lemma headed_serve_registers:
  "headed req f \<Longrightarrow> serve_registers a n u ics f = Some g \<Longrightarrow> headed req g"
  by (induction ics arbitrary: f) (auto split: option.splits intro: headed_serve_register)

lemma finished_wire:
  assumes "headed req f" and "0 \<le> n" and "n \<le> 251"
  shows "length (wire (finish_response n f)) = nat n + 9"
    "be16 (wire (finish_response n f) ! 4) (wire (finish_response n f) ! 5) = n + 3"
    "wire (finish_response n f) ! 8 = lo8 n"
    "i < nat n + 9 \<Longrightarrow> i \<notin> {4, 5, 8} \<Longrightarrow> wire (finish_response n f) ! i = getb f i"
  using assms by (auto simp: finish_response_def headed_def wire_def getb_def nat_add_distrib)

section \<open>Acceptance by the client\<close>

lemma tcp_answersI:
  assumes "tcp_ok c" "is_writer w" "wf_frame w" "xmit w = flength w" "8 \<le> length res" "length res \<le> 260"
    and "res ! 0 = getb w 0" "res ! 1 = getb w 1" "res ! 2 = 0" "res ! 3 = 0" "getb w 2 = 0" "getb w 3 = 0"
    and "be16 (res ! 4) (res ! 5) + 6 = int (length res)" "res ! 6 = getb w 6" "res ! 7 = getb w 7"
  shows "answers c w res"
proof -
  let ?m = "\<lparr>msg_id = 0, req_id = 0, frame0 = w, frame1 = holding res\<rparr>"
  have hl: "header_length c = 8" and cbc: "cb c = modbusmq_tcp_cb" using assms(1) by (auto simp: tcp_ok_def)
  have wf: "wf_msg ?m" using assms(2,3,6) holding_wf by (simp add: wf_msg_def paired_def)
  have g: "getb (holding res) i = res ! i" if "i < 8" for i
    using that assms(5) by (intro getb_holding) linarith
  have "fst (modbusmq_tcp_msg_check ?m) = 0"
    using assms g by (subst tcp_msg_check_accepts [OF wf]) simp_all
  then show ?thesis using assms hl
    by (simp add: answers_def modbusmq_check_def modbusmq_msg_broadcast_def cbc modbusmq_tcp_cb_def
        modbusmq_tcp_msg_broadcast_def Let_def)
qed

text \<open>A request on its way: \<open>w\<close> has been sent whole, \<open>req\<close> is what the server holds of it.\<close>

definition arrived :: "modbusmq_frame_t \<Rightarrow> modbusmq_frame_t \<Rightarrow> bool" where
  "arrived w req \<longleftrightarrow> is_writer w \<and> wf_frame w \<and> xmit w = flength w \<and> 12 \<le> flength w
     \<and> getb w 2 = 0 \<and> getb w 3 = 0 \<and> wf_frame req \<and> received req = wire w"

lemma arrivedD:
  assumes "arrived w req"
  shows "is_writer w" "wf_frame w" "xmit w = flength w" "12 \<le> flength w" "getb w 2 = 0" "getb w 3 = 0"
    "xmit req = flength w" "int i < flength w \<Longrightarrow> getb req i = getb w i"
proof -
  show "is_writer w" "wf_frame w" "xmit w = flength w" "12 \<le> flength w" "getb w 2 = 0" "getb w 3 = 0"
    using assms by (simp_all add: arrived_def)
  have r: "received req = wire w" and wf: "wf_frame req" "wf_frame w" using assms by (simp_all add: arrived_def)
  have "int (length (wire w)) = flength w" using wf_frameD [OF wf(2)] by (simp add: wire_def)
  then show x: "xmit req = flength w" using length_received [OF wf(1)] r by simp
  assume "int i < flength w"
  then have "i < nat (flength w)" by linarith
  then show "getb req i = getb w i" using r x by (metis getb_wire getb_received)
qed

lemma headed_answer:
  assumes ok: "tcp_ok c" and a: "arrived w req" and h: "headed req f" and n: "0 \<le> n" "n \<le> 251"
  shows "answers c w (wire (finish_response n f))"
proof -
  note A = arrivedD [OF a] and F = finished_wire [OF h n]
  have g: "getb req 0 = getb w 0" "getb req 1 = getb w 1" "getb req 6 = getb w 6" "getb req 7 = getb w 7"
    using A(4) by (auto intro!: A(8))
  show ?thesis
    by (rule tcp_answersI [OF ok A(1-3)]) (use F n h g A(5,6) in \<open>simp_all add: headed_def\<close>)
qed

section \<open>Coils\<close>

definition payload_bit :: "modbusmq_frame_t \<Rightarrow> nat \<Rightarrow> bool" where
  "payload_bit f j \<longleftrightarrow> bit (getb f (9 + j div 8)) (j mod 8)"

text \<open>The channel \<open>ic\<close> serves the coil at \<open>a + j\<close>, and its value is not zero.\<close>

definition switched_on :: "int \<Rightarrow> nat \<Rightarrow> modbusmq_input_t \<times> modbusmq_channel_t \<Rightarrow> bool" where
  "switched_on a j ic \<longleftrightarrow> in_address (fst ic) + ch_offset (snd ic) = a + int j \<and> \<not> fp_is_zero (ch_value (snd ic))"

lemma serve_coil_bit:
  assumes "length (fbuf f) = 260" and "n \<le> 2000" and "j < 2008"
  shows "payload_bit (serve_coil a n ic f) j \<longleftrightarrow> payload_bit f j \<or> int j < n \<and> switched_on a j ic"
proof -
  obtain i ch where ic: "ic = (i, ch)" by fastforce
  define q where "q = in_address i + ch_offset ch - a"
  show ?thesis
  proof (cases "q < 0 \<or> n \<le> q \<or> fp_is_zero (ch_value ch)")
    case True
    then have "serve_coil a n ic f = f" by (auto simp: ic serve_coil_def Let_def q_def)
    moreover have "\<not> (int j < n \<and> switched_on a j ic)" using True by (auto simp: ic switched_on_def q_def)
    ultimately show ?thesis by auto
  next
    case False
    define m where "m = nat q"
    have q: "q = int m" and m: "m < 2000" using False assms(2) by (auto simp: m_def)
    have set: "serve_coil a n ic f = setb (9 + m div 8) (getb f (9 + m div 8) OR push_bit (m mod 8) 1) f"
      using False unfolding ic serve_coil_def Let_def prod.case q_def [symmetric] m_def by (auto simp: not_le)
    have on: "int j < n \<and> switched_on a j ic \<longleftrightarrow> j = m"
      using False q by (auto simp: ic switched_on_def q_def)
    have lt: "9 + m div 8 < 260" using m by linarith
    show ?thesis
    proof (cases "j div 8 = m div 8")
      case True
      then have "getb (serve_coil a n ic f) (9 + j div 8) = getb f (9 + j div 8) OR push_bit (m mod 8) 1"
        using lt assms(1) by (simp add: set getb_def)
      moreover have "j = m \<longleftrightarrow> j mod 8 = m mod 8" using True by (metis div_mult_mod_eq)
      moreover have "j mod 8 < 8" by simp
      ultimately show ?thesis
        unfolding payload_bit_def on by (auto simp: bit_simps)
    next
      case False
      then have "j \<noteq> m" by auto
      then show ?thesis using False unfolding payload_bit_def on by (simp add: set getb_def)
    qed
  qed
qed

lemma serve_coils_bit:
  assumes "length (fbuf f) = 260" and "n \<le> 2000" and "j < 2008"
  shows "payload_bit (fold (serve_coil a n) ics f) j
     \<longleftrightarrow> payload_bit f j \<or> int j < n \<and> (\<exists>ic \<in> set ics. switched_on a j ic)"
  using assms(1)
proof (induction ics arbitrary: f)
  case (Cons ic ics)
  have "length (fbuf (serve_coil a n ic f)) = 260"
    using Cons.prems by (simp add: serve_coil_def Let_def split: prod.split)
  then show ?case using Cons.IH serve_coil_bit [OF Cons.prems assms(2,3)] by auto
qed simp

lemma clear_payload_bit:
  assumes "length (fbuf f) = 260" and "n \<le> 251" and "j < 8 * n"
  shows "\<not> payload_bit (clear_payload n f) j"
proof -
  have "j div 8 < n" using assms(3) by linarith
  then show ?thesis using assms by (simp add: payload_bit_def clear_payload_def getb_def nth_append)
qed

section \<open>What the server makes of a read\<close>

lemma finished_bits:
  assumes "headed req f" and "0 \<le> n" and "n \<le> 251" and "j < 8 * nat n"
  shows "bit (drop 9 (fbuf (holding (wire (finish_response n f)))) ! (j div 8)) (j mod 8) = payload_bit f j"
proof -
  have j: "j div 8 < nat n" using assms(4) by linarith
  then have "getb (holding (wire (finish_response n f))) (9 + j div 8) = wire (finish_response n f) ! (9 + j div 8)"
    using finished_wire(1) [OF assms(1-3)] by (intro getb_holding) linarith
  also have "\<dots> = getb f (9 + j div 8)" using j by (intro finished_wire(4) [OF assms(1-3)]) auto
  finally have "fbuf (holding (wire (finish_response n f))) ! (9 + j div 8) = getb f (9 + j div 8)"
    by (simp add: getb_def)
  moreover have "length (fbuf (holding (wire (finish_response n f)))) \<ge> 9"
    using finished_wire(1) [OF assms(1-3)] by (simp add: holding_def)
  ultimately show ?thesis by (simp add: payload_bit_def)
qed

lemma finished_nbytes:
  assumes "headed req f" and "0 \<le> n" and "n \<le> 251" and "uint (getb req 7) \<in> {1, 2, 3, 4}"
  shows "modbusmq_tcp_frame_nbytes (holding (wire (finish_response n f))) = n"
proof -
  note F = finished_wire [OF assms(1-3)]
  have "getb (holding (wire (finish_response n f))) 7 = getb req 7"
    using F(1) F(4) [of 7] assms(1,2) by (subst getb_holding) (auto simp: headed_def)
  moreover have "uint (getb (holding (wire (finish_response n f))) 8) = n"
    using F assms(2,3) by (subst getb_holding) (auto simp: lo8_uint)
  ultimately show ?thesis using assms(4) by (auto simp: modbusmq_tcp_frame_nbytes_def)
qed

lemma respond_bits:
  assumes "uint (getb req 7) \<in> {1, 2}" and "1 \<le> n" and "n \<le> 2000" and "n = be16 (getb req 10) (getb req 11)"
  shows "respond_tcp cfg req res = Some (finish_response ((n + 7) div 8)
      (fold (serve_coil (be16 (getb req 8) (getb req 9)) n)
        (served_channels cfg (uint (getb req 6)) (uint (getb req 7)))
        (clear_payload (nat ((n + 7) div 8)) (response_header req res))))"
  using assms by (auto simp: respond_tcp_def Let_def)

lemma respond_registers:
  assumes "uint (getb req 7) \<notin> {1, 2, 5, 6, 0x10}" and "1 \<le> n" and "n \<le> 125"
    and "n = be16 (getb req 10) (getb req 11)" and "length (fbuf res) = 260"
    and "respond_tcp cfg req res = Some r"
  shows "\<exists>f. headed req f \<and> r = finish_response (2 * n) f"
proof -
  let ?f = "clear_payload (nat (n * 2)) (response_header req res)"
  obtain f where f: "serve_registers (be16 (getb req 8) (getb req 9)) (n * 2)
        (if 0 < offset_size cfg then offset_size cfg else 1)
        (served_channels cfg (uint (getb req 6)) (uint (getb req 7))) ?f = Some f" "r = finish_response (n * 2) f"
    using assms(1-4,6) by (auto simp: respond_tcp_def Let_def split: if_splits)
  have "headed req ?f" using assms(2,3) headed_header [OF assms(5)] by (intro headed_clear) auto
  then have "headed req f" using headed_serve_registers f(1) by blast
  then show ?thesis using f(2) by (auto simp: mult.commute)
qed

section \<open>What the server makes of a write\<close>

lemma respond_written:
  assumes a: "arrived w req" and fn: "uint (getb w 7) \<in> {5, 6, 0x10}" and ok: "\<not> write_request_bad req"
    and res: "length (fbuf res) = 260" and c: "tcp_ok c"
  shows "\<exists>r. respond_tcp cfg req res = Some r \<and> answers c w (wire r)
     \<and> wire r = take 4 (wire w) @ [0, 6] @ take 6 (drop 6 (wire w))"
proof -
  note A = arrivedD [OF a]
  have lenw: "12 \<le> length (wire w)" using A(4) wf_frameD [OF A(2)] by (simp add: wire_def)
  have g: "getb req i = wire w ! i" if "i < 12" for i
  proof -
    have "int i < flength w" using that A(4) by linarith
    moreover have "i < nat (flength w)" using that A(4) by linarith
    ultimately show ?thesis using A(8) getb_wire by metis
  qed
  let ?r = "respond_write req (response_header req res)"
  have r: "respond_tcp cfg req res = Some ?r" using fn A(8) [of 7] A(4) by (simp add: respond_tcp_def Let_def)
  have z: "wire w ! 2 = 0" "wire w ! 3 = 0" using A(4,5,6) by (simp_all flip: getb_wire)
  have len: "length (wire ?r) = 12"
    using ok res by (simp add: respond_write_def response_header_def wire_def)
  have w: "wire ?r = take 4 (wire w) @ [0, 6] @ take 6 (drop 6 (wire w))"
  proof (rule nth_equalityI)
    show "length (wire ?r) = length (take 4 (wire w) @ [0, 6] @ take 6 (drop 6 (wire w)))"
      using len lenw by simp
    fix i assume "i < length (wire ?r)"
    then have "i = 0 \<or> i = 1 \<or> i = 2 \<or> i = 3 \<or> i = 4 \<or> i = 5 \<or> i = 6 \<or> i = 7 \<or> i = 8 \<or> i = 9 \<or> i = 10 \<or> i = 11"
      using len by presburger
    then show "wire ?r ! i = (take 4 (wire w) @ [0, 6] @ take 6 (drop 6 (wire w))) ! i"
      using ok res lenw z g by (auto simp: respond_write_def response_header_def wire_def nth_append)
  qed
  have wg: "wire w ! i = getb w i" if "i < 12" for i using that A(4) by (simp add: getb_wire)
  have "answers c w (wire ?r)"
    by (rule tcp_answersI [OF c A(1-3)]) (use len lenw z A(5,6) in \<open>simp_all add: w nth_append wg be16_eq\<close>)
  then show ?thesis using r w by auto
qed

end
