(* ===== verification/Server_Facts.thy ===== *)
theory Server_Facts
  imports Server "HOL-Library.Multiset"
begin

text \<open>
  The client slots of the virtual server: which operations touch them, and the account of the
  descriptors, open ones and closed ones together.
\<close>

section \<open>What leaves the slots alone\<close>

definition same_slots :: "server \<Rightarrow> server \<Rightarrow> bool" where
  "same_slots s s' \<longleftrightarrow> connections s' = connections s \<and> sv_closed s' = sv_closed s"

lemma same_slots_refl [simp, intro]: "same_slots s s"
  by (simp add: same_slots_def)

lemma same_slots_trans [trans]: "same_slots s s' \<Longrightarrow> same_slots s' s'' \<Longrightarrow> same_slots s s''"
  by (simp add: same_slots_def)

lemma millitime_slots: "server_millitime s = (now, s') \<Longrightarrow> same_slots s s'"
  by (auto simp: server_millitime_def same_slots_def split: prod.splits)

lemma on_socket_slots:
  assumes "on_socket n f s fr = (rc, s', fr')"
  shows "same_slots s s'"
proof -
  let ?k = "sv_socks s n"
  obtain rc1 c fr1 where f: "f (sv_context s\<lparr>line_in := sk_in ?k, line_room := sk_room ?k, line_fault := sk_fault ?k,
      line_out := sk_out ?k\<rparr>) fr = (rc1, c, fr1)" by (metis prod_cases3)
  show ?thesis using assms unfolding on_socket_def Let_def f prod.case same_slots_def by force
qed

lemma emu_retry_slots: "same_slots s (emu_retry s)"
proof -
  obtain now s1 where t: "server_millitime s = (now, s1)" by fastforce
  show ?thesis using millitime_slots [OF t] by (simp add: emu_retry_def t same_slots_def)
qed

lemma emu_lost_slots: "same_slots s (emu_lost s)"
  using emu_retry_slots [of "s\<lparr>sv_emu := (sv_emu s)\<lparr>emu_connected := False\<rparr>\<rparr>"]
  by (simp add: emu_lost_def same_slots_def)

lemma emu_fd_set_slots: "emu_fd_set q s = (r, w, s') \<Longrightarrow> same_slots s s'"
  using emu_lost_slots [of s] by (auto simp: emu_fd_set_def Let_def split: if_splits)

lemma emu_service_slots:
  assumes "emu_service q r w s = Some s'"
  shows "same_slots s s'"
proof -
  obtain now s1 where t: "server_millitime s = (now, s1)" by fastforce
  note m = millitime_slots [OF t]
  note e = emu_lost_slots emu_retry_slots
  have l: "same_slots s (emu_lost (s\<lparr>sv_config := cfg\<rparr>))" for cfg
    using e(1) [of "s\<lparr>sv_config := cfg\<rparr>"] by (simp add: same_slots_def)
  show ?thesis
    using assms m e(1) [of s] e(2) [of s1] l
    by (auto simp: emu_service_def t same_slots_def split: if_splits option.splits)
qed

lemma let_time_pass_slots: "same_slots s (let_time_pass e s)"
  by (simp add: let_time_pass_def same_slots_def)

section \<open>The account of the descriptors\<close>

definition fds_of :: "modbusmq_connection_t list \<Rightarrow> int multiset" where
  "fds_of ks = filter_mset (\<lambda>n. n \<noteq> 0) (image_mset conn_fd (mset ks))"

definition one_fd :: "int \<Rightarrow> int multiset" where
  "one_fd n = (if n = 0 then {#} else {#n#})"

definition ledger :: "server \<Rightarrow> int multiset" where
  "ledger s = fds_of (connections s) + mset (sv_closed s)"

lemma fds_of_update:
  assumes "i < length ks"
  shows "fds_of (ks[i := k]) + one_fd (conn_fd (ks ! i)) = fds_of ks + one_fd (conn_fd k)"
proof -
  have "ks ! i \<in># mset ks" using assms by simp
  then obtain M where M: "mset ks = add_mset (ks ! i) M" by (rule mset_add)
  then have "mset (ks[i := k]) = add_mset k M" using assms by (simp add: mset_update)
  then show ?thesis by (simp add: fds_of_def M one_fd_def)
qed

lemma ledger_same: "same_slots s s' \<Longrightarrow> ledger s' = ledger s"
  by (simp add: ledger_def same_slots_def)

text \<open>The slots and the account after an operation on slot \<open>i\<close>, which adds \<open>extra\<close>.\<close>

definition keeps_fds :: "int multiset \<Rightarrow> server \<Rightarrow> server \<Rightarrow> bool" where
  "keeps_fds extra s s' \<longleftrightarrow> length (connections s') = length (connections s) \<and> ledger s' = ledger s + extra"

lemma keeps_fds_same: "same_slots s s' \<Longrightarrow> keeps_fds {#} s s'"
  using ledger_same [of s s'] by (simp add: keeps_fds_def same_slots_def)

lemma keeps_fds_trans: "keeps_fds a s s' \<Longrightarrow> keeps_fds b s' s'' \<Longrightarrow> keeps_fds (a + b) s s''"
  by (simp add: keeps_fds_def)

lemma keeps_fds_chain: "keeps_fds {#} s s' \<Longrightarrow> keeps_fds b s' s'' \<Longrightarrow> keeps_fds b s s''"
  using keeps_fds_trans [of "{#}"] by simp

lemma set_conn_keeps:
  assumes "same_slots s s'" and "i < length (connections s)" and "conn_fd k = conn_fd (connections s ! i)"
  shows "keeps_fds {#} s (set_conn i k s')"
proof -
  have "fds_of ((connections s)[i := k]) = fds_of (connections s)"
    using fds_of_update [OF assms(2), of k] unfolding assms(3) by simp
  then show ?thesis using assms(1) by (simp add: keeps_fds_def ledger_def set_conn_def same_slots_def)
qed

lemma close_conn_keeps:
  assumes "same_slots s s'" and "i < length (connections s)" and "conn_fd (connections s ! i) \<noteq> 0"
    and "conn_fd k = 0" and "m = conn_fd (connections s ! i)"
  shows "keeps_fds {#} s (set_conn i k (close_fd m s'))"
proof -
  have "add_mset m (fds_of ((connections s)[i := k])) = fds_of (connections s)"
    using fds_of_update [OF assms(2), of k] assms(3-5) by (simp add: one_fd_def)
  then show ?thesis using assms(1)
    by (simp add: keeps_fds_def ledger_def set_conn_def close_fd_def same_slots_def flip: add_mset_add_single)
qed

section \<open>Accepting a client\<close>

lemma slot_loop_bounds:
  assumes "slot_loop ks is old = (free, old')" and "\<forall>i \<in> set is. i < length ks" and "old < length ks"
  shows "old' < length ks" "free = Some i \<Longrightarrow> i < length ks \<and> conn_fd (ks ! i) = 0"
    "free = None \<Longrightarrow> \<forall>i \<in> set is. conn_fd (ks ! i) \<noteq> 0"
  using assms by (induction ks "is" old rule: slot_loop.induct) (auto split: if_splits)

lemma slot_loop_oldest:
  assumes "slot_loop ks is old = (None, old')"
  shows "(\<forall>i \<in> set is. last_rx_ms (ks ! old') \<le> last_rx_ms (ks ! i)) \<and> last_rx_ms (ks ! old') \<le> last_rx_ms (ks ! old)"
  using assms
proof (induction ks "is" old rule: slot_loop.induct)
  case (2 ks i "is" old)
  let ?old = "if last_rx_ms (ks ! i) < last_rx_ms (ks ! old) then i else old"
  have n: "conn_fd (ks ! i) \<noteq> 0" and l: "slot_loop ks is ?old = (None, old')"
    using "2.prems" by (auto split: if_splits)
  note ih = "2.IH" [OF n l]
  moreover have "last_rx_ms (ks ! ?old) \<le> last_rx_ms (ks ! i)" "last_rx_ms (ks ! ?old) \<le> last_rx_ms (ks ! old)" by auto
  ultimately show ?case by (auto intro: order_trans)
qed simp

lemma accept_keeps:
  assumes "connections s \<noteq> []" and "n \<noteq> 0"
  shows "keeps_fds (if 0 < n then {#n#} else {#}) s (accept_client n s)"
proof (cases "n < 0")
  case True
  then show ?thesis by (simp add: accept_client_def keeps_fds_def)
next
  case False
  then have n: "0 < n" using assms(2) by simp
  let ?ks = "connections s"
  obtain free old where sl: "slot_loop ?ks [0..<length ?ks] 0 = (free, old)" by (metis surj_pair)
  have pre: "\<forall>i \<in> set [0..<length ?ks]. i < length ?ks" "0 < length ?ks" using assms(1) by simp_all
  note b = slot_loop_bounds [OF sl pre]
  let ?k = "\<lambda>now. \<lparr>conn_fd = n,
      conn_msg = msg_zero\<lparr>frame0 := frame_zero\<lparr>is_tcp := True\<rparr>, frame1 := frame_zero\<lparr>is_writer := True, is_tcp := True\<rparr>\<rparr>,
      last_rx_ms = now\<rparr>"
  show ?thesis
  proof (cases free)
    case (Some i)
    obtain now s3 where t: "server_millitime s = (now, s3)" by (metis surj_pair)
    have "accept_client n s = set_conn i (?k now) s3"
      using False by (simp add: accept_client_def sl Some t Let_def)
    then show ?thesis
      using n b(2) [OF Some] fds_of_update [of i ?ks "?k now"] millitime_slots [OF t]
      by (simp add: keeps_fds_def ledger_def set_conn_def one_fd_def same_slots_def)
  next
    case None
    obtain now1 s1 where t1: "server_millitime s = (now1, s1)" by (metis surj_pair)
    obtain now s3 where t2: "server_millitime (close_fd (conn_fd (?ks ! old)) s1) = (now, s3)" by (metis surj_pair)
    have e: "accept_client n s = set_conn old (?k now) s3"
      using False by (simp add: accept_client_def sl None t1 t2 Let_def)
    have nz: "conn_fd (?ks ! old) \<noteq> 0" using b(3) [OF None] b(1) by simp
    have c3: "connections s3 = ?ks" "sv_closed s3 = sv_closed s @ [conn_fd (?ks ! old)]"
      using millitime_slots [OF t1] millitime_slots [OF t2] by (simp_all add: same_slots_def close_fd_def)
    have "add_mset (conn_fd (?ks ! old)) (fds_of (?ks[old := ?k now])) = add_mset n (fds_of ?ks)"
      using n nz fds_of_update [OF b(1), of "?k now"] by (simp add: one_fd_def)
    then show ?thesis using n by (simp add: e keeps_fds_def ledger_def set_conn_def c3)
  qed
qed

section \<open>Serving the clients\<close>

lemma client_read_keeps:
  assumes "client_read i s = Some (skip, s')" and "i < length (connections s)" and "conn_fd (connections s ! i) \<noteq> 0"
  shows "keeps_fds {#} s s'"
proof -
  let ?k = "connections s ! i"
  obtain rc s1 f where r: "on_socket (conn_fd ?k) modbusmq_read s (frame0 (conn_msg ?k)) = (rc, s1, f)" by (metis prod_cases3)
  note o1 = on_socket_slots [OF r]
  obtain now s2 where t: "server_millitime s1 = (now, s2)" by fastforce
  note o2 = same_slots_trans [OF o1 millitime_slots [OF t]]
  have o3: "same_slots s (s1\<lparr>sv_context := c\<rparr>)" for c using o1 by (simp add: same_slots_def)
  note k = set_conn_keeps [OF o1 assms(2)] set_conn_keeps [OF o2 assms(2)] set_conn_keeps [OF o3 assms(2)]
    close_conn_keeps [OF o1 assms(2,3)]
  have "?thesis" if "modbusmq_frame_incomplete (sv_context s) (frame0 (conn_msg ?k)) = 0"
    using assms(1) that by (auto simp: client_read_def Let_def intro: keeps_fds_same)
  moreover have "?thesis" if "modbusmq_frame_incomplete (sv_context s) (frame0 (conn_msg ?k)) \<noteq> 0"
    using assms(1) that r t k
    by (auto simp: client_read_def Let_def split: if_splits transport.splits)
  ultimately show ?thesis by blast
qed

lemma client_write_keeps:
  assumes "i < length (connections s)" and "conn_fd (connections s ! i) \<noteq> 0"
  shows "keeps_fds {#} s (client_write i s)"
proof -
  let ?k = "connections s ! i"
  obtain rc s1 f where r: "on_socket (conn_fd ?k) modbusmq_write s (frame1 (conn_msg ?k)) = (rc, s1, f)" by (metis prod_cases3)
  note o1 = on_socket_slots [OF r]
  obtain now s2 where t: "server_millitime s1 = (now, s2)" by fastforce
  note o2 = same_slots_trans [OF o1 millitime_slots [OF t]]
  have o3: "same_slots s (s1\<lparr>sv_context := c\<rparr>)" "same_slots s (s2\<lparr>sv_context := c\<rparr>)" for c
    using o1 o2 by (simp_all add: same_slots_def)
  show ?thesis
    using r t set_conn_keeps [OF o3(2) assms(1)] close_conn_keeps [OF o3(1) assms]
    by (auto simp: client_write_def Let_def intro: keeps_fds_same split: transport.splits)
qed

lemma serve_client_keeps:
  assumes "serve_client rs ws i s = Some s'" and "i < length (connections s)" and "0 \<notin> set ws"
  shows "keeps_fds {#} s s'"
proof (cases "conn_fd (connections s ! i) = 0")
  case True
  then show ?thesis using assms(1) by (auto simp: serve_client_def Let_def intro: keeps_fds_same)
next
  case False
  obtain skip s1 where c: "(if conn_fd (connections s ! i) \<in> set rs then client_read i s else Some (False, s)) = Some (skip, s1)"
    using assms(1) False by (fastforce simp: serve_client_def Let_def split: option.splits)
  have k: "keeps_fds {#} s s1"
    using c client_read_keeps [OF _ assms(2) False] by (auto intro: keeps_fds_same split: if_splits)
  have s': "s' = (if \<not> skip \<and> conn_fd (connections s1 ! i) \<in> set ws then client_write i s1 else s1)"
    using assms(1) False c by (auto simp: serve_client_def Let_def split: if_splits)
  show ?thesis
  proof (cases "\<not> skip \<and> conn_fd (connections s1 ! i) \<in> set ws")
    case True
    then have "conn_fd (connections s1 ! i) \<noteq> 0" using assms(3) by metis
    moreover have "i < length (connections s1)" using k assms(2) by (simp add: keeps_fds_def)
    ultimately show ?thesis using keeps_fds_chain [OF k client_write_keeps] s' True by simp
  qed (use k s' in auto)
qed

lemma serve_clients_keep:
  assumes "serve_clients rs ws is s = Some s'" and "\<forall>i \<in> set is. i < length (connections s)" and "0 \<notin> set ws"
  shows "keeps_fds {#} s s'"
  using assms
proof (induction "is" arbitrary: s)
  case Nil
  then show ?case by (auto intro: keeps_fds_same)
next
  case (Cons i "is")
  then obtain s1 where s1: "serve_client rs ws i s = Some s1" "serve_clients rs ws is s1 = Some s'"
    by (auto split: option.splits)
  have k: "keeps_fds {#} s s1" using serve_client_keeps [OF s1(1)] Cons.prems by simp
  have "keeps_fds {#} s1 s'"
    by (rule Cons.IH [OF s1(2)]) (use Cons.prems k in \<open>auto simp: keeps_fds_def\<close>)
  then show ?case by (rule keeps_fds_chain [OF k])
qed

lemma client_sets_open: "set (fst (client_sets s)) \<union> set (snd (client_sets s)) \<subseteq> {n. 0 < n}"
  by (auto simp: client_sets_def Let_def)

end
