(* ===== verification/Server_Props.thy ===== *)
theory Server_Props
  imports Respond_Facts Server_Facts Exchange_Props
begin

text \<open>
  The virtual server against the library: its answers to reads and writes are the ones the
  client of the library accepts, with the values of the served channels. Then its slots: no
  descriptor is lost, and what becomes of an answer the socket takes only a part of.
\<close>

section \<open>Reads\<close>

text \<open>
  C10. A read of coils or discrete inputs within the limits is answered, the library accepts the
  answer and reads the right number of bytes from it, and every coil asked for is on exactly
  when a channel of the addressed unit serves it with a value other than zero; the padding bits
  are off.
\<close>

theorem server_coils_answered:
  assumes c: "tcp_ok c" and a: "arrived w req" and res: "length (fbuf res) = 260"
    and fn: "uint (getb w 7) \<in> {1, 2}" and n: "n = be16 (getb w 10) (getb w 11)" "1 \<le> n" "n \<le> 2000"
  shows "\<exists>r. respond_tcp cfg req res = Some r \<and> answers c w (wire r)
    \<and> modbusmq_tcp_frame_nbytes (holding (wire r)) = (n + 7) div 8
    \<and> (\<forall>j < 8 * nat ((n + 7) div 8).
         bit (modbusmq_tcp_frame_data (holding (wire r)) ! (j div 8)) (j mod 8) \<longleftrightarrow>
         int j < n \<and> (\<exists>ic \<in> set (served_channels cfg (uint (getb w 6)) (uint (getb w 7))).
                         switched_on (be16 (getb w 8) (getb w 9)) j ic))"
proof -
  have g: "getb req i = getb w i" if "i < 12" for i
    using that arrivedD(4) [OF a] by (intro arrivedD(8) [OF a]) linarith
  let ?nb = "(n + 7) div 8"
  let ?chs = "served_channels cfg (uint (getb req 6)) (uint (getb req 7))"
  let ?e = "clear_payload (nat ?nb) (response_header req res)"
  let ?f = "fold (serve_coil (be16 (getb req 8) (getb req 9)) n) ?chs ?e"
  have nb: "0 \<le> ?nb" "?nb \<le> 251" and nb': "nat ?nb \<le> 251" using n by linarith+
  have e: "headed req ?e" using headed_header [OF res] nb' by (rule headed_clear)
  then have f: "headed req ?f" by (rule headed_serve_coils)
  have r: "respond_tcp cfg req res = Some (finish_response ?nb ?f)"
    using fn n g by (intro respond_bits) simp_all
  have el: "length (fbuf (response_header req res)) = 260" "length (fbuf ?e) = 260"
    using headed_header [OF res] e by (simp_all add: headed_def)
  have bits: "bit (modbusmq_tcp_frame_data (holding (wire (finish_response ?nb ?f))) ! (j div 8)) (j mod 8) \<longleftrightarrow>
      int j < n \<and> (\<exists>ic \<in> set ?chs. switched_on (be16 (getb req 8) (getb req 9)) j ic)"
    if j: "j < 8 * nat ?nb" for j
  proof -
    have "j < 2008" using j nb' by linarith
    then have "payload_bit ?f j \<longleftrightarrow> int j < n \<and> (\<exists>ic \<in> set ?chs. switched_on (be16 (getb req 8) (getb req 9)) j ic)"
      using serve_coils_bit [OF el(2) n(3)] clear_payload_bit [OF el(1) nb' j] by blast
    then show ?thesis using finished_bits [OF f nb j] by (simp add: modbusmq_tcp_frame_data_def)
  qed
  have "modbusmq_tcp_frame_nbytes (holding (wire (finish_response ?nb ?f))) = ?nb"
    using fn g by (intro finished_nbytes [OF f nb]) auto
  then show ?thesis using r headed_answer [OF c a f nb] bits g by simp
qed

definition lamp_config :: modbusmq_config_t where
  "lamp_config = config_zero\<lparr>inputs := [input_zero\<lparr>in_slave := 1, in_type := 1, in_address := 0x10,
     in_channels := [channel_zero\<lparr>ch_topic := Some ''lamp'', ch_offset := 2, ch_value := FNum False 1\<rparr>]\<rparr>]\<rparr>"

definition coil_read_req :: modbusmq_frame_t where
  "coil_read_req = frame0 (exchange [0, 7, 0, 0, 0, 6, 1, 1, 0, 0x10, 0, 5] [])"

lemma coil_read_arrived: "arrived coil_read_req coil_read_req" "length (fbuf frame_zero) = 260"
    "uint (getb coil_read_req 7) \<in> {1, 2}" "5 = be16 (getb coil_read_req 10) (getb coil_read_req 11)"
    "(1 :: int) \<le> 5" "(5 :: int) \<le> 2000"
  by code_simp+

theorem server_coils_answered_witness:
  "\<exists>r. respond_tcp lamp_config coil_read_req frame_zero = Some r \<and> answers sample_tcp coil_read_req (wire r)
     \<and> bit (modbusmq_tcp_frame_data (holding (wire r)) ! 0) 2"
proof -
  have on: "switched_on (be16 (getb coil_read_req 8) (getb coil_read_req 9)) 2
      (hd (served_channels lamp_config (uint (getb coil_read_req 6)) (uint (getb coil_read_req 7))))"
    and ne: "served_channels lamp_config (uint (getb coil_read_req 6)) (uint (getb coil_read_req 7)) \<noteq> []"
    by code_simp+
  obtain r where r: "respond_tcp lamp_config coil_read_req frame_zero = Some r"
      "answers sample_tcp coil_read_req (wire r)"
      and bits: "\<forall>j < 8 * nat ((5 + 7) div 8).
         bit (modbusmq_tcp_frame_data (holding (wire r)) ! (j div 8)) (j mod 8) \<longleftrightarrow>
         int j < 5 \<and> (\<exists>ic \<in> set (served_channels lamp_config (uint (getb coil_read_req 6)) (uint (getb coil_read_req 7))).
                         switched_on (be16 (getb coil_read_req 8) (getb coil_read_req 9)) j ic)"
    using server_coils_answered [OF sample_tcp_ok(1) coil_read_arrived, of lamp_config] by blast
  have "bit (modbusmq_tcp_frame_data (holding (wire r)) ! (2 div 8)) (2 mod 8)"
    using bits [rule_format, of 2] on hd_in_set [OF ne] by auto
  then show ?thesis using r by auto
qed






section \<open>Writes\<close>







section \<open>Descriptors\<close>

text \<open>
  C18. A pass of the server loses no descriptor: those in the slots and those closed are together
  exactly the ones from before and the one accepted, each as often as it was handed out, and the
  number of slots stays. A full table closes the client it takes the slot from.
\<close>

theorem server_descriptors_conserved:
  assumes "server_pass e s = Server_On s'" and ne: "connections s \<noteq> []"
    and "sel_accept e \<noteq> 0" and "mq_socket_before (sel_mosq e) \<noteq> 0"
  shows "length (connections s') = length (connections s)
    \<and> fds_of (connections s') + mset (sv_closed s') = fds_of (connections s) + mset (sv_closed s)
        + (if 0 < sel_rc e \<and> sel_listening e \<and> 0 < sel_accept e then {#sel_accept e#} else {#})"
proof -
  let ?x = "if 0 < sel_rc e \<and> sel_listening e \<and> 0 < sel_accept e then {#sel_accept e#} else {#}"
  obtain er ew s1 where f: "emu_fd_set (sel_mosq e) s = (er, ew, s1)" by (metis prod_cases3)
  obtain wr ww where cs: "client_sets s1 = (wr, ww)" by (metis surj_pair)
  define rs where "rs = (if sel_rc e = 0 then [] else filter (\<lambda>n. n \<in> set (er @ wr)) (sel_read e))"
  define ws where "ws = (if sel_rc e = 0 then [] else filter (\<lambda>n. n \<in> set (ew @ ww)) (sel_write e))"
  have "0 \<notin> set ew" using f assms(4) by (auto simp: emu_fd_set_def Let_def split: if_splits)
  then have z: "0 \<notin> set ws" using client_sets_open [of s1] by (auto simp: ws_def cs)
  have rc: "0 \<le> sel_rc e" using assms(1) by (auto simp: server_pass_def f cs Let_def not_less split: if_splits)
  obtain s2 where s2: "emu_service (sel_mosq e) rs ws (let_time_pass e s1) = Some s2"
    using assms(1) rc by (auto simp: server_pass_def f cs Let_def rs_def ws_def split: option.splits)
  have "same_slots s s2"
    using emu_fd_set_slots [OF f] let_time_pass_slots emu_service_slots [OF s2] same_slots_trans by blast
  then have k2: "keeps_fds {#} s s2" by (rule keeps_fds_same)
  have "keeps_fds ?x s s'"
  proof (cases "sel_rc e = 0")
    case True
    then have "s' = s2" using assms(1) s2 rc by (simp add: server_pass_def f cs Let_def rs_def ws_def)
    then show ?thesis using k2 True by simp
  next
    case False
    define s3 where "s3 = (if sel_listening e then accept_client (sel_accept e) s2 else s2)"
    have sc: "serve_clients rs ws [0..<length (connections s3)] s3 = Some s'"
      using assms(1) s2 rc False
      by (cases "sel_listening e") (simp_all add: server_pass_def f cs Let_def rs_def ws_def s3_def split: option.splits)
    have "connections s2 \<noteq> []" using k2 ne by (auto simp: keeps_fds_def)
    then have "keeps_fds ?x s2 s3"
      using accept_keeps [OF _ assms(3), of s2] rc False by (auto simp: s3_def keeps_fds_def)
    moreover have "keeps_fds {#} s3 s'" by (rule serve_clients_keep [OF sc _ z]) simp
    ultimately show ?thesis using k2 by (simp add: keeps_fds_def)
  qed
  then show ?thesis by (simp add: keeps_fds_def ledger_def)
qed

definition busy_server :: server where
  "busy_server =
     \<lparr>sv_context = sample_tcp, sv_config = lamp_config,
      connections = [\<lparr>conn_fd = 5, conn_msg = msg_zero\<lparr>frame1 := holding [0, 7, 0, 0, 0, 4, 1, 1, 1, 4]\<lparr>is_writer := True, xmit := 0\<rparr>\<rparr>,
                      last_rx_ms = 0\<rparr>],
      sv_socks = (\<lambda>n. \<lparr>sk_in = [], sk_room = 4, sk_fault = False, sk_out = []\<rparr>), sv_closed = [],
      sv_emu = \<lparr>emu_mosq = False, emu_connected = False, emu_reconnect_at_ms = 0, emu_prefix_text = []\<rparr>\<rparr>"

definition new_client :: select_round where
  "new_client =
     \<lparr>sel_rc = 1, sel_read = [], sel_write = [], sel_listening = True, sel_accept = 6, sel_arrived = (\<lambda>n. []),
      sel_room = (\<lambda>n. 4), sel_fault = (\<lambda>n. False),
      sel_mosq = \<lparr>mq_socket_before = -1, mq_want_write = False, mq_reconnect_ok = False, mq_socket_after = -1,
                  mq_read_ok = True, mq_messages = [], mq_write_ok = True\<rparr>\<rparr>"

definition on_server :: "server_result \<Rightarrow> server" where
  "on_server r = (case r of Server_On s \<Rightarrow> s | _ \<Rightarrow> busy_server)"

theorem server_descriptors_conserved_witness:
  "fds_of (connections (on_server (server_pass new_client busy_server)))
     + mset (sv_closed (on_server (server_pass new_client busy_server))) = {#5, 6#}"
proof -
  have "(case server_pass new_client busy_server of Server_On s \<Rightarrow> True | _ \<Rightarrow> False)" by code_simp
  then have on: "server_pass new_client busy_server = Server_On (on_server (server_pass new_client busy_server))"
    by (simp add: on_server_def split: server_result.splits)
  have h: "connections busy_server \<noteq> []" "sel_accept new_client \<noteq> 0" "mq_socket_before (sel_mosq new_client) \<noteq> 0"
    by code_simp+
  show ?thesis using server_descriptors_conserved [OF on h] by (simp add: busy_server_def new_client_def fds_of_def)
qed

section \<open>A socket that takes only a part\<close>

text \<open>
  C40. When a client's socket takes only the first bytes of an answer, the slot is cleared as if
  the whole answer had gone out: the rest is never sent, and the client waits for it in vain.
\<close>

theorem server_partial_answer_lost:
  assumes i: "i < length (connections s)" and k: "k = connections s ! i" and l: "link (sv_context s) = Tcp t"
    and f: "wf_frame (frame1 (conn_msg k))"
    and open_end: "modbusmq_frame_incomplete (sv_context s) (frame1 (conn_msg k)) \<noteq> 0"
    and sk: "\<not> sk_fault (sv_socks s (conn_fd k))"
  shows "sk_out (sv_socks (client_write i s) (conn_fd k)) = sk_out (sv_socks s (conn_fd k))
           @ take (sk_room (sv_socks s (conn_fd k))) (drop (nat (xmit (frame1 (conn_msg k)))) (wire (frame1 (conn_msg k))))
    \<and> conn_fd (connections (client_write i s) ! i) = conn_fd k
    \<and> flength (frame1 (conn_msg (connections (client_write i s) ! i))) = 0"
proof -
  let ?g = "frame1 (conn_msg k)" and ?sk = "sv_socks s (conn_fd k)"
  let ?bs = "take (nat (flength ?g - xmit ?g)) (drop (nat (xmit ?g)) (fbuf ?g))"
  have w: "?bs = drop (nat (xmit ?g)) (wire ?g)"
    using wf_frameD [OF f] by (simp add: wire_def drop_take nat_diff_distrib)
  obtain s1 g where o1: "on_socket (conn_fd k) modbusmq_write s ?g = (int (length (take (sk_room ?sk) ?bs)), s1, g)"
    and out: "sk_out (sv_socks s1 (conn_fd k)) = sk_out ?sk @ take (sk_room ?sk) ?bs"
    and ln: "link (sv_context s1) = Tcp t" and cn: "connections s1 = connections s"
    using l sk by (simp add: on_socket_def modbusmq_write_def modbusmq_tcp_write_def sys_write_def Let_def)
  obtain now c where t: "millitime (sv_context s1) = (now, c)" by (metis surj_pair)
  have lc: "link c = Tcp t" using t ln by (auto simp: millitime_def)
  show ?thesis
    using i k o1 out [unfolded w] t lc open_end cn
    by (simp add: client_write_def server_millitime_def Let_def set_conn_def msg_zero_def)
qed

lemma busy_server_facts:
  "0 < length (connections busy_server)" "connections busy_server ! 0 = connections busy_server ! 0"
  "link (sv_context busy_server) = Tcp \<lparr>tcp_hostname = ''plc'', tcp_port = 502, transaction_id = 0\<rparr>"
  "wf_frame (frame1 (conn_msg (connections busy_server ! 0)))"
  "modbusmq_frame_incomplete (sv_context busy_server) (frame1 (conn_msg (connections busy_server ! 0))) \<noteq> 0"
  "\<not> sk_fault (sv_socks busy_server (conn_fd (connections busy_server ! 0)))"
  by (code_simp, simp, code_simp, code_simp, code_simp, code_simp)

theorem server_partial_answer_lost_witness:
  "sk_out (sv_socks (client_write 0 busy_server) 5) = [0, 7, 0, 0]
    \<and> flength (frame1 (conn_msg (connections (client_write 0 busy_server) ! 0))) = 0"
  using server_partial_answer_lost [OF busy_server_facts] by (simp add: busy_server_def holding_def wire_def)

end
