(* ===== verification/Config_Facts.thy ===== *)
theory Config_Facts
  imports Config_Parse Encode
begin

text \<open>
  What a configuration satisfies once it is accepted: the claims of a block write tile its
  registers, the function of a write fits its type and format, and no later step of the parse
  breaks what the validation has checked.
\<close>

section \<open>The registers of a block write\<close>

definition covers :: "nat \<Rightarrow> modbusmq_write_channel_t \<Rightarrow> bool" where
  "covers r ch \<longleftrightarrow> wc_offset ch \<le> 2 * int r \<and> 2 * int r < wc_offset ch + wc_length ch"

lemma claim_range_table:
  assumes "claim_range claimed r n = Some c" and "r + n \<le> length claimed"
  shows "length c = length claimed"
    and "i < length claimed \<Longrightarrow> c ! i \<longleftrightarrow> claimed ! i \<or> (r \<le> i \<and> i < r + n)"
    and "r \<le> i \<Longrightarrow> i < r + n \<Longrightarrow> \<not> claimed ! i"
proof -
  have "length c = length claimed \<and> (i < length claimed \<longrightarrow> (c ! i \<longleftrightarrow> claimed ! i \<or> (r \<le> i \<and> i < r + n)))
      \<and> (r \<le> i \<and> i < r + n \<longrightarrow> \<not> claimed ! i)"
    using assms
  proof (induction claimed r n rule: claim_range.induct)
    case (2 claimed r n)
    then show ?case by (auto simp: nth_list_update split: if_splits)
  qed auto
  then show "length c = length claimed"
    and "i < length claimed \<Longrightarrow> c ! i \<longleftrightarrow> claimed ! i \<or> (r \<le> i \<and> i < r + n)"
    and "r \<le> i \<Longrightarrow> i < r + n \<Longrightarrow> \<not> claimed ! i" by blast+
qed

lemma covers_range:
  assumes "block_channel_ok ch"
  shows "covers r ch \<longleftrightarrow> nat (wc_offset ch div 2) \<le> r \<and> r < nat (wc_offset ch div 2) + nat (wc_length ch div 2)"
    "nat (wc_offset ch div 2) + nat (wc_length ch div 2) = nat ((wc_offset ch + wc_length ch) div 2)"
proof -
  obtain k where k: "wc_offset ch = 2 * k" "0 \<le> k" and l: "wc_length ch = 2 \<or> wc_length ch = 4"
    using assms by (auto simp: block_channel_ok_def elim!: evenE)
  then show "covers r ch \<longleftrightarrow> nat (wc_offset ch div 2) \<le> r \<and> r < nat (wc_offset ch div 2) + nat (wc_length ch div 2)"
    "nat (wc_offset ch div 2) + nat (wc_length ch div 2) = nat ((wc_offset ch + wc_length ch) div 2)"
    by (auto simp: covers_def nat_add_distrib)
qed

text \<open>How often a register is claimed, against the table.\<close>

lemma claim_channels_count:
  assumes "claim_channels nregs claimed chs = Some c" and "length claimed = nregs" and "list_all block_channel_ok chs"
    and "r < nregs"
  shows "length (filter (covers r) chs) + (if claimed ! r then 1 else 0) = (if c ! r then 1 else 0)"
    and "length c = nregs" and "\<forall>ch \<in> set chs. 0 \<le> wc_offset ch \<and> wc_offset ch + wc_length ch \<le> 2 * int nregs"
proof -
  have "length (filter (covers r) chs) + (if claimed ! r then 1 else 0) = (if c ! r then 1 else 0) \<and> length c = nregs
      \<and> (\<forall>ch \<in> set chs. 0 \<le> wc_offset ch \<and> wc_offset ch + wc_length ch \<le> 2 * int nregs)"
    using assms
  proof (induction nregs claimed chs rule: claim_channels.induct)
    case (2 nregs claimed ch chs)
    let ?a = "nat (wc_offset ch div 2)" and ?n = "nat (wc_length ch div 2)"
    obtain c1 where c1: "claim_range claimed ?a ?n = Some c1" and room: "?a + ?n \<le> nregs"
        and rest: "claim_channels nregs c1 chs = Some c"
      using "2.prems"(1) by (auto simp: Let_def not_less split: if_splits option.splits)
    have ok: "block_channel_ok ch" "list_all block_channel_ok chs" using "2.prems"(3) by simp_all
    have "?a + ?n \<le> length claimed" using room "2.prems"(2) by simp
    note t = claim_range_table [OF c1 this]
    have len: "length c1 = nregs" using t(1) "2.prems"(2) by simp
    have "\<not> nregs < ?a + ?n" using room by simp
    note ih = "2.IH" [OF refl refl this c1 rest len ok(2) "2.prems"(4)]
    have "c1 ! r \<longleftrightarrow> claimed ! r \<or> covers r ch" and "covers r ch \<Longrightarrow> \<not> claimed ! r"
      using t(2,3) room "2.prems"(2,4) covers_range(1) [OF ok(1)] by simp_all
    moreover have "0 \<le> wc_offset ch \<and> wc_offset ch + wc_length ch \<le> 2 * int nregs"
      using ok(1) room covers_range(2) [OF ok(1)] by (auto simp: block_channel_ok_def)
    ultimately show ?case using ih by (auto split: if_splits)
  qed simp
  then show "length (filter (covers r) chs) + (if claimed ! r then 1 else 0) = (if c ! r then 1 else 0)"
    and "length c = nregs" and "\<forall>ch \<in> set chs. 0 \<le> wc_offset ch \<and> wc_offset ch + wc_length ch \<le> 2 * int nregs"
    by blast+
qed

definition tiled :: "int \<Rightarrow> modbusmq_write_channel_t list \<Rightarrow> bool" where
  "tiled n chs \<longleftrightarrow> 1 \<le> n \<and> n \<le> 123 \<and> list_all block_channel_ok chs
     \<and> (\<forall>ch \<in> set chs. wc_offset ch + wc_length ch \<le> 2 * n)
     \<and> (\<forall>r < nat n. length (filter (covers r) chs) = 1)"

lemma validated_block:
  assumes "config_validate_write_block w = Some w'"
  shows "w' = w\<lparr>wr_naddress := wr_naddress w', wr_has_naddress := True, wr_has_defaults := list_all wc_has_value (wr_channels w)\<rparr>"
    "tiled (wr_naddress w') (wr_channels w)"
proof -
  define n where "n = (if wr_has_naddress w then wr_naddress w else block_span (wr_channels w) div 2)"
  have ok: "list_all block_channel_ok (wr_channels w)" and n: "0 < n" "n \<le> 123"
    and e: "(case claim_channels (nat n) (replicate (nat n) False) (wr_channels w) of None \<Rightarrow> None
      | Some claimed \<Rightarrow> if False \<in> set claimed then None
          else Some (w\<lparr>wr_naddress := n, wr_has_naddress := True, wr_has_defaults := list_all wc_has_value (wr_channels w)\<rparr>))
      = Some w'"
    using assms unfolding config_validate_write_block_def n_def [symmetric] Let_def
    by (simp_all split: if_split_asm)
  obtain c where c: "claim_channels (nat n) (replicate (nat n) False) (wr_channels w) = Some c" "False \<notin> set c"
      and w': "w' = w\<lparr>wr_naddress := n, wr_has_naddress := True, wr_has_defaults := list_all wc_has_value (wr_channels w)\<rparr>"
    using e by (cases "claim_channels (nat n) (replicate (nat n) False) (wr_channels w)") (simp_all split: if_split_asm)
  show "w' = w\<lparr>wr_naddress := wr_naddress w', wr_has_naddress := True, wr_has_defaults := list_all wc_has_value (wr_channels w)\<rparr>"
    by (simp add: w')
  have count: "length (filter (covers r) (wr_channels w)) = 1" if "r < nat n" for r
  proof -
    have "length c = nat n" using claim_channels_count(2) [OF c(1) _ ok that] by simp
    then have "c ! r" using c(2) that nth_mem [of r c] by (cases "c ! r") auto
    then show ?thesis using claim_channels_count(1) [OF c(1) _ ok that] that by simp
  qed
  have "\<forall>ch \<in> set (wr_channels w). wc_offset ch + wc_length ch \<le> 2 * n"
    using claim_channels_count(3) [OF c(1) _ ok, of 0] n by simp
  then show "tiled (wr_naddress w') (wr_channels w)" using n ok count by (simp add: tiled_def w')
qed

section \<open>A settled write\<close>

definition settled_write :: "modbusmq_write_t \<Rightarrow> bool" where
  "settled_write w \<longleftrightarrow> (\<exists>t. wr_topic w = Some t \<and> t \<noteq> []) \<and> wr_has_address w \<and> wr_has_slave w
     \<and> wr_has_on_value w = wr_has_off_value w
     \<and> (if wr_channels w \<noteq> [] then wr_type w = 3 \<and> wr_function w = 0x10 \<and> tiled (wr_naddress w) (wr_channels w)
        else wr_type w \<noteq> 0 \<and> wr_function w \<noteq> 0 \<and> (wr_type w = 1 \<longleftrightarrow> wr_function w = 0x05)
           \<and> (wr_function w \<noteq> 0x05 \<longrightarrow> wr_format w \<noteq> format_unknown
                \<and> (wr_length w = 2 \<or> wr_length w = 4 \<and> wr_function w \<noteq> 0x06)))"

lemma settle_function_agrees:
  assumes "settle_function w = Some w'"
  shows "wr_type w' \<noteq> 0" "wr_function w' \<noteq> 0" "wr_type w' = 1 \<longleftrightarrow> wr_function w' = 0x05"
    "w' = w\<lparr>wr_type := wr_type w', wr_function := wr_function w'\<rparr>"
  using assms by (auto simp: settle_function_def split: if_splits)

lemma validate_single_settled:
  assumes "validate_single w = Some w'" and "wr_channels w = []" and "\<exists>t. wr_topic w = Some t \<and> t \<noteq> []"
    "wr_has_address w" "wr_has_slave w" "wr_has_on_value w = wr_has_off_value w"
  shows "settled_write w'"
proof -
  obtain v where v: "settle_function w = Some v" and w': "w' = v"
    and c: "wr_function v \<noteq> 0x05 \<longrightarrow> wr_format v \<noteq> format_unknown
                \<and> (wr_length v = 2 \<or> wr_length v = 4 \<and> wr_function v \<noteq> 0x06)"
    using assms(1) unfolding validate_single_def by (auto split: if_splits option.splits)
  note s = settle_function_agrees [OF v]
  have "wr_topic v = wr_topic w" "wr_has_address v = wr_has_address w" "wr_has_slave v = wr_has_slave w"
    "wr_has_on_value v = wr_has_on_value w" "wr_has_off_value v = wr_has_off_value w" "wr_channels v = wr_channels w"
    by (subst s(4), simp)+
  then show ?thesis using assms(2-6) s(1-3) c unfolding w' settled_write_def by simp
qed

lemma validate_write_settled:
  assumes "validate_write w = Some w'"
  shows "settled_write w'"
proof -
  have t: "\<exists>t. wr_topic w = Some t \<and> t \<noteq> []" "wr_has_address w" "wr_has_slave w" "wr_has_on_value w = wr_has_off_value w"
    and e: "(if wr_channels w \<noteq> [] then validate_block w else validate_single w) = Some w'"
    using assms unfolding validate_write_def by (cases "wr_topic w"; simp split: if_split_asm)+
  show ?thesis
  proof (cases "wr_channels w = []")
    case True
    then show ?thesis using e validate_single_settled [OF _ True t] by simp
  next
    case False
    then have b: "config_validate_write_block (w\<lparr>wr_function := 0x10, wr_type := 3\<rparr>) = Some w'" and on: "\<not> wr_has_on_value w"
      using e by (simp_all add: validate_block_def split: if_split_asm)
    note v = validated_block [OF b]
    have "wr_topic w' = wr_topic w" "wr_has_address w' = wr_has_address w" "wr_has_slave w' = wr_has_slave w"
      "wr_has_on_value w' = wr_has_on_value w" "wr_has_off_value w' = wr_has_off_value w" "wr_channels w' = wr_channels w"
      "wr_type w' = 3" "wr_function w' = 0x10"
      by (subst v(1), simp)+
    then show ?thesis using t False v(2) by (simp add: settled_write_def)
  qed
qed

lemma map_all_set:
  assumes "map_all f xs = Some ys"
  shows "\<forall>y \<in> set ys. \<exists>x \<in> set xs. f x = Some y"
  using assms
proof (induction xs arbitrary: ys)
  case (Cons x xs)
  then obtain y zs where "f x = Some y" "map_all f xs = Some zs" "ys = y # zs" by (auto split: option.splits)
  then show ?case using Cons.IH by auto
qed simp

section \<open>Topics keep their place\<close>

lemma topic_loop_nonempty: "topic_loop m s = Some (t, n) \<Longrightarrow> s \<noteq> [] \<Longrightarrow> t \<noteq> []"
proof (induction m s arbitrary: t n rule: topic_loop.induct)
  case (3 m ch k s)
  have "int_str m \<noteq> []" if "0 \<le> m" using that by (simp add: int_str_def)
  then show ?case using "3.prems" by (auto split: if_splits)
qed auto

lemma module_topic_some:
  assumes "module_topic m (Some s) = Some t" and "s \<noteq> []"
  shows "\<exists>t'. t = Some t' \<and> t' \<noteq> []"
  using assms topic_loop_nonempty [of m s]
  by (auto simp: module_topic_def config_topic_module_def split: if_splits option.splits)

lemma module_topic_not_none: "module_topic m (Some s) = Some t \<Longrightarrow> t \<noteq> None"
  by (auto simp: module_topic_def config_topic_module_def split: if_splits option.splits)

lemma settled_topic:
  assumes "settled_write w" and "t \<noteq> []"
  shows "settled_write (w\<lparr>wr_topic := Some t\<rparr>)" "settled_write (w\<lparr>wr_topic := Some t, wr_ack_topic := a\<rparr>)"
  using assms by (simp_all add: settled_write_def)

lemma settle_ack_settled:
  assumes "settled_write w"
  shows "settled_write (settle_ack ack w) \<and> (wr_ack (settle_ack ack w) \<longrightarrow> wr_ack_topic (settle_ack ack w) \<noteq> None)"
  using assms by (auto simp: settle_ack_def Let_def settled_write_def)

lemma write_module_topics_settled:
  assumes "write_module_topics w = Some w'" and "settled_write w"
  shows "settled_write w'"
proof -
  obtain s where s: "wr_topic w = Some s" "s \<noteq> []" using assms(2) by (auto simp: settled_write_def)
  obtain t where t: "module_topic (wr_module w) (Some s) = Some t"
    using assms(1) s(1) by (auto simp: write_module_topics_def split: option.splits)
  obtain t' where t': "t = Some t'" "t' \<noteq> []" using module_topic_some [OF t s(2)] by blast
  show ?thesis
    using assms(1) s(1) t t' settled_topic [OF assms(2) t'(2)]
    by (auto simp: write_module_topics_def split: if_splits)
qed

section \<open>Inputs\<close>

definition settled_input :: "modbusmq_config_t \<Rightarrow> modbusmq_input_t \<Rightarrow> bool" where
  "settled_input g i \<longleftrightarrow>
     (query_mode g = query_mode_rounds \<or> 0 < in_interval i \<or> in_interval i = MODBUSMQ_INTERVAL_ONCE)
     \<and> (\<forall>ch \<in> set (in_channels i). check_channel i ch)"

lemma check_channel_same:
  assumes "t = None \<longleftrightarrow> ch_topic ch = None" and "in_type i' = in_type i"
  shows "check_channel i' (ch\<lparr>ch_topic := t\<rparr>) = check_channel i ch"
proof -
  let ?ch = "ch\<lparr>ch_topic := t\<rparr>"
  have "ch_format ?ch = ch_format ch" "ch_timefmt ?ch = ch_timefmt ch" "ch_localtime ?ch = ch_localtime ch"
    "ch_has_length ?ch = ch_has_length ch" "ch_length ?ch = ch_length ch" "ch_mod ?ch = ch_mod ch" "ch_mul ?ch = ch_mul ch"
    "ch_add ?ch = ch_add ch" "ch_has_decimals ?ch = ch_has_decimals ch" "ch_has_min_change ?ch = ch_has_min_change ch"
    "ch_has_min_change_rel ?ch = ch_has_min_change_rel ch" "ch_topic ?ch = None \<longleftrightarrow> ch_topic ch = None"
    using assms(1) by simp_all
  then show ?thesis unfolding check_channel_def Let_def by (simp only: assms(2))
qed

lemma check_channel_input: "in_type i' = in_type i \<Longrightarrow> check_channel i' ch = check_channel i ch"
  by (simp only: check_channel_def)

lemma channel_module_topic_checked:
  assumes "channel_module_topic i ch = Some ch'" and "check_channel i ch" and "in_type i' = in_type i"
  shows "check_channel i' ch'"
proof (cases "ch_topic ch")
  case None
  then have "ch' = ch" using assms(1) by (simp add: channel_module_topic_def)
  then show ?thesis using assms(2) check_channel_input [OF assms(3)] by simp
next
  case (Some s)
  then obtain t where t: "module_topic (in_module i) (Some s) = Some t" "ch' = ch\<lparr>ch_topic := t\<rparr>"
    using assms(1) by (auto simp: channel_module_topic_def)
  have "t \<noteq> None" by (rule module_topic_not_none [OF t(1)])
  then show ?thesis using check_channel_same [OF _ assms(3), of t ch] assms(2) t(2) Some by simp
qed

section \<open>The parse as a whole\<close>

lemma prefix_topics_keep:
  "query_mode (prefix_topics g) = query_mode g"
  "w \<in> set (cfg_writes (prefix_topics g)) \<Longrightarrow> \<forall>w \<in> set (cfg_writes g). settled_write w \<Longrightarrow> settled_write w"
proof -
  show "query_mode (prefix_topics g) = query_mode g" by (simp add: prefix_topics_def split: option.split)
  assume w: "w \<in> set (cfg_writes (prefix_topics g))" and ok: "\<forall>w \<in> set (cfg_writes g). settled_write w"
  show "settled_write w"
  proof (cases "mqtt_topic_prefix g")
    case None
    then show ?thesis using w ok by (simp add: prefix_topics_def)
  next
    case (Some p)
    then obtain v where v: "v \<in> set (cfg_writes g)" "w = (if wr_topic v = None then v
                else v\<lparr>wr_topic := map_option ((@) p) (wr_topic v), wr_ack_topic := map_option ((@) p) (wr_ack_topic v)\<rparr>)"
      using w by (auto simp: prefix_topics_def)
    obtain t where "wr_topic v = Some t" "t \<noteq> []" using ok v(1) by (auto simp: settled_write_def)
    then show ?thesis using settled_topic(2) [OF ok [rule_format, OF v(1)], of "p @ t"] v(2) by simp
  qed
qed

lemma prefix_topics_inputs:
  assumes "i' \<in> set (inputs (prefix_topics g))" and "\<forall>i \<in> set (inputs g). settled_input g i"
  shows "settled_input g i'"
proof (cases "mqtt_topic_prefix g")
  case None
  then show ?thesis using assms by (simp add: prefix_topics_def)
next
  case (Some p)
  then obtain i where i: "i \<in> set (inputs g)"
      "i' = i\<lparr>in_channels := map (\<lambda>ch. ch\<lparr>ch_topic := map_option ((@) p) (ch_topic ch)\<rparr>) (in_channels i)\<rparr>"
    using assms(1) by (auto simp: prefix_topics_def)
  have "check_channel i' (ch\<lparr>ch_topic := map_option ((@) p) (ch_topic ch)\<rparr>)" if "ch \<in> set (in_channels i)" for ch
  proof -
    have "check_channel i ch" using assms(2) i(1) that by (simp add: settled_input_def)
    moreover have "in_type i' = in_type i" by (simp add: i(2))
    ultimately show ?thesis by (simp add: check_channel_same)
  qed
  then show ?thesis using assms(2) i by (auto simp: settled_input_def)
qed

lemma module_topics_settled:
  assumes e: "config_apply_module_topics g = Some g'" and w: "\<forall>w \<in> set (cfg_writes g). settled_write w"
    and i: "\<forall>i \<in> set (inputs g). settled_input g i"
  shows "(\<forall>w \<in> set (cfg_writes g'). settled_write w) \<and> (\<forall>i \<in> set (inputs g'). settled_input g' i)"
proof -
  obtain is' ws where is': "map_all (\<lambda>i. map_option (\<lambda>chs. i\<lparr>in_channels := chs\<rparr>)
             (map_all (channel_module_topic i) (in_channels i))) (inputs g) = Some is'"
    and ws: "map_all write_module_topics (cfg_writes g) = Some ws" and g': "g' = g\<lparr>inputs := is', cfg_writes := ws\<rparr>"
    using e by (auto simp: config_apply_module_topics_def split: option.splits)
  have "settled_write w'" if "w' \<in> set ws" for w'
    using map_all_set [OF ws] that w write_module_topics_settled by blast
  moreover have "settled_input g' i'" if i': "i' \<in> set is'" for i'
  proof -
    obtain j chs where j: "j \<in> set (inputs g)" "map_all (channel_module_topic j) (in_channels j) = Some chs"
        "i' = j\<lparr>in_channels := chs\<rparr>"
      using map_all_set [OF is'] i' by auto
    have s: "settled_input g j" using i j(1) by blast
    have "check_channel i' ch'" if "ch' \<in> set chs" for ch'
    proof -
      obtain ch where ch: "ch \<in> set (in_channels j)" "channel_module_topic j ch = Some ch'"
        using map_all_set [OF j(2)] \<open>ch' \<in> set chs\<close> by blast
      have "check_channel j ch" using s ch(1) by (simp add: settled_input_def)
      then show ?thesis by (rule channel_module_topic_checked [OF ch(2)]) (simp add: j(3))
    qed
    then show ?thesis using s by (simp add: settled_input_def g' j(3))
  qed
  ultimately show ?thesis by (simp add: g')
qed

lemma finish_config_settled:
  assumes "finish_config g0 = Some g"
  shows "(\<forall>w \<in> set (cfg_writes g). settled_write w \<and> (wr_ack w \<longrightarrow> wr_ack_topic w \<noteq> None))
     \<and> (\<forall>i \<in> set (inputs g). settled_input g i)"
proof -
  obtain g1 g2 where "config_expand_inputs g0 = Some g1" and "config_expand_writes g1 = Some g2"
    using assms by (auto simp: finish_config_def split: if_splits option.splits)
  define h where "h = resolve_frame_delay (modbusmq_config_apply_publish_defaults (modbusmq_config_apply_format_version g2))"
  obtain h1 h2 where c: "check_intervals h" "check_inputs h" and h1: "check_writes h = Some h1"
      and h2: "config_apply_module_topics (prefix_topics h1) = Some h2"
      and g: "g = h2\<lparr>cfg_writes := map (settle_ack (mqtt_ack h2)) (cfg_writes h2)\<rparr>"
    using assms \<open>config_expand_inputs g0 = Some g1\<close> \<open>config_expand_writes g1 = Some g2\<close>
    by (auto simp: finish_config_def Let_def h_def split: if_splits option.splits)
  obtain ws where ws: "map_all validate_write (cfg_writes h) = Some ws" and h1': "h1 = h\<lparr>cfg_writes := ws\<rparr>"
    using h1 by (auto simp: check_writes_def)
  have w1: "\<forall>w \<in> set (cfg_writes h1). settled_write w"
    using map_all_set [OF ws] validate_write_settled by (auto simp: h1')
  have i1: "\<forall>i \<in> set (inputs h1). settled_input h1 i"
    using c by (simp add: h1' settled_input_def check_intervals_def check_inputs_def)
  have "\<forall>w \<in> set (cfg_writes (prefix_topics h1)). settled_write w" using prefix_topics_keep(2) w1 by blast
  moreover have "\<forall>i \<in> set (inputs (prefix_topics h1)). settled_input (prefix_topics h1) i"
    using prefix_topics_inputs [OF _ i1] by (simp add: settled_input_def prefix_topics_keep(1))
  ultimately have "(\<forall>w \<in> set (cfg_writes h2). settled_write w) \<and> (\<forall>i \<in> set (inputs h2). settled_input h2 i)"
    by (rule module_topics_settled [OF h2])
  then show ?thesis using settle_ack_settled by (simp add: g settled_input_def)
qed

section \<open>Accepted configurations\<close>

text \<open>
  C9. A configuration that is accepted is well formed: every write has a topic, a slave and an
  address, a function that fits its type and format and, as a block, channels that tile its
  registers, each register in exactly one of them; every input has an interval it can be polled
  at, every channel a format its register type and length allow; an ack asked for has a topic.
\<close>

theorem accepted_config_settled:
  assumes "config_parse_stream overrides ls before = Some (g, ps)"
  shows "(\<forall>w \<in> set (cfg_writes g). settled_write w \<and> (wr_ack w \<longrightarrow> wr_ack_topic w \<noteq> None))
     \<and> (\<forall>i \<in> set (inputs g). settled_input g i)"
proof -
  obtain g0 where "finish_config g0 = Some g"
    using assms by (auto simp: config_parse_stream_def Let_def split: option.splits)
  then show ?thesis by (rule finish_config_settled)
qed

definition block_lines :: "string list" where
  "block_lines =
     [''write.max = 1'', ''write.1.topic = plant/set'', ''write.1.slave = 1'', ''write.1.address = 0x10'',
      ''write.1.channel.max = 2'', ''write.1.channel.1.format = uint_ab'', ''write.1.channel.2.format = int_abcd'',
      ''write.1.channel.2.offset = 2'', ''write.1.ack = true'']"

definition block_accepted :: "modbusmq_config_t \<Rightarrow> bool" where
  "block_accepted g \<longleftrightarrow> (case cfg_writes g of [w] \<Rightarrow> wr_naddress w = 3 \<and> wr_channels w \<noteq> [] \<and> wr_ack w | _ \<Rightarrow> False)"

theorem accepted_config_settled_witness:
  "\<exists>g ps w. config_parse_stream [] block_lines config_zero = Some (g, ps) \<and> cfg_writes g = [w]
     \<and> tiled 3 (wr_channels w) \<and> wr_ack_topic w \<noteq> None"
proof -
  have "case config_parse_stream [] block_lines config_zero of None \<Rightarrow> False | Some (g, ps) \<Rightarrow> block_accepted g"
    by code_simp
  then obtain g ps where g: "config_parse_stream [] block_lines config_zero = Some (g, ps)" and ok: "block_accepted g"
    by (auto split: option.splits)
  obtain w where w: "cfg_writes g = [w]" "wr_naddress w = 3" "wr_channels w \<noteq> []" "wr_ack w"
    using ok by (auto simp: block_accepted_def split: list.splits)
  have "settled_write w \<and> (wr_ack w \<longrightarrow> wr_ack_topic w \<noteq> None)"
    using accepted_config_settled [OF g] w(1) by simp
  then have "tiled 3 (wr_channels w)" "wr_ack_topic w \<noteq> None" using w by (auto simp: settled_write_def)
  then show ?thesis using g w(1) by blast
qed

end
