(* ===== verification/Ack_Facts.thy ===== *)
theory Ack_Facts
  imports Bridge Rounds_Facts Loop_Facts "HOL-Library.Multiset"
begin

text \<open>
  The writes the bridge waits for against the queue of the library: whatever takes a direct
  request off the queue reports it, so no write is waited for that is not in the queue.
\<close>

section \<open>What leaves the direct requests alone\<close>

definition post_ids :: "modbusmq_msg_wrapper_t list \<Rightarrow> u32 multiset" where
  "post_ids q = {# req_id (wmsg w). w \<in># filter_mset is_post (mset q) #}"

definition desk :: "modbusmq_context_t \<Rightarrow> bool \<times> bool \<times> bool \<times> u32 \<times> event list" where
  "desk c = (has_message_cb c, has_error_cb c, raw_cb c, raw_req_id c, events c)"

definition quiet :: "modbusmq_context_t \<Rightarrow> modbusmq_context_t \<Rightarrow> bool" where
  "quiet c c' \<longleftrightarrow> desk c' = desk c \<and> post_ids (msg_queue c') = post_ids (msg_queue c)"

lemma post_ids_simps [simp]:
  "post_ids [] = {#}"
  "post_ids (w # q) = (if is_post w then {# req_id (wmsg w) #} else {#}) + post_ids q"
  "post_ids (q @ q') = post_ids q + post_ids q'"
  by (simp_all add: post_ids_def)

lemma mset_queue_insert: "mset (queue_insert w q) = add_mset w (mset q)"
proof (cases q)
  case (Cons h t)
  have "mset (takeWhile is_post t) + mset (dropWhile is_post t) = mset t"
    by (metis mset_append takeWhile_dropWhile_id)
  then show ?thesis by (auto simp: Cons queue_insert_Cons splice_def)
qed (simp add: queue_insert_Nil)

lemma post_ids_insert: "post_ids (queue_insert w q) = (if is_post w then {# req_id (wmsg w) #} else {#}) + post_ids q"
  by (simp add: post_ids_def mset_queue_insert)

lemma quiet_refl [simp, intro]: "quiet c c"
  by (simp add: quiet_def)

lemma quiet_trans: "quiet a b \<Longrightarrow> quiet b c \<Longrightarrow> quiet a c"
  by (simp add: quiet_def)

lemma quiet_updates [simp]:
  "quiet c (c\<lparr>ticks := t\<rparr>)" "quiet c (c\<lparr>timers := ts\<rparr>)" "quiet c (c\<lparr>err := e\<rparr>)" "quiet c (c\<lparr>tx := x\<rparr>)"
  "quiet c (c\<lparr>rx := y\<rparr>)" "quiet c (c\<lparr>last_write_ms := a\<rparr>)" "quiet c (c\<lparr>last_read_ms := b\<rparr>)"
  "quiet c (c\<lparr>resync_pending := p\<rparr>)" "quiet c (c\<lparr>round_active := r, round_start_ms := s, round_count := n\<rparr>)"
  "quiet c (c\<lparr>round_deep_slave := d\<rparr>)" "quiet c (c\<lparr>round_active := r, round_last_ms := s\<rparr>)"
  "quiet c (c\<lparr>slave_id := i\<rparr>)" "quiet c (c\<lparr>line_out := l\<rparr>)" "quiet c (c\<lparr>fd := n'\<rparr>)"
  by (simp_all add: quiet_def desk_def)

lemma quiet_cong: "quiet c d \<Longrightarrow> desk e = desk d \<Longrightarrow> msg_queue e = msg_queue d \<Longrightarrow> quiet c e"
  by (simp add: quiet_def)

lemma quiet_line: "line_only c c' \<Longrightarrow> quiet c c'"
  by (auto simp: line_only_def quiet_def desk_def)

lemma quiet_flush: "quiet c (snd (modbusmq_flush c))"
  by (rule quiet_line [OF flush_line_only])

lemma quiet_millitime: "millitime c = (now, c') \<Longrightarrow> quiet c c'"
  by (auto simp: millitime_def)

lemma quiet_set_head:
  assumes "msg_queue c = w # ws" and "req_id m = req_id (wmsg w)"
  shows "quiet c (set_head m c)"
  using assms by (simp add: quiet_def set_head_def desk_def)

section \<open>Polling\<close>

lemma quiet_post_poll: "quiet c (post_poll i tid c)"
proof -
  let ?m = "(tmsg (timers c ! i))\<lparr>msg_id := tid\<rparr>"
  obtain rc c1 m1 where p: "modbusmq_post_internal c ?m MODBUSMQ_MSG_SUBSCRIBE = (rc, c1, m1)" by (metis prod_cases3)
  then obtain l n w where "c1 = c\<lparr>link := l, req_id_next := n, msg_queue := queue_insert w (msg_queue c)\<rparr>"
      "flags w = MODBUSMQ_MSG_SUBSCRIBE"
    using post_internal_state [OF p] by blast
  then show ?thesis by (simp add: post_poll_def p Let_def quiet_def desk_def post_ids_insert)
qed

lemma quiet_fold: "(\<And>x d. quiet d (f x d)) \<Longrightarrow> quiet c (fold f xs c)"
  by (induction xs arbitrary: c) (auto intro: quiet_trans)

lemma quiet_round_post: "quiet c (modbusmq_round_post tier slave c)"
proof -
  have "quiet d (round_post_one tier slave i d)" for i d
  proof -
    obtain ok ts where g: "modbusmq_slave_gate (timers d) (timers d ! i) (clock d (ticks d)) = (ok, ts)" by fastforce
    have "quiet d (d\<lparr>ticks := Suc (ticks d), timers := ts\<rparr>)" by (simp add: quiet_def desk_def)
    then show ?thesis using quiet_trans [OF _ quiet_post_poll] by (simp add: round_post_one_eq g Let_def)
  qed
  then show ?thesis by (simp add: modbusmq_round_post_def quiet_fold)
qed

lemma quiet_start_round: "quiet c (start_round now c)"
proof -
  obtain s c0 where s: "modbusmq_round_next_deep_slave c = (s, c0)" by fastforce
  then obtain n where c0: "c0 = c\<lparr>ticks := n\<rparr>" using next_deep_slave_ticks by blast
  define c1 where "c1 = c0\<lparr>round_active := True, round_start_ms := now, round_count := round_count c0 + 1\<rparr>"
  define c2 where "c2 = modbusmq_round_post tier_fast (-1) c1"
  define c3 where "c3 = (if s \<ge> 0 then (modbusmq_round_post tier_deep s c2)\<lparr>round_deep_slave := s\<rparr> else c2)"
  have q1: "quiet c c1" by (simp add: c1_def c0 quiet_def desk_def)
  have q2: "quiet c1 c2" by (simp add: c2_def quiet_round_post)
  have q3: "quiet c2 c3" using quiet_trans [OF quiet_round_post quiet_updates(10)] by (simp add: c3_def)
  have "start_round now c = (if round_focus c3 \<ge> 0 \<and> round_focus c3 \<noteq> s
      then modbusmq_round_post tier_deep (round_focus c3) c3 else c3)"
    by (simp add: start_round_def s c1_def c2_def c3_def Let_def)
  then show ?thesis using quiet_trans [OF quiet_trans [OF q1 quiet_trans [OF q2 q3]] quiet_round_post] q1 q2 q3
    by (auto intro: quiet_trans)
qed

lemma quiet_prepare_rounds: "quiet c (fst (modbusmq_loop_prepare_rounds cfg c st))"
proof -
  let ?now = "clock c (ticks c)"
  let ?c = "c\<lparr>ticks := Suc (ticks c)\<rparr>"
  define d where "d = (if round_active c \<and> polls c = []
      then ?c\<lparr>round_active := False, round_last_ms := ?now - round_start_ms c\<rparr> else ?c)"
  have b: "modbusmq_round_busy ?c \<longleftrightarrow> polls c \<noteq> []" by (simp add: round_busy_polls polls_def)
  have "fst (modbusmq_loop_prepare_rounds cfg c st) =
    (if \<not> round_active d \<and> timers d \<noteq> [] \<and> ?now \<ge> round_start_ms d + word_of_int (round_interval_ms cfg)
     then start_round ?now d else d)"
    using b by (simp add: modbusmq_loop_prepare_rounds_def millitime_def Let_def d_def)
  moreover have "quiet c d" by (simp add: d_def quiet_def desk_def)
  ultimately show ?thesis using quiet_trans [OF _ quiet_start_round] by auto
qed

lemma quiet_walk_one: "quiet (fst s) (fst (walk_one now i s))"
proof -
  obtain c ms where s: "s = (c, ms)" by fastforce
  obtain ok ts where g: "modbusmq_slave_gate (timers c) (timers c ! i) now = (ok, ts)" by fastforce
  have "quiet c ((if ok then post_poll i tid (c\<lparr>timers := ts\<rparr>) else c\<lparr>timers := ts\<rparr>)\<lparr>timers := us\<rparr>)" for tid us
    using quiet_trans [OF quiet_trans [OF quiet_updates(2) quiet_post_poll] quiet_updates(2)]
      quiet_trans [OF quiet_updates(2) quiet_updates(2)] by auto
  then show ?thesis by (simp add: s walk_one_eq g Let_def)
qed

lemma quiet_prepare_walk: "quiet c (fst (prepare_walk c st))"
proof -
  have f: "quiet (fst s) (fst (fold (walk_one now) is s))" for now "is" s
  proof (induction "is" arbitrary: s)
    case (Cons i "is")
    then show ?case using quiet_trans [OF quiet_walk_one Cons.IH] by simp
  qed simp
  let ?ms = "if st > 0 then st else 1000 :: millitime_t" and ?c = "c\<lparr>ticks := Suc (ticks c)\<rparr>"
  have "quiet c (fst (fold (walk_one (clock c (ticks c))) [0..<length (timers c)] (?c, ?ms)))"
    using quiet_trans [OF quiet_updates(1) f [of "(?c, ?ms)", unfolded fst_conv]] .
  then show ?thesis unfolding prepare_walk_def millitime_def Let_def prod.case by simp
qed

lemma quiet_prepare_subscription: "quiet c (fst (modbusmq_loop_prepare_subscription c st))"
  using quiet_prepare_rounds quiet_prepare_walk
  by (simp add: modbusmq_loop_prepare_subscription_def split: option.split)

section \<open>The exchange\<close>

lemma check_header_req_id:
  assumes "modbusmq_check_header c m = (rc, m')"
  shows "req_id m' = req_id m"
proof (cases "link c")
  case (Tcp t)
  then have "modbusmq_tcp_msg_check_header m = (rc, m')" using assms by (simp add: modbusmq_check_header_def cb_def modbusmq_tcp_cb_def)
  then show ?thesis by (auto simp: modbusmq_tcp_msg_check_header_def Let_def split: if_splits)
next
  case (Rtu r)
  then have "modbusmq_rtu_msg_check_header c m = (rc, m')" using assms by (simp add: modbusmq_check_header_def cb_def modbusmq_rtu_cb_def)
  then show ?thesis by (auto simp: modbusmq_rtu_msg_check_header_def Let_def split: if_splits)
qed

lemma check_req_id:
  assumes "modbusmq_check c m = (rc, m')"
  shows "req_id m' = req_id m"
proof (cases "link c")
  case (Tcp t)
  obtain h m1 where h: "modbusmq_tcp_msg_check_header m = (h, m1)" by fastforce
  then have "m' = m1" using assms Tcp
    by (auto simp: modbusmq_check_def cb_def modbusmq_tcp_cb_def modbusmq_tcp_msg_check_def Let_def split: if_splits)
  moreover have "modbusmq_check_header c m = (h, m1)" using h Tcp by (simp add: modbusmq_check_header_def cb_def modbusmq_tcp_cb_def)
  ultimately show ?thesis using check_header_req_id by blast
next
  case (Rtu r)
  obtain h m1 where h: "modbusmq_rtu_msg_check_header c m = (h, m1)" by fastforce
  then have "m' = m1" using assms Rtu
    by (auto simp: modbusmq_check_def cb_def modbusmq_rtu_cb_def modbusmq_rtu_msg_check_def Let_def split: if_splits)
  moreover have "modbusmq_check_header c m = (h, m1)" using h Rtu by (simp add: modbusmq_check_header_def cb_def modbusmq_rtu_cb_def)
  ultimately show ?thesis using check_header_req_id by blast
qed

text \<open>A step of the exchange with its message: the desk and the queue stay, the request keeps its id.\<close>

definition calm :: "modbusmq_context_t \<Rightarrow> modbusmq_msg_t \<Rightarrow> modbusmq_context_t \<Rightarrow> modbusmq_msg_t \<Rightarrow> bool" where
  "calm c m c' m' \<longleftrightarrow> desk c' = desk c \<and> msg_queue c' = msg_queue c \<and> req_id m' = req_id m"

lemma calm_refl [simp, intro]: "calm c m c m"
  by (simp add: calm_def)

lemma calm_trans: "calm c m c1 m1 \<Longrightarrow> calm c1 m1 c2 m2 \<Longrightarrow> calm c m c2 m2"
  by (simp add: calm_def)

lemma calm_put: "calm c m c' m' \<Longrightarrow> calm c m c' (put_frame i f m')"
  by (simp add: calm_def)

lemma calm_updates:
  assumes "calm c m c' m'"
  shows "calm c m (c'\<lparr>ticks := t\<rparr>) m'" "calm c m (c'\<lparr>err := e\<rparr>) m'" "calm c m (c'\<lparr>last_write_ms := a\<rparr>) m'"
    "calm c m (c'\<lparr>last_read_ms := a\<rparr>) m'" "calm c m (c'\<lparr>resync_pending := p\<rparr>) m'"
  using assms by (simp_all add: calm_def desk_def)

lemma calm_line: "line_only c' d \<Longrightarrow> calm c m c' m' \<Longrightarrow> calm c m d m'"
  by (auto simp: line_only_def calm_def desk_def)

lemma calm_write:
  assumes "modbusmq_write c' f = (rc, d, f')" and "calm c m c' m'"
  shows "calm c m d m'"
proof -
  obtain l where "d = c'\<lparr>line_out := l\<rparr>"
  proof -
    let ?bs = "take (nat (flength f - xmit f)) (drop (nat (xmit f)) (fbuf f))"
    obtain r e where s: "sys_write ?bs c' = (r, e)" by fastforce
    then have "d = e" using assms(1)
      by (auto simp: modbusmq_write_def modbusmq_tcp_write_def modbusmq_rtu_write_def Let_def split: transport.splits if_splits)
    then show thesis using sys_write_shape [OF s] that by blast
  qed
  then show ?thesis using assms(2) by (simp add: calm_def desk_def)
qed

lemma calm_pending: "pending c' m' wi ri = (rc, d, m'') \<Longrightarrow> calm c m c' m' \<Longrightarrow> calm c m d m''"
  by (simp add: pending_def)

lemma calm_write_step:
  assumes "write_step c m wi ri = (rc, d, m')"
  shows "calm c m d m'"
proof -
  let ?start = "xmit (frame_at m wi) = 0"
  define c1 where "c1 = (if ?start then c\<lparr>ticks := Suc (ticks c)\<rparr> else c)"
  define gap where "gap \<longleftrightarrow> ?start \<and> 0 < modbusmq_frame_delay_left c1 (clock c (ticks c))"
  define c2 where "c2 = (if resync_pending c1 \<and> ?start then modbusmq_resync c1 else c1)"
  define c3 where "c3 = c2\<lparr>ticks := Suc (ticks c2), last_write_ms := clock c2 (ticks c2)\<rparr>"
  obtain n c4 w where w: "modbusmq_write c3 (frame_at m wi) = (n, c4, w)" by (metis prod_cases3)
  have k1: "calm c m c1 m" by (simp add: c1_def calm_def desk_def)
  have "calm c m (c1\<lparr>resync_pending := False\<rparr>) m" by (rule calm_updates(5) [OF k1])
  then have "calm c m (modbusmq_resync c1) m" unfolding modbusmq_resync_def by (rule calm_line [OF flush_line_only])
  then have "calm c m c2 m" using k1 by (simp add: c2_def)
  then have "calm c m c3 m" by (simp add: c3_def calm_def desk_def)
  then have k4: "calm c m c4 m" by (rule calm_write [OF w])
  let ?m = "put_frame wi w m"
  note k = calm_put [OF k4, of wi w] calm_put [OF calm_put [OF k4, of wi w], of ri "fresh_reader c4"]
  have e: "write_step c m wi ri = (if gap then (0, c1, m) else if n < 0 then (-1, c4\<lparr>err := err c4 + 1\<rparr>, ?m)
      else if flength w = xmit w then
        (if modbusmq_msg_broadcast c4 ?m then (0, c4, ?m)
         else if n \<noteq> 0 then (n, c4, put_frame ri (fresh_reader c4) ?m)
         else pending c4 (put_frame ri (fresh_reader c4) ?m) wi ri)
      else if n \<noteq> 0 then (n, c4, ?m) else pending c4 ?m wi ri)"
  proof (cases ?start)
    case True
    then show ?thesis using w by (cases "resync_pending c")
      (simp_all add: write_step_def millitime_def c1_def c2_def c3_def gap_def Let_def)
  next
    case False
    then show ?thesis using w by (simp add: write_step_def millitime_def c1_def c2_def c3_def gap_def Let_def)
  qed
  show ?thesis
    using assms k1 k calm_updates(2) [OF k(1)] unfolding e by (auto split: if_splits dest!: calm_pending intro: calm_trans)
qed

lemma calm_mismatch:
  assumes "mismatch_step c' m' wi ri = (rc, d, m'')" and k: "calm c m c' m'"
  shows "calm c m d m''"
proof -
  obtain drc r where dr: "modbusmq_frame_drain c' (frame_at m' ri) = (drc, r)" by fastforce
  have f: "calm c m ((snd (modbusmq_flush (c'\<lparr>err := err c' + 1\<rparr>)))\<lparr>resync_pending := True\<rparr>) m'"
    by (rule calm_updates(5) [OF calm_line [OF flush_line_only calm_updates(2) [OF k]]])
  show ?thesis
    using assms(1) k f
    by (auto simp: mismatch_step_def dr Let_def pending_def calm_def split: if_splits)
qed

lemma calm_read_step:
  assumes "read_step c m wi ri = (rc, d, m')"
  shows "calm c m d m'"
proof -
  let ?c = "c\<lparr>ticks := Suc (ticks c), last_read_ms := clock c (ticks c)\<rparr>"
  obtain n c1 r where r: "modbusmq_read ?c (frame_at m ri) = (n, c1, r)" by (metis prod_cases3)
  obtain h m2 where h: "modbusmq_check_header c1 (put_frame ri r m) = (h, m2)" by fastforce
  have "calm c m ?c m" by (simp add: calm_def desk_def)
  then have k1: "calm c m c1 m" by (rule calm_line [OF read_line_only [OF r]])
  have k2: "calm c m c1 m2" using k1 check_header_req_id [OF h] by (simp add: calm_def)
  show ?thesis
    using assms r h calm_updates(2) [OF calm_put [OF k1]] k2 calm_mismatch [OF _ k2] calm_pending [OF _ k2]
    by (auto simp: read_step_def millitime_def Let_def split: if_splits)
qed

lemma calm_handle: "modbusmq_handle_write_read c m revents = (rc, d, m') \<Longrightarrow> calm c m d m'"
  by (auto simp: modbusmq_handle_write_read_def Let_def split: if_splits
      intro: calm_write_step calm_read_step calm_pending [OF _ calm_refl])

section \<open>What is reported of a request that leaves the queue\<close>

fun event_ids :: "event \<Rightarrow> u32 multiset" where
  "event_ids (Ev_Message m) = {# req_id m #}"
| "event_ids (Ev_Error m error) = {# req_id m #}"
| "event_ids (Ev_Subscribe m n) = {#}"
| "event_ids (Ev_Raw_Reply reply) = {#}"

definition answered :: "event list \<Rightarrow> u32 multiset" where
  "answered evs = sum_list (map event_ids evs)"

lemma answered_simps [simp]:
  "answered [] = {#}" "answered (e # evs) = event_ids e + answered evs"
  "answered (evs @ evs') = answered evs + answered evs'"
  by (simp_all add: answered_def)

text \<open>The raw request, when it is the one that was answered.\<close>

definition raw_answered :: "modbusmq_context_t \<Rightarrow> modbusmq_context_t \<Rightarrow> u32 multiset" where
  "raw_answered c c' = (if raw_cb c \<and> \<not> raw_cb c' then {# raw_req_id c #} else {#})"

definition relays_to :: "u32 multiset \<Rightarrow> modbusmq_context_t \<Rightarrow> modbusmq_context_t \<Rightarrow> bool" where
  "relays_to gone c c' \<longleftrightarrow> has_message_cb c' = has_message_cb c \<and> has_error_cb c' = has_error_cb c
     \<and> (raw_cb c' \<longrightarrow> raw_cb c \<and> raw_req_id c' = raw_req_id c)
     \<and> (\<exists>evs. events c' = events c @ evs \<and> gone \<subseteq># answered evs + raw_answered c c')"

text \<open>Every direct request that is gone from the queue has been reported.\<close>

definition relays :: "modbusmq_context_t \<Rightarrow> modbusmq_context_t \<Rightarrow> bool" where
  "relays c c' \<longleftrightarrow> (\<exists>gone. relays_to gone c c' \<and> post_ids (msg_queue c) = post_ids (msg_queue c') + gone)"

lemma relays_quiet: "quiet c c' \<Longrightarrow> relays c c'"
  by (auto simp: quiet_def desk_def relays_def relays_to_def)

lemma relays_to_trans:
  assumes "relays_to a c d" and "relays_to b d e"
  shows "relays_to (a + b) c e"
proof -
  obtain evs where e1: "events d = events c @ evs" "a \<subseteq># answered evs + raw_answered c d"
    using assms(1) unfolding relays_to_def by blast
  obtain evs' where e2: "events e = events d @ evs'" "b \<subseteq># answered evs' + raw_answered d e"
    using assms(2) unfolding relays_to_def by blast
  have r: "raw_cb d \<longrightarrow> raw_cb c \<and> raw_req_id d = raw_req_id c" "raw_cb e \<longrightarrow> raw_cb d \<and> raw_req_id e = raw_req_id d"
    and k: "has_message_cb e = has_message_cb c" "has_error_cb e = has_error_cb c"
    using assms unfolding relays_to_def by simp_all
  have "raw_answered c d + raw_answered d e = raw_answered c e"
    using r by (cases "raw_cb c"; cases "raw_cb d"; cases "raw_cb e") (simp_all add: raw_answered_def)
  moreover have "a + b \<subseteq># (answered evs + raw_answered c d) + (answered evs' + raw_answered d e)"
    using e1(2) e2(2) by (rule subset_mset.add_mono)
  moreover have "(answered evs + raw_answered c d) + (answered evs' + raw_answered d e)
      = answered (evs @ evs') + (raw_answered c d + raw_answered d e)"
    by (simp add: ac_simps)
  ultimately have "a + b \<subseteq># answered (evs @ evs') + raw_answered c e" by simp
  moreover have "events e = events c @ (evs @ evs')" using e1(1) e2(1) by simp
  ultimately show ?thesis unfolding relays_to_def using r k by (intro conjI exI) auto
qed

lemma relays_trans:
  assumes "relays c d" and "relays d e"
  shows "relays c e"
proof -
  obtain a b where "relays_to a c d" "post_ids (msg_queue c) = post_ids (msg_queue d) + a"
      "relays_to b d e" "post_ids (msg_queue d) = post_ids (msg_queue e) + b"
    using assms by (auto simp: relays_def)
  then have "relays_to (a + b) c e" "post_ids (msg_queue c) = post_ids (msg_queue e) + (a + b)"
    using relays_to_trans by (auto simp: ac_simps)
  then show ?thesis by (auto simp: relays_def)
qed

text \<open>A report keeps the queue and takes account of the request it is about.\<close>

definition reports :: "modbusmq_msg_t \<Rightarrow> modbusmq_context_t \<Rightarrow> modbusmq_context_t \<Rightarrow> bool" where
  "reports m c c' \<longleftrightarrow> relays_to {# req_id m #} c c' \<and> msg_queue c' = msg_queue c"

lemma slave_update_desk:
  "desk (modbusmq_slave_update c tid ans) = desk c" "msg_queue (modbusmq_slave_update c tid ans) = msg_queue c"
  by (simp_all add: modbusmq_slave_update_def millitime_def Let_def desk_def split: option.split)

lemma raw_reply_reports: "modbusmq_raw_pending c m \<Longrightarrow> reports m c (modbusmq_raw_reply c text)"
  by (simp add: reports_def relays_to_def modbusmq_raw_reply_def modbusmq_raw_pending_def emit_def Let_def
      raw_answered_def)

lemma report_error_reports:
  assumes "has_error_cb c"
  shows "reports m c (modbusmq_report_error c m error)"
proof (cases "modbusmq_raw_pending c m")
  case True
  then show ?thesis using raw_reply_reports
    by (simp add: modbusmq_report_error_def modbusmq_raw_error_def Let_def)
next
  case False
  define d where "d = (if msg_id m > 0 \<and> (error = MODBUSMQ_ERR_TIMEOUT \<or> error = MODBUSMQ_ERR_EXCEPTION)
                  then modbusmq_slave_update c (msg_id m) (error = MODBUSMQ_ERR_EXCEPTION) else c)"
  have d: "desk d = desk c" "msg_queue d = msg_queue c" by (simp_all add: d_def slave_update_desk)
  have "modbusmq_report_error c m error = (if has_error_cb d then emit (Ev_Error m error) d else d)"
    using False by (simp add: modbusmq_report_error_def d_def Let_def)
  then show ?thesis using assms d by (auto simp: reports_def relays_to_def emit_def desk_def)
qed

lemma relays_report_drop:
  assumes q: "msg_queue c = w # ws" and m: "req_id m = req_id (wmsg w)" and r: "reports m c d"
    and e: "desk e = desk d" "msg_queue e = ws"
  shows "relays c e"
proof -
  have de: "relays_to {# req_id m #} c e"
    using r e(1) by (auto simp: reports_def relays_to_def desk_def raw_answered_def)
  show ?thesis
  proof (cases "is_post w")
    case True
    then show ?thesis using de q e(2) m by (auto simp: relays_def)
  next
    case False
    have "relays_to {#} c e" using de by (auto simp: relays_to_def)
    then show ?thesis using False q e(2) by (auto simp: relays_def)
  qed
qed

section \<open>The loop reports\<close>

lemma relays_expire_head:
  assumes "has_error_cb c"
  shows "relays c (expire_head c)"
proof (cases "msg_queue c")
  case Nil
  then show ?thesis by (simp add: expire_head_def relays_quiet)
next
  case (Cons w ws)
  let ?now = "clock c (ticks c)"
  define v where "v = (if head_since_ms w = 0 then w\<lparr>head_since_ms := ?now\<rparr> else w)"
  define d where "d = c\<lparr>ticks := Suc (ticks c), msg_queue := v # ws\<rparr>"
  define r where "r = modbusmq_report_error d (wmsg v) MODBUSMQ_ERR_TIMEOUT"
  have v: "wmsg v = wmsg w" "flags v = flags w" by (simp_all add: v_def)
  have q: "quiet c d" using Cons by (simp add: d_def quiet_def desk_def v)
  have rp: "reports (wmsg v) d r" using assms by (simp add: r_def d_def report_error_reports)
  have dr: "desk ((snd (modbusmq_flush x))\<lparr>resync_pending := True\<rparr>) = desk x"
    "msg_queue ((snd (modbusmq_flush x))\<lparr>resync_pending := True\<rparr>) = msg_queue x" for x
    using flush_line_only [of x] by (auto simp: line_only_def desk_def)
  have drop: "relays d e" if "desk e = desk r" "msg_queue e = tl (msg_queue r)" for e
  proof (rule relays_report_drop [OF _ _ rp that(1)])
    show "msg_queue d = v # ws" "req_id (wmsg v) = req_id (wmsg v)" by (simp_all add: d_def)
    then show "msg_queue e = ws" using that(2) rp by (simp add: reports_def)
  qed
  have "\<exists>e. expire_head c = e \<and> (e = d \<or> desk e = desk r \<and> msg_queue e = tl (msg_queue r))"
    using Cons dr by (auto simp: expire_head_def millitime_def Let_def drop_head_def r_def d_def v_def desk_def)
  then have "expire_head c = d \<or> relays d (expire_head c)" using drop by blast
  then show ?thesis using relays_trans [OF relays_quiet [OF q]] relays_quiet [OF q] by auto
qed

lemma relays_prepare:
  assumes "has_error_cb c" and "modbusmq_loop_prepare c st = (n, c', st', evs)"
  shows "relays c c'"
proof (cases "fd c < 0")
  case True
  then show ?thesis using assms(2) by (auto simp: modbusmq_loop_prepare_def intro: relays_quiet)
next
  case False
  obtain c2 s2 where p: "modbusmq_loop_prepare_subscription (expire_head c) st = (c2, s2)" by fastforce
  have r: "relays c c2"
    using relays_trans [OF relays_expire_head [OF assms(1)] relays_quiet [OF quiet_prepare_subscription, of "expire_head c" st]] p
    by simp
  have "quiet c2 c'"
  proof (cases "msg_queue c2")
    case Nil
    then show ?thesis using assms(2) False p by (auto simp: modbusmq_loop_prepare_def)
  next
    case (Cons w ws)
    have "quiet c2 (set_head (mark_frames (wmsg w)) c2)"
      by (rule quiet_set_head [OF Cons]) (simp add: mark_frames_def)
    then show ?thesis using assms(2) False p Cons quiet_trans [OF _ quiet_updates(1)]
      by (auto simp: modbusmq_loop_prepare_def millitime_def Let_def split: if_splits)
  qed
  then show ?thesis using relays_trans [OF r relays_quiet] by blast
qed

lemma relays_to_desk: "desk c' = desk c \<Longrightarrow> relays_to {#} c c'"
  by (auto simp: relays_to_def desk_def)

lemma deliver_poll_relays:
  "relays_to {#} c (deliver_poll gcfg c m) \<and> msg_queue (deliver_poll gcfg c m) = msg_queue c"
proof -
  have one: "relays_to {#} d (emit (Ev_Subscribe m i) d)" for d i
    by (simp add: relays_to_def emit_def)
  have f: "relays_to {#} d (foldl (\<lambda>c i. emit (Ev_Subscribe m i) c) d is)
     \<and> msg_queue (foldl (\<lambda>c i. emit (Ev_Subscribe m i) c) d is) = msg_queue d" for d "is"
  proof (induction "is" arbitrary: d)
    case (Cons i "is")
    then show ?case using relays_to_trans [OF one] by (fastforce simp: emit_def)
  qed (simp add: relays_to_desk)
  let ?u = "modbusmq_slave_update c (msg_id m) True"
  have u: "relays_to {#} c (?u\<lparr>timers := once_answered (msg_id m) (timers ?u)\<rparr>)"
    by (rule relays_to_desk) (use slave_update_desk [of c "msg_id m" True] in \<open>simp add: desk_def\<close>)
  show ?thesis
    unfolding deliver_poll_def Let_def
    using relays_to_trans [OF u conjunct1 [OF f]] conjunct2 [OF f] slave_update_desk(2) [of c "msg_id m" True] by simp
qed

lemma relays_handle_msg:
  assumes "has_error_cb c" "has_message_cb c" and q: "msg_queue c = w # ws"
    and h: "modbusmq_handle_msg gcfg c w = (rc, c')"
  shows "relays c c'"
proof -
  obtain k m where k: "modbusmq_check c (wmsg w) = (k, m)" by fastforce
  note m = check_req_id [OF k]
  show ?thesis
  proof (cases "k = 0")
    case False
    let ?d = "(snd (modbusmq_flush (c\<lparr>err := err c + 1\<rparr>)))\<lparr>resync_pending := True\<rparr>"
    have d: "desk ?d = desk c" "msg_queue ?d = msg_queue c"
      using flush_line_only [of "c\<lparr>err := err c + 1\<rparr>"] by (auto simp: line_only_def desk_def)
    define r where "r = modbusmq_report_error ?d m (modbusmq_reject_reason ?d m)"
    have "has_error_cb ?d" using d(1) assms(1) by (simp add: desk_def)
    then have r: "reports m ?d r" by (simp add: r_def report_error_reports)
    have "relays ?d (drop_head r)"
    proof (rule relays_report_drop [OF _ m r])
      show "msg_queue ?d = w # ws" using d(2) q by simp
      show "desk (drop_head r) = desk r" by (simp add: drop_head_def desk_def)
      show "msg_queue (drop_head r) = ws" using r d(2) q by (simp add: reports_def drop_head_def)
    qed
    moreover have "quiet c ?d" using d by (simp add: quiet_def)
    ultimately show ?thesis using h k False relays_trans [OF relays_quiet]
      by (auto simp: modbusmq_handle_msg_def Let_def r_def)
  next
    case True
    define d where "d = (if flags w = MODBUSMQ_MSG_POST \<and> modbusmq_raw_pending c m then modbusmq_raw_done c m
               else if flags w = MODBUSMQ_MSG_POST then emit (Ev_Message m) c
               else if flags w = MODBUSMQ_MSG_SUBSCRIBE \<and> has_subscribe_cb c then deliver_poll gcfg c m else c)"
    have c': "c' = drop_head d" using h k True assms(2) by (auto simp: modbusmq_handle_msg_def d_def Let_def)
    have "relays_to (if is_post w then {# req_id m #} else {#}) c d \<and> msg_queue d = msg_queue c"
    proof (cases "is_post w")
      case True
      have "reports m c (emit (Ev_Message m) c)" by (simp add: reports_def relays_to_def emit_def)
      moreover have "modbusmq_raw_pending c m \<Longrightarrow> reports m c (modbusmq_raw_done c m)"
        using raw_reply_reports by (simp add: modbusmq_raw_done_def Let_def)
      ultimately show ?thesis using True by (simp add: d_def reports_def)
    next
      case False
      then show ?thesis using deliver_poll_relays [of c gcfg m] by (simp add: d_def relays_to_desk)
    qed
    moreover have "desk c' = desk d" "msg_queue c' = tl (msg_queue d)" by (simp_all add: c' drop_head_def desk_def)
    ultimately show ?thesis
      using q m by (auto simp: relays_def relays_to_def desk_def raw_answered_def)
  qed
qed

lemma relays_write_read:
  assumes "has_error_cb c" "has_message_cb c" and l: "modbusmq_loop_write_read gcfg c revents = (rc, c')"
  shows "relays c c'"
proof (cases "msg_queue c")
  case Nil
  then show ?thesis using l by (auto simp: modbusmq_loop_write_read_def intro: relays_quiet split: if_splits)
next
  case (Cons w ws)
  obtain k d m where h: "modbusmq_handle_write_read c (wmsg w) revents = (k, d, m)" by (metis prod_cases3)
  note calm = calm_handle [OF h, unfolded calm_def]
  let ?s = "set_head m d"
  have sq: "msg_queue ?s = w\<lparr>wmsg := m\<rparr> # ws" and sd: "desk ?s = desk c"
    using calm Cons by (simp_all add: set_head_def desk_def)
  have q: "quiet c ?s" using calm Cons by (simp add: quiet_def sd sq)
  have cb: "has_error_cb ?s" "has_message_cb ?s" using sd assms(1,2) by (simp_all add: desk_def)
  have drop: "relays c (drop_head (modbusmq_report_error e m error))" if e: "desk e = desk ?s" "msg_queue e = msg_queue ?s" for e error
  proof (rule relays_trans [OF relays_quiet])
    show "quiet c e" using q e by (simp add: quiet_def)
    have r: "reports m e (modbusmq_report_error e m error)" using e(1) cb by (intro report_error_reports) (simp add: desk_def)
    show "relays e (drop_head (modbusmq_report_error e m error))"
    proof (rule relays_report_drop [OF _ _ r])
      show "msg_queue e = w\<lparr>wmsg := m\<rparr> # ws" "req_id m = req_id (wmsg (w\<lparr>wmsg := m\<rparr>))" using e(2) sq by simp_all
      show "desk (drop_head (modbusmq_report_error e m error)) = desk (modbusmq_report_error e m error)"
        by (simp add: drop_head_def desk_def)
      show "msg_queue (drop_head (modbusmq_report_error e m error)) = ws"
        using r e(2) sq by (simp add: reports_def drop_head_def)
    qed
  qed
  have msg: "relays c e" if "modbusmq_handle_msg gcfg (?s\<lparr>tx := tx ?s + 1, rx := rx ?s + 1\<rparr>) (w\<lparr>wmsg := m\<rparr>) = (rc, e)" for e
  proof (rule relays_trans [OF relays_quiet relays_handle_msg [OF _ _ _ that]])
    show "quiet c (?s\<lparr>tx := tx ?s + 1, rx := rx ?s + 1\<rparr>)" using q by (simp add: quiet_def desk_def)
  qed (use cb sq in simp_all)
  have de: "desk (?s\<lparr>err := x\<rparr>) = desk ?s" "msg_queue (?s\<lparr>err := x\<rparr>) = msg_queue ?s" for x by (simp_all add: desk_def)
  show ?thesis
    using l h Cons drop [OF refl refl] drop [OF de] msg relays_quiet [OF q]
    by (auto simp: modbusmq_loop_write_read_def Let_def split: if_splits)
qed

lemma relays_reset_queue:
  assumes "has_error_cb c"
  shows "relays c (modbusmq_reset_queue c)" "msg_queue (modbusmq_reset_queue c) = []"
proof -
  have f: "\<exists>d. foldl (\<lambda>c w. modbusmq_report_error c (wmsg w) MODBUSMQ_ERR_TRANSPORT) c q = d
      \<and> relays_to (post_ids q) c d" if "has_error_cb c" for c q
    using that
  proof (induction q arbitrary: c)
    case Nil
    then show ?case by (simp add: relays_to_desk)
  next
    case (Cons w q)
    let ?d = "modbusmq_report_error c (wmsg w) MODBUSMQ_ERR_TRANSPORT"
    have r: "relays_to {# req_id (wmsg w) #} c ?d"
      using report_error_reports [OF Cons.prems] by (simp add: reports_def)
    then have p: "relays_to (if is_post w then {# req_id (wmsg w) #} else {#}) c ?d"
      by (auto simp: relays_to_def)
    have "has_error_cb ?d" using r Cons.prems by (simp add: relays_to_def)
    from Cons.IH [OF this] show ?case using relays_to_trans [OF p] by auto
  qed
  have rearm: "desk (fst (once_rearm_loop d ts)) = desk d \<and> msg_queue (fst (once_rearm_loop d ts)) = msg_queue d" for d ts
  proof (induction ts arbitrary: d)
    case (Cons t ts)
    let ?d = "if is_once t then d\<lparr>ticks := Suc (ticks d)\<rparr> else d"
    have "fst (once_rearm_loop d (t # ts)) = fst (once_rearm_loop ?d ts)"
      by (simp add: millitime_def split_beta)
    then show ?case using Cons [of ?d] by (simp add: desk_def)
  qed simp
  obtain d where d: "foldl (\<lambda>c w. modbusmq_report_error c (wmsg w) MODBUSMQ_ERR_TRANSPORT) c (msg_queue c) = d"
      "relays_to (post_ids (msg_queue c)) c d"
    using f [OF assms] by blast
  obtain e ts where e: "once_rearm_loop (d\<lparr>msg_queue := []\<rparr>) (timers d) = (e, ts)" by fastforce
  have m: "modbusmq_reset_queue c = e\<lparr>timers := ts\<rparr>"
    using d(1) e by (simp add: modbusmq_reset_queue_def modbusmq_once_rearm_def)
  have k: "desk e = desk d" "msg_queue e = []"
    using rearm [of "d\<lparr>msg_queue := []\<rparr>" "timers d"] e by (simp_all add: desk_def)
  show "msg_queue (modbusmq_reset_queue c) = []" by (simp add: m k(2))
  have "relays_to (post_ids (msg_queue c)) c (modbusmq_reset_queue c)"
    using d(2) k(1) by (auto simp: m relays_to_def desk_def raw_answered_def)
  then show "relays c (modbusmq_reset_queue c)" by (auto simp: relays_def m k(2))
qed

section \<open>The callbacks\<close>

definition awaited :: "bridge \<Rightarrow> u32 multiset" where
  "awaited b = image_mset pw_req_id (mset (pending_writes b))"

definition same_desk :: "bridge \<Rightarrow> bridge \<Rightarrow> bool" where
  "same_desk b b' \<longleftrightarrow> desk (br_context b') = desk (br_context b) \<and> msg_queue (br_context b') = msg_queue (br_context b)
     \<and> mqtt_topic_prefix (br_config b') = mqtt_topic_prefix (br_config b)"

lemma same_desk_refl [simp]: "same_desk b b"
  by (simp add: same_desk_def)

lemma same_desk_trans: "same_desk a b \<Longrightarrow> same_desk b c \<Longrightarrow> same_desk a c"
  by (simp add: same_desk_def)

lemma take_pending_ids:
  assumes "take_pending rid ps = (taken, rest)"
  shows "image_mset pw_req_id (mset rest) = image_mset pw_req_id (mset ps) - {# rid #}"
  using assms
proof (induction ps arbitrary: rest taken)
  case (Cons p ps)
  obtain t r where t: "take_pending rid ps = (t, r)" by fastforce
  show ?case using Cons t by (auto split: if_splits)
qed simp

lemma write_result_keeps:
  "same_desk b (mqtt_write_result w rid status v reason message code b)"
  "pending_writes (mqtt_write_result w rid status v reason message code b) = pending_writes b"
  by (simp_all add: mqtt_write_result_def mosquitto_publish_def same_desk_def Let_def)

lemma bridge_millitime_keeps:
  assumes "bridge_millitime b = (now, b')"
  shows "same_desk b b'" "pending_writes b' = pending_writes b" "br_config b' = br_config b"
  using assms by (auto simp: bridge_millitime_def millitime_def same_desk_def desk_def)

lemma deliver_channel_keeps:
  "same_desk b (deliver_channel m n k b) \<and> pending_writes (deliver_channel m n k b) = pending_writes b"
proof -
  let ?i = "inputs (br_config b) ! n"
  let ?ch = "in_channels ?i ! k"
  obtain now b1 where t: "bridge_millitime b = (now, b1)" by fastforce
  note k = bridge_millitime_keeps [OF t]
  have p: "same_desk x (publish_channel ch str (set_channel n k c x))" "same_desk x (set_channel n k c x)"
    "pending_writes (publish_channel ch str (set_channel n k c x)) = pending_writes x"
    "pending_writes (set_channel n k c x) = pending_writes x" for x ch str c
    by (simp_all add: publish_channel_def set_channel_def mosquitto_publish_def same_desk_def Let_def)
  show ?thesis
  proof (cases "channel_text b m ?i ?ch")
    case None
    then show ?thesis by (simp add: deliver_channel_def)
  next
    case (Some ft)
    obtain f str where ft: "ft = (f, str)" by fastforce
    obtain send ch' where d: "modbusmq_channel_publish_decide ?i ?ch f str now = (send, ch')" by fastforce
    have "deliver_channel m n k b = (if send then publish_channel ch' str (set_channel n k ch' b1) else set_channel n k ch' b1)"
      using Some ft t d k(3) by (simp add: deliver_channel_def Let_def)
    then show ?thesis using k p [where x = b1] same_desk_trans by (simp split: if_split)
  qed
qed

lemma subscription_callback_keeps:
  "same_desk b (modbusmq_subscription_callback m n b)
     \<and> pending_writes (modbusmq_subscription_callback m n b) = pending_writes b"
proof -
  have "same_desk d (fold (deliver_channel m n) ks d) \<and> pending_writes (fold (deliver_channel m n) ks d) = pending_writes d" for d ks
  proof (induction ks arbitrary: d)
    case (Cons k ks)
    then show ?case using deliver_channel_keeps [of d m n k] same_desk_trans by fastforce
  qed simp
  then show ?thesis by (simp add: modbusmq_subscription_callback_def)
qed

lemma run_callback_effect:
  "same_desk b (run_callback e b) \<and> awaited (run_callback e b) = awaited b - event_ids e"
proof (cases e)
  case (Ev_Message m)
  obtain taken rest where t: "take_pending (req_id m) (pending_writes b) = (taken, rest)" by fastforce
  show ?thesis
    using take_pending_ids [OF t] write_result_keeps
    by (cases taken) (simp_all add: Ev_Message modbusmq_message_callback_def pending_write_take_def t awaited_def
        mqtt_write_ack_def same_desk_def)
next
  case (Ev_Error m error)
  obtain taken rest where t: "take_pending (req_id m) (pending_writes b) = (taken, rest)" by fastforce
  show ?thesis
    using take_pending_ids [OF t] write_result_keeps
    by (cases taken) (simp_all add: Ev_Error modbusmq_error_callback_def pending_write_take_def t awaited_def
        mqtt_write_nack_def same_desk_def Let_def)
next
  case (Ev_Subscribe m n)
  then show ?thesis using subscription_callback_keeps [of b m n] by (simp add: awaited_def)
next
  case (Ev_Raw_Reply reply)
  then show ?thesis by (simp add: raw_reply_callback_def mosquitto_publish_def same_desk_def awaited_def)
qed

lemma run_callbacks_effect:
  "desk (br_context (run_callbacks b)) = desk ((br_context b)\<lparr>events := []\<rparr>)
   \<and> msg_queue (br_context (run_callbacks b)) = msg_queue (br_context b)
   \<and> mqtt_topic_prefix (br_config (run_callbacks b)) = mqtt_topic_prefix (br_config b)
   \<and> awaited (run_callbacks b) = awaited b - answered (events (br_context b))"
proof -
  have "same_desk d (fold run_callback evs d) \<and> awaited (fold run_callback evs d) = awaited d - answered evs" for d evs
  proof (induction evs arbitrary: d)
    case (Cons e evs)
    then show ?case using run_callback_effect [of d e] same_desk_trans by fastforce
  qed simp
  from this [of "b\<lparr>br_context := (br_context b)\<lparr>events := []\<rparr>\<rparr>" "events (br_context b)"]
  show ?thesis by (simp add: run_callbacks_def same_desk_def awaited_def)
qed

section \<open>No write is waited for in vain\<close>

text \<open>
  Between two calls into the library: both callbacks are set, nothing is left to report, and
  every write waited for is a direct request in the queue, other than the raw one.
\<close>

definition waiting_ok :: "bridge \<Rightarrow> bool" where
  "waiting_ok b \<longleftrightarrow> has_message_cb (br_context b) \<and> has_error_cb (br_context b) \<and> events (br_context b) = []
     \<and> awaited b \<subseteq># post_ids (msg_queue (br_context b))
     \<and> (raw_cb (br_context b) \<longrightarrow> raw_req_id (br_context b) \<notin># awaited b)"

lemma waiting_ok_same: "same_desk b b' \<Longrightarrow> awaited b' = awaited b \<Longrightarrow> waiting_ok b \<Longrightarrow> waiting_ok b'"
  by (simp add: waiting_ok_def same_desk_def desk_def)

text \<open>The same with no raw request in flight and the topics below \<open>p\<close>.\<close>

definition settled :: "string option \<Rightarrow> bridge \<Rightarrow> bool" where
  "settled p b \<longleftrightarrow> waiting_ok b \<and> \<not> raw_cb (br_context b) \<and> mqtt_topic_prefix (br_config b) = p"

lemma settled_same: "same_desk b b' \<Longrightarrow> awaited b' = awaited b \<Longrightarrow> settled p b \<Longrightarrow> settled p b'"
  using waiting_ok_same [of b b'] by (auto simp: settled_def same_desk_def desk_def)

lemma waiting_ok_relays:
  assumes ok: "waiting_ok b" and r: "relays (br_context b) c" and b': "pending_writes b' = pending_writes b" "br_context b' = c"
  shows "waiting_ok (run_callbacks b')"
proof -
  obtain gone evs where g: "relays_to gone (br_context b) c"
      and q: "post_ids (msg_queue (br_context b)) = post_ids (msg_queue c) + gone"
      and e: "events c = evs" "gone \<subseteq># answered evs + raw_answered (br_context b) c"
    using r ok by (auto simp: relays_def relays_to_def waiting_ok_def)
  let ?A = "awaited b" and ?R = "raw_answered (br_context b) c"
  have "?A \<subseteq># post_ids (msg_queue c) + gone" using ok q by (simp add: waiting_ok_def)
  also have "\<dots> \<subseteq># post_ids (msg_queue c) + answered evs + ?R" using e(2) by (simp add: add.assoc)
  finally have sub: "?A \<subseteq># post_ids (msg_queue c) + answered evs + ?R" .
  have "?A \<subseteq># post_ids (msg_queue c) + answered evs"
  proof (cases "?R = {#}")
    case False
    then obtain rid where rid: "?R = {# rid #}" "rid \<notin># ?A"
      using ok by (auto simp: raw_answered_def waiting_ok_def split: if_splits)
    then have "?A - {# rid #} = ?A" by (simp add: diff_single_trivial)
    then show ?thesis using sub rid(1) by (metis subset_eq_diff_conv)
  qed (use sub in simp)
  then have "?A - answered evs \<subseteq># post_ids (msg_queue c)" by (simp add: subset_eq_diff_conv)
  then show ?thesis
    using run_callbacks_effect [of b'] ok g b' e(1)
    by (auto simp: waiting_ok_def desk_def relays_to_def awaited_def dest: in_diffD)
qed

lemma settled_relays:
  assumes "settled p b" and r: "relays (br_context b) c"
    and b': "pending_writes b' = pending_writes b" "br_context b' = c" "br_config b' = br_config b"
  shows "settled p (run_callbacks b')"
proof -
  have "waiting_ok (run_callbacks b')" using waiting_ok_relays [OF _ r b'(1,2)] assms(1) by (simp add: settled_def)
  moreover have "\<not> raw_cb c" using assms(1) r by (auto simp: settled_def relays_def relays_to_def)
  ultimately show ?thesis
    using run_callbacks_effect [of b'] assms(1) b' by (simp add: settled_def desk_def)
qed

lemma settled_quiet:
  assumes "settled p b" and "quiet (br_context b) c"
  shows "settled p (bridge_context c b)"
  using assms by (simp add: settled_def waiting_ok_def quiet_def desk_def bridge_context_def awaited_def)

end
