(* ===== verification/Opening.thy ===== *)
theory Opening
  imports Connect Reply
begin

text \<open>
  Opening the link: \<open>modbusmq_rtu_connect\<close> with the settings it gives the serial port,
  \<open>modbusmq_tcp_connect\<close> with its walk over the addresses of a host, and the listening
  socket of programs/modbusmq_server.c. What the system calls return is an argument; the
  descriptors that are closed again are part of the result.
\<close>

section \<open>The serial port\<close>

text \<open>
  \<open>struct termios\<close> as far as the source sets it; a speed \<open>B\<close>\<open>n\<close> is the rate \<open>n\<close> it stands
  for. All bits are clear and \<open>CSIZE\<close> is \<open>CS5\<close> after \<open>memset\<close>.
\<close>

record termios =
  tio_speed :: int
  tio_csize :: int
  tio_cread :: bool
  tio_clocal :: bool
  tio_cstopb :: bool
  tio_parenb :: bool
  tio_parodd :: bool
  tio_icanon :: bool
  tio_echo :: bool
  tio_isig :: bool
  tio_inpck :: bool
  tio_icrnl :: bool
  tio_ixon :: bool
  tio_opost :: bool
  tio_vmin :: int
  tio_vtime :: int

definition termios_zero :: termios where
  "termios_zero =
     \<lparr>tio_speed = 0, tio_csize = 5, tio_cread = False, tio_clocal = False, tio_cstopb = False, tio_parenb = False,
      tio_parodd = False, tio_icanon = False, tio_echo = False, tio_isig = False, tio_inpck = False,
      tio_icrnl = False, tio_ixon = False, tio_opost = False, tio_vmin = 0, tio_vtime = 0\<rparr>"

definition baud_map :: "int list" where
  "baud_map =
     [110, 300, 600, 1200, 2400, 4800, 9600, 19200, 38400, 57600, 115200, 230400, 460800, 500000, 576000,
      921600, 1000000, 1152000, 1500000, 2500000, 3000000, 3500000, 4000000]"

definition modbusmq_rtu_get_termios_speed :: "int \<Rightarrow> int" where
  "modbusmq_rtu_get_termios_speed baud = (if baud \<in> set baud_map then baud else 9600)"

text \<open>The settings, where the constants of the speeds are not the rates themselves.\<close>

definition rtu_termios :: "modbusmq_rtu_context_t \<Rightarrow> termios" where
  "rtu_termios rtu =
     (let none = (rtu_parity rtu = CHR ''N'')
      in termios_zero
           \<lparr>tio_speed := modbusmq_rtu_get_termios_speed (rtu_baud rtu),
            tio_cread := True, tio_clocal := True,
            tio_csize := (if rtu_databit rtu \<in> {5, 6, 7} then rtu_databit rtu else 8),
            tio_cstopb := (rtu_stopbit rtu \<noteq> 1),
            tio_parenb := \<not> none,
            tio_parodd := (\<not> none \<and> rtu_parity rtu \<noteq> CHR ''E''),
            tio_icanon := False, tio_echo := False, tio_isig := False,
            tio_inpck := \<not> none, tio_ixon := False, tio_opost := False,
            tio_vmin := 0, tio_vtime := 0\<rparr>)"

text \<open>What \<open>open\<close>, \<open>cfsetispeed\<close>/\<open>cfsetospeed\<close> and \<open>tcsetattr\<close> give.\<close>

record rtu_calls =
  rc_open :: int
  rc_speed :: int
  rc_setattr :: int

record opened =
  op_rc :: int
  op_context :: modbusmq_context_t
  op_closed :: "int list"
  op_termios :: "termios option"

definition modbusmq_rtu_connect :: "rtu_calls \<Rightarrow> modbusmq_rtu_context_t \<Rightarrow> modbusmq_context_t \<Rightarrow> opened" where
  "modbusmq_rtu_connect e rtu c =
     (let sd = rc_open e; failed = \<lparr>op_rc = -1, op_context = c, op_closed = [], op_termios = None\<rparr>
      in if sd < 0 then failed
         else if rc_speed e < 0 then failed\<lparr>op_closed := [sd]\<rparr>
         else if rc_setattr e < 0 then failed\<lparr>op_closed := [sd]\<rparr>
         else \<lparr>op_rc = 0, op_context = c\<lparr>fd := sd\<rparr>, op_closed = [], op_termios = Some (rtu_termios rtu)\<rparr>)"

section \<open>The socket\<close>

text \<open>
  How \<open>connect\<close> returns; \<open>EINPROGRESS\<close> comes with what \<open>poll\<close> returns, whether it reports
  \<open>POLLOUT\<close>, and the error of the socket then, not zero either when that cannot be read.
\<close>

datatype connect_outcome = Connected | In_Progress int bool int | Connect_Failed

record address =
  ad_socket :: int
  ad_flags_ok :: bool
  ad_connect :: connect_outcome

definition connects :: "connect_outcome \<Rightarrow> bool" where
  "connects r =
     (case r of
        Connected \<Rightarrow> True
      | In_Progress rc pollout so_error \<Rightarrow> rc > 0 \<and> pollout \<and> so_error = 0
      | Connect_Failed \<Rightarrow> False)"

text \<open>The addresses in turn: the socket that connected, -1 without one, and those closed on the way.\<close>

fun try_addresses :: "address list \<Rightarrow> int \<times> int list" where
  "try_addresses [] = (-1, [])"
| "try_addresses (a # as) =
     (if ad_socket a < 0 then try_addresses as
      else if ad_flags_ok a \<and> connects (ad_connect a) then (ad_socket a, [])
      else (let (sd, shut) = try_addresses as in (sd, ad_socket a # shut)))"

text \<open>\<open>None\<close>: the name was not resolved.\<close>

definition modbusmq_tcp_connect :: "address list option \<Rightarrow> modbusmq_context_t \<Rightarrow> opened" where
  "modbusmq_tcp_connect resolved c =
     (case resolved of
        None \<Rightarrow> \<lparr>op_rc = -1, op_context = c, op_closed = [], op_termios = None\<rparr>
      | Some as \<Rightarrow>
          (let (sd, shut) = try_addresses as
           in if sd < 0 then \<lparr>op_rc = -1, op_context = c, op_closed = shut, op_termios = None\<rparr>
              else \<lparr>op_rc = 0, op_context = c\<lparr>fd := sd\<rparr>, op_closed = shut, op_termios = None\<rparr>))"

text \<open>The entry of the operation table behind \<open>modbusmq_connect\<close>.\<close>

definition link_open :: "rtu_calls \<Rightarrow> address list option \<Rightarrow> modbusmq_context_t \<Rightarrow> int \<times> modbusmq_context_t" where
  "link_open e resolved c =
     (let r = (case link c of Rtu rtu \<Rightarrow> modbusmq_rtu_connect e rtu c | Tcp _ \<Rightarrow> modbusmq_tcp_connect resolved c)
      in (op_rc r, op_context r))"

section \<open>The listening socket\<close>

text \<open>The results of \<open>socket\<close>, \<open>bind\<close> and \<open>listen\<close>; the descriptor or -1, and what was closed.\<close>

definition modbusmq_tcp_server :: "int \<Rightarrow> int \<Rightarrow> int \<Rightarrow> int \<times> int list" where
  "modbusmq_tcp_server sd bind_rc listen_rc =
     (if sd < 0 then (-1, [])
      else if bind_rc < 0 then (-1, [sd])
      else if listen_rc < 0 then (-1, [sd])
      else (sd, []))"

definition modbusmq_server :: "modbusmq_context_t \<Rightarrow> int \<Rightarrow> int \<Rightarrow> int \<Rightarrow> int \<times> int list" where
  "modbusmq_server c sd bind_rc listen_rc =
     (case link c of Tcp _ \<Rightarrow> modbusmq_tcp_server sd bind_rc listen_rc | Rtu _ \<Rightarrow> (-1, []))"

section \<open>Setting up and giving up\<close>

text \<open>A callback is set or taken away.\<close>

definition modbusmq_set_message_callback :: "bool \<Rightarrow> modbusmq_context_t \<Rightarrow> modbusmq_context_t" where
  "modbusmq_set_message_callback there c = c\<lparr>has_message_cb := there\<rparr>"

definition modbusmq_set_subscription_callback :: "bool \<Rightarrow> modbusmq_context_t \<Rightarrow> modbusmq_context_t" where
  "modbusmq_set_subscription_callback there c = c\<lparr>has_subscribe_cb := there\<rparr>"

definition modbusmq_set_error_callback :: "bool \<Rightarrow> modbusmq_context_t \<Rightarrow> modbusmq_context_t" where
  "modbusmq_set_error_callback there c = c\<lparr>has_error_cb := there\<rparr>"

text \<open>What is left of a context that is freed: the descriptors it closes.\<close>

definition modbusmq_free :: "modbusmq_context_t \<Rightarrow> int list" where
  "modbusmq_free c = (if 0 \<le> fd c then [fd c] else [])"

section \<open>What opening leaves behind\<close>

lemma try_addresses_nonneg: "try_addresses as = (sd, shut) \<Longrightarrow> -1 \<le> sd \<and> (\<forall>x \<in> set shut. 0 \<le> x)"
proof (induction as arbitrary: sd shut)
  case (Cons a as)
  obtain s k where t: "try_addresses as = (s, k)" by fastforce
  from Cons.IH [OF this] Cons.prems t show ?case by (auto split: if_splits)
qed simp

text \<open>The first address that connects is taken; every other socket opened before it is closed.\<close>

lemma try_addresses_first:
  assumes "\<forall>a \<in> set as. \<not> (0 \<le> ad_socket a \<and> ad_flags_ok a \<and> connects (ad_connect a))"
  shows "try_addresses (as @ bs) = (let (sd, shut) = try_addresses bs in
      (sd, filter (\<lambda>x. 0 \<le> x) (map ad_socket as) @ shut))"
  using assms by (induction as) (auto simp: Let_def split_beta)

lemma try_addresses_connected:
  assumes "\<forall>a \<in> set as. \<not> (0 \<le> ad_socket a \<and> ad_flags_ok a \<and> connects (ad_connect a))"
    and "0 \<le> ad_socket a" "ad_flags_ok a" "connects (ad_connect a)"
  shows "try_addresses (as @ a # bs) = (ad_socket a, filter (\<lambda>x. 0 \<le> x) (map ad_socket as))"
  using try_addresses_first [OF assms(1), of "a # bs"] assms(2-4) by simp

lemma opened_fd:
  "\<exists>n. op_context (modbusmq_rtu_connect e rtu c) = c\<lparr>fd := n\<rparr>"
  "\<exists>n. op_context (modbusmq_tcp_connect resolved c) = c\<lparr>fd := n\<rparr>"
proof -
  have c: "\<exists>n. c = c\<lparr>fd := n\<rparr>" by (rule exI [of _ "fd c"]) simp
  then show "\<exists>n. op_context (modbusmq_rtu_connect e rtu c) = c\<lparr>fd := n\<rparr>"
    by (auto simp: modbusmq_rtu_connect_def Let_def)
  obtain sd shut where "try_addresses (the resolved) = (sd, shut)" by fastforce
  then show "\<exists>n. op_context (modbusmq_tcp_connect resolved c) = c\<lparr>fd := n\<rparr>"
    using c by (cases resolved) (auto simp: modbusmq_tcp_connect_def)
qed

lemma open_link_fd: "\<exists>n. snd (link_open e resolved c) = c\<lparr>fd := n\<rparr>"
  using opened_fd by (simp add: link_open_def Let_def split: transport.split)

end
