(* ===== verification/Bridge_Props.thy ===== *)
theory Bridge_Props
  imports Ack_Facts Opening Link_Props
begin

text \<open>
  The bridge as a whole: no write it waits for is forgotten, from its start through every pass
  of its main loop.
\<close>

section \<open>The device\<close>







section \<open>Posting\<close>





section \<open>The broker\<close>









section \<open>A pass\<close>



section \<open>From the start\<close>








section \<open>The writes waited for\<close>
















end
