(* ===== verification/Ack_Props.thy ===== *)
theory Ack_Props
  imports Ack
begin

text \<open>
  The acks as documents: a reader of JSON objects of texts and numbers, and what it makes of
  the payloads the bridge publishes.
\<close>

section \<open>A reader\<close>

definition hex_lower_val :: "char \<Rightarrow> nat" where
  "hex_lower_val ch = (let c = of_char ch :: nat in if c < 58 then c - 48 else c - 87)"

definition json_unesc :: "char \<Rightarrow> char option" where
  "json_unesc e =
     (if e = CHR 0x22 \<or> e = CHR 0x5C then Some e
      else if e = CHR ''n'' then Some (CHR 0x0A)
      else if e = CHR ''r'' then Some (CHR 0x0D)
      else if e = CHR ''t'' then Some (CHR 0x09) else None)"

text \<open>A string up to its closing quote, with what follows it.\<close>

fun json_text :: "string \<Rightarrow> (string \<times> string) option" where
  "json_text [] = None"
| "json_text (ch # cs) =
     (if ch = CHR 0x22 then Some ([], cs)
      else if ch = CHR 0x5C then
        (case cs of
           [] \<Rightarrow> None
         | e # r \<Rightarrow>
             if e = CHR ''u'' then
               (case r of
                  z # z' # h # l # r' \<Rightarrow>
                    if z = CHR ''0'' \<and> z' = CHR ''0''
                    then map_option (apfst (Cons (char_of (hex_lower_val h * 16 + hex_lower_val l)))) (json_text r')
                    else None
                | _ \<Rightarrow> None)
             else (case json_unesc e of None \<Rightarrow> None | Some u \<Rightarrow> map_option (apfst (Cons u)) (json_text r)))
      else if of_char ch < (0x20 :: nat) then None
      else map_option (apfst (Cons ch)) (json_text cs))"

lemma json_text_shorter: "json_text cs = Some (t, r) \<Longrightarrow> length r < length cs"
  by (induction cs arbitrary: t r rule: json_text.induct)
    (fastforce split: if_splits list.splits option.splits)+

datatype json_value = JString string | JNumber nat

definition json_read_value :: "string \<Rightarrow> (json_value \<times> string) option" where
  "json_read_value s =
     (case s of
        [] \<Rightarrow> None
      | ch # cs \<Rightarrow>
          if ch = CHR 0x22 then map_option (apfst JString) (json_text cs)
          else if takeWhile (is_digit_of 10) s = [] then None
          else Some (JNumber (digits_val 10 (takeWhile (is_digit_of 10) s)), dropWhile (is_digit_of 10) s))"

definition json_member :: "string \<Rightarrow> ((string \<times> json_value) \<times> string) option" where
  "json_member s =
     (case s of
        [] \<Rightarrow> None
      | ch # cs \<Rightarrow>
          if ch \<noteq> CHR 0x22 then None
          else
            (case json_text cs of
               Some (k, colon # r) \<Rightarrow>
                 if colon = CHR '':'' then map_option (apfst (Pair k)) (json_read_value r) else None
             | _ \<Rightarrow> None))"

lemma json_member_shorter:
  assumes "json_member s = Some (m, r)"
  shows "length r < length s"
proof -
  obtain cs k r0 v where s: "s = CHR 0x22 # cs" and k: "json_text cs = Some (k, CHR '':'' # r0)"
      and v: "json_read_value r0 = Some (v, r)"
    using assms by (auto simp: json_member_def split: list.splits if_splits option.splits)
  have "length r \<le> length r0"
    using v json_text_shorter length_dropWhile_le [of "is_digit_of 10" r0]
    by (fastforce simp: json_read_value_def split: list.splits if_splits)
  then show ?thesis using s json_text_shorter [OF k] by simp
qed

function json_members :: "string \<Rightarrow> (string \<times> json_value) list option" where
  "json_members s =
     (case json_member s of
        None \<Rightarrow> None
      | Some (m, []) \<Rightarrow> None
      | Some (m, ch # cs) \<Rightarrow>
          if ch = CHR '','' then map_option (Cons m) (json_members cs)
          else if ch = CHR ''}'' \<and> cs = [] then Some [m] else None)"
  by auto
termination by (relation "measure length") (auto dest: json_member_shorter)

declare json_members.simps [simp del]

definition json_object :: "string \<Rightarrow> (string \<times> json_value) list option" where
  "json_object s = (case s of [] \<Rightarrow> None | ch # cs \<Rightarrow> if ch = CHR ''{'' then json_members cs else None)"

section \<open>Texts read back\<close>

lemma hex_lower_val:
  assumes "d < 16"
  shows "hex_lower_val (hex_lower d) = d"
  using assms by (auto simp: hex_lower_val_def hex_lower_def Let_def)

lemma json_text_esc: "json_text (json_esc ch @ s) = map_option (apfst (Cons ch)) (json_text s)"
proof (cases "of_char ch < (0x20 :: nat)")
  case True
  have "of_char ch div 16 < (16 :: nat)" "of_char ch mod 16 < (16 :: nat)" using True by auto
  then have "char_of (hex_lower_val (hex_lower (of_char ch div 16)) * 16 + hex_lower_val (hex_lower (of_char ch mod 16))) = ch"
    by (simp add: hex_lower_val)
  then show ?thesis using True by (simp add: json_esc_def json_unesc_def Let_def)
next
  case False
  then show ?thesis by (simp add: json_esc_def json_unesc_def)
qed

lemma json_text_escaped: "json_text (concat (map json_esc t) @ CHR 0x22 # s) = Some (t, s)"
  by (induction t) (simp_all add: json_text_esc)

lemma json_esc_plain: "ch \<noteq> CHR 0x22 \<Longrightarrow> ch \<noteq> CHR 0x5C \<Longrightarrow> \<not> of_char ch < (0x20 :: nat) \<Longrightarrow> json_esc ch = [ch]"
  by (auto simp: json_esc_def)

text \<open>What a buffer of \<open>n\<close> bytes keeps of a text: the characters before the first that does not fit.\<close>

fun json_kept :: "nat \<Rightarrow> string \<Rightarrow> string" where
  "json_kept n [] = []"
| "json_kept n (ch # cs) =
     (if n \<le> length (json_esc ch) then [] else ch # json_kept (n - length (json_esc ch)) cs)"

lemma json_escape_loop_kept:
  "length out < n \<Longrightarrow> json_escape_loop n t out = out @ concat (map json_esc (json_kept (n - length out) t))"
proof (induction t arbitrary: out)
  case (Cons ch t)
  then show ?case by (cases "n \<le> length out + length (json_esc ch)") (auto simp: algebra_simps)
qed simp

lemma json_escape_kept: "0 < n \<Longrightarrow> json_escape n (Some t) = concat (map json_esc (json_kept n t))"
  using json_escape_loop_kept [of "[]" n t] by (simp add: json_escape_def)

lemma json_kept_length: "0 < n \<Longrightarrow> length (concat (map json_esc (json_kept n t))) < n"
  by (induction n t rule: json_kept.induct) auto

lemma json_escape_length: "0 < n \<Longrightarrow> length (json_escape n t) < n"
  by (cases t) (simp_all add: json_escape_kept json_kept_length, simp add: json_escape_def)

lemma json_kept_all: "length (concat (map json_esc t)) < n \<Longrightarrow> json_kept n t = t"
  by (induction n t rule: json_kept.induct) auto

section \<open>Members\<close>

definition plain :: "string \<Rightarrow> bool" where
  "plain s \<longleftrightarrow> list_all (\<lambda>ch. json_esc ch = [ch]) s"

lemma json_text_plain:
  assumes "plain s"
  shows "json_text (s @ CHR 0x22 # r) = Some (s, r)"
proof -
  have "concat (map json_esc s) = s" using assms by (induction s) (auto simp: plain_def)
  then show ?thesis using json_text_escaped [of s r] by simp
qed

text \<open>A piece after its comma reads as the member, whatever comes next.\<close>

definition reads :: "string \<Rightarrow> string \<times> json_value \<Rightarrow> bool" where
  "reads piece m \<longleftrightarrow> piece \<noteq> [] \<and> hd piece = CHR '','' \<and>
     (\<forall>ch r. \<not> is_digit_of 10 ch \<longrightarrow> json_member (tl piece @ ch # r) = Some (m, ch # r))"

lemma json_field_reads:
  assumes "plain key"
  shows "reads (json_field key (concat (map json_esc t))) (key, JString t)"
  using json_text_plain [OF assms] json_text_escaped
  by (simp add: reads_def json_field_def json_member_def json_read_value_def)

lemma json_field_plain: "plain key \<Longrightarrow> plain t \<Longrightarrow> reads (json_field key t) (key, JString t)"
  using json_text_plain by (simp add: reads_def json_field_def json_member_def json_read_value_def)

lemma json_field_kept:
  "plain key \<Longrightarrow> 0 < n \<Longrightarrow> reads (json_field key (json_escape n (Some t))) (key, JString (json_kept n t))"
  by (simp add: json_escape_kept json_field_reads)

lemma json_number_reads:
  assumes "plain key"
  shows "reads (json_number key (nat_str n)) (key, JNumber n)"
proof -
  have d: "\<forall>ch \<in> set (nat_str n). is_digit_of 10 ch" by (rule nat_str_digits)
  obtain a as where a: "nat_str n = a # as" by (cases "nat_str n") simp_all
  have "a \<noteq> CHR 0x22" using d a by (auto simp: is_digit_of_def)
  moreover have "takeWhile (is_digit_of 10) (nat_str n @ ch # r) = nat_str n"
      "dropWhile (is_digit_of 10) (nat_str n @ ch # r) = ch # r" if "\<not> is_digit_of 10 ch" for ch r
    using d that by simp_all
  ultimately have "json_read_value (nat_str n @ ch # r) = Some (JNumber n, ch # r)" if "\<not> is_digit_of 10 ch" for ch r
    using that a digits_val_nat_str [of n] by (auto simp: json_read_value_def)
  then show ?thesis using json_text_plain [OF assms] by (simp add: reads_def json_number_def json_member_def)
qed

lemma no_digits: "\<not> is_digit_of 10 (CHR '','')" "\<not> is_digit_of 10 (CHR ''}'')"
  by code_simp+

lemma json_members_read:
  "reads p m \<Longrightarrow> list_all2 reads ps ms \<Longrightarrow> json_members (tl p @ concat ps @ ''}'') = Some (m # ms)"
proof (induction ps arbitrary: p m ms)
  case Nil
  then have "json_member (tl p @ ''}'') = Some (m, ''}'')" using no_digits by (simp add: reads_def)
  then show ?case using Nil by (simp add: json_members.simps [of "tl p @ ''}''"])
next
  case (Cons q ps)
  then obtain n ns where ms: "ms = n # ns" "reads q n" "list_all2 reads ps ns" by (cases ms) auto
  let ?r = "tl q @ concat ps @ ''}''"
  have "q = CHR '','' # tl q" using ms(2) by (cases q) (auto simp: reads_def)
  then have q: "q @ concat ps @ ''}'' = CHR '','' # ?r" by (metis append_Cons)
  then have "json_member (tl p @ q @ concat ps @ ''}'') = Some (m, CHR '','' # ?r)"
    using Cons.prems(1) no_digits by (simp only: q) (simp add: reads_def)
  then show ?case using Cons.IH [OF ms(2,3)] ms(1) by (simp add: json_members.simps [of "tl p @ q @ concat ps @ ''}''"])
qed

section \<open>Acks\<close>

lemma nat_str_length: "n < 10 ^ Suc k \<Longrightarrow> length (nat_str n) \<le> Suc k"
proof (induction k arbitrary: n)
  case 0
  then show ?case by (simp add: nat_str.simps)
next
  case (Suc k)
  have "n div 10 < 10 ^ Suc k" using Suc.prems by (simp add: less_mult_imp_div_less)
  from Suc.IH [OF this] show ?case by (subst nat_str.simps) simp
qed

lemma json_append_all:
  "length (buf @ concat ps) < n \<Longrightarrow> foldl (json_append n) buf ps = buf @ concat ps"
proof (induction ps arbitrary: buf)
  case (Cons p ps)
  have "p = []" if "n \<le> Suc (length buf)" using Cons.prems that by (cases p) simp_all
  then have "json_append n buf p = buf @ p" using Cons.prems by (auto simp: json_append_def)
  then show ?case using Cons.IH [of "buf @ p"] Cons.prems by simp
qed simp

text \<open>The members the ack is meant to have; texts are kept up to the size of their buffers.\<close>

definition ack_members ::
    "modbusmq_write_t \<Rightarrow> u32 \<Rightarrow> string \<Rightarrow> string option \<Rightarrow> string option \<Rightarrow> string option \<Rightarrow> int
      \<Rightarrow> (string \<times> json_value) list" where
  "ack_members w rid status v reason message code =
     [(''status'', JString status)]
     @ (case wr_name w of None \<Rightarrow> [] | Some t \<Rightarrow> [(''name'', JString (json_kept 128 t))])
     @ (case wr_topic w of None \<Rightarrow> [] | Some t \<Rightarrow> [(''topic'', JString (json_kept 256 t))])
     @ (if rid = 0 then [] else [(''req'', JNumber (unat rid))])
     @ (case v of None \<Rightarrow> [] | Some t \<Rightarrow> [(''value'', JString (json_kept 192 t))])
     @ (case reason of None \<Rightarrow> [] | Some t \<Rightarrow> [(''reason'', JString t)])
     @ (if 0 < code then [(''code'', JNumber (nat code))] else [])
     @ (case message of None \<Rightarrow> [] | Some t \<Rightarrow> [(''message'', JString (json_kept 192 t))])"

lemma plain_keys:
  "plain ''status''" "plain ''name''" "plain ''topic''" "plain ''req''" "plain ''value''" "plain ''reason''"
  "plain ''code''" "plain ''message''"
  by code_simp+

lemma ack_object:
  assumes "plain status" and "\<And>t. reason = Some t \<Longrightarrow> plain t"
  shows "json_object (concat (ack_pieces w rid status v reason message code))
    = Some (ack_members w rid status v reason message code)"
proof -
  define ps where "ps = tl (butlast (ack_pieces w rid status v reason message code))"
  let ?p = "json_field ''status'' status"
  note k = json_field_kept [OF plain_keys(2)] json_field_kept [OF plain_keys(3)] json_field_kept [OF plain_keys(5)]
    json_field_kept [OF plain_keys(8)] json_number_reads [OF plain_keys(4)] json_number_reads [OF plain_keys(7)]
  have c: "concat (ack_pieces w rid status v reason message code) = CHR ''{'' # tl ?p @ concat ps @ ''}''"
    by (simp add: ps_def ack_pieces_def butlast_append)
  have "list_all2 reads ps (tl (ack_members w rid status v reason message code))"
    unfolding ps_def ack_pieces_def ack_members_def
    using k json_field_plain [OF plain_keys(6) assms(2)]
    by (auto simp: butlast_append int_str_def split: option.splits intro!: list_all2_appendI)
  then have "json_members (tl ?p @ concat ps @ ''}'') = Some (ack_members w rid status v reason message code)"
    using json_members_read [OF json_field_plain [OF plain_keys(1) assms(1)]] by (simp add: ack_members_def)
  then show ?thesis by (simp add: c json_object_def)
qed

lemma ack_length:
  assumes "length status + length (case reason of None \<Rightarrow> [] | Some t \<Rightarrow> t) \<le> 32" and "code < 1000"
  shows "length (concat (ack_pieces w rid status v reason message code)) < 900"
proof -
  have e: "length (json_escape 128 (wr_name w)) < 128" "length (json_escape 256 (wr_topic w)) < 256"
    "length (json_escape 192 v) < 192" "length (json_escape 192 message) < 192"
    by (simp_all add: json_escape_length)
  have "unat rid < 2 ^ LENGTH(32)" by (rule unsigned_less)
  then have "unat rid < 10 ^ Suc 9" by simp
  then have r: "length (nat_str (unat rid)) \<le> 10" using nat_str_length [of "unat rid" 9] by simp
  have "nat code < 10 ^ Suc 2" using assms(2) by simp
  then have n: "0 < code \<Longrightarrow> length (int_str code) \<le> 3" using nat_str_length [of "nat code" 2] by (simp add: int_str_def)
  show ?thesis using e r n assms(1) by (auto simp: ack_pieces_def json_field_def json_number_def split: option.splits)
qed

text \<open>
  C13. An ack reads back as what it reports. For one write there is at most one message, on the
  ack topic, and its payload is never cut off: read as a JSON object it has the status and the
  outcome's other members and no more, whatever characters the configured name and topic or the
  written value have in them; a text too long for its buffer loses whole characters at its end.
\<close>

theorem ack_reads_back:
  assumes "plain status" and "\<forall>t. reason = Some t \<longrightarrow> plain t"
    and "length status + length (case reason of None \<Rightarrow> [] | Some t \<Rightarrow> t) \<le> 32" and "code < 1000"
  shows "published (mqtt_write_result w rid status v reason message code b) = published b @
      (if wr_ack w \<and> wr_ack_topic w \<noteq> None \<and> has_mqtt b \<and> mqtt_connected b
       then [\<lparr>pb_topic = wr_ack_topic w, pb_payload = ack_payload w rid status v reason message code,
              pb_qos = mqtt_qos (br_config b), pb_retain = False\<rparr>] else [])
    \<and> json_object (ack_payload w rid status v reason message code) = Some (ack_members w rid status v reason message code)"
proof -
  have "ack_payload w rid status v reason message code = concat (ack_pieces w rid status v reason message code)"
    using json_append_all [of "[]"] ack_length [OF assms(3,4)] by (simp add: ack_payload_def)
  moreover have "published (mqtt_write_result w rid status v reason message code b) = published b @
      (if wr_ack w \<and> wr_ack_topic w \<noteq> None \<and> has_mqtt b \<and> mqtt_connected b
       then [\<lparr>pb_topic = wr_ack_topic w, pb_payload = ack_payload w rid status v reason message code,
              pb_qos = mqtt_qos (br_config b), pb_retain = False\<rparr>] else [])"
    by (auto simp: mqtt_write_result_def mosquitto_publish_def Let_def)
  ultimately show ?thesis using ack_object assms(1,2) by simp
qed

text \<open>A name that would close its string and claim another outcome.\<close>

definition quoted_write :: modbusmq_write_t where
  "quoted_write = write_zero\<lparr>wr_name := Some (CHR 0x22 # '','' @ CHR 0x22 # ''status''), wr_topic := Some ''relay''\<rparr>"

theorem ack_reads_back_witness:
  "json_object (ack_payload quoted_write 7 ''error'' None (Some ''timeout'') (Some ''slave did not respond'') 0)
   = Some [(''status'', JString ''error''), (''name'', JString (CHR 0x22 # '','' @ CHR 0x22 # ''status'')),
           (''topic'', JString ''relay''), (''req'', JNumber 7), (''reason'', JString ''timeout''),
           (''message'', JString ''slave did not respond'')]"
proof -
  have "plain ''error''" "plain ''timeout''" by code_simp+
  then have "json_object (ack_payload quoted_write 7 ''error'' None (Some ''timeout'') (Some ''slave did not respond'') 0)
      = Some (ack_members quoted_write 7 ''error'' None (Some ''timeout'') (Some ''slave did not respond'') 0)"
    using ack_reads_back [of "''error''" "Some ''timeout''" 0] by simp
  moreover have "ack_members quoted_write 7 ''error'' None (Some ''timeout'') (Some ''slave did not respond'') 0
     = [(''status'', JString ''error''), (''name'', JString (CHR 0x22 # '','' @ CHR 0x22 # ''status'')),
           (''topic'', JString ''relay''), (''req'', JNumber 7), (''reason'', JString ''timeout''),
           (''message'', JString ''slave did not respond'')]" by code_simp
  ultimately show ?thesis by simp
qed

end
