(* ===== verification/Log.thy ===== *)
theory Log
  imports Codec
begin

text \<open>
  The log lines: \<open>modbusmq_logf\<close> of lib/modbusmq_log.c, given the text its format makes, and
  the texts lib/modbusmq.c and lib/modbusmq_config.c name requests, frames, inputs and writes by.
  Nothing reads a log line back, so the other theories leave the calls out.
\<close>

section \<open>Lines\<close>

definition modbusmq_log_level :: "int \<Rightarrow> string" where
  "modbusmq_log_level level = (if level \<le> 1 then ''error'' else if level = 2 then ''info'' else ''debug'')"

abbreviation (input) MODBUSMQ_LOG_ERROR :: int where "MODBUSMQ_LOG_ERROR \<equiv> 1"

datatype log_line = To_Handler int string | To_Stderr string | To_Stdout string

definition pad3 :: "nat \<Rightarrow> string" where
  "pad3 n = replicate (3 - length (nat_str n)) (CHR ''0'') @ nat_str n"

text \<open>
  \<open>handler\<close> is whether one is set. \<open>None\<close> is undefined behaviour: a time \<open>localtime\<close> has no
  answer for, or a date that leaves its buffer unset.
\<close>

definition modbusmq_logf :: "libc_time \<Rightarrow> bool \<Rightarrow> millitime_t \<Rightarrow> int \<Rightarrow> string \<Rightarrow> log_line option" where
  "modbusmq_logf lt handler milli_now level body =
     (if handler then
        (let message = fit 256 body
         in Some (To_Handler level
              (if message \<noteq> [] \<and> last message = CHR 0x0A then butlast message else message)))
      else
        (case libc_localtime lt (uint (milli_now div 1000)) of
           None \<Rightarrow> None
         | Some t \<Rightarrow>
             (let date = strftime lt ''%Y%m%d %H:%M:%S'' t;
                  mseconds = milli_now - 1000 * (milli_now div 1000);
                  line = date @ '':'' @ pad3 (unat mseconds) @ '':'' @ modbusmq_log_level level @ '': '' @ body
              in if date = [] \<or> 100 \<le> length date then None
                 else Some (if level = MODBUSMQ_LOG_ERROR then To_Stderr line else To_Stdout line))))"

section \<open>Names\<close>

definition modbusmq_msg_tag :: "modbusmq_context_t \<Rightarrow> modbusmq_msg_t \<Rightarrow> string" where
  "modbusmq_msg_tag c m =
     fit 64
       (case modbusmq_msg_writer m of
          None \<Rightarrow> ''[req '' @ nat_str (unat (req_id m)) @ '']''
        | Some w \<Rightarrow> ''[req '' @ nat_str (unat (req_id m)) @ '' slave '' @ int_str (modbusmq_frame_slave c w)
            @ '' addr '' @ hex4 (modbusmq_frame_addr c w) @ '']'')"

text \<open>\<open>[%.2X]\<close> of a written byte, \<open><%.2X>\<close> of one that was read\<close>

definition byte_text :: "bool \<Rightarrow> byte \<Rightarrow> string" where
  "byte_text writer b =
     (let n = unat b in (if writer then ''['' else ''<'') @ [hex_digit (n div 16), hex_digit n] @ (if writer then '']'' else ''>''))"

definition modbusmq_frame_debug :: "modbusmq_frame_t \<Rightarrow> string" where
  "modbusmq_frame_debug f =
     (if xmit f < 0 then ''xmit = '' @ int_str (xmit f) @ [CHR 0x0A]
      else fit 256
             ((if is_writer f then ''writer'' else ''reader'') @ '': xmit='' @ int_str (xmit f) @ '' length='' @ int_str (flength f) @ '' ''
              @ concat (map (byte_text (is_writer f)) (take (nat (min (xmit f) MODBUSMQ_FRAME_MAX)) (fbuf f))))
           @ [CHR 0x0A])"

definition config_input_label :: "nat \<Rightarrow> nat \<Rightarrow> int \<Rightarrow> modbusmq_input_t \<Rightarrow> string" where
  "config_input_label nbuf i ch input =
     fit nbuf
       (''input.'' @ nat_str (i + 1) @ (if 0 \<le> ch then ''.channel.'' @ int_str (ch + 1) else [])
        @ (if 0 \<le> in_module input then '' (module '' @ int_str (in_module input) @ '', slave '' @ int_str (in_slave input) @ '')''
           else []))"

definition config_write_name :: "nat \<Rightarrow> modbusmq_write_t \<Rightarrow> string" where
  "config_write_name nbuf w =
     (let name = (case wr_name w of None \<Rightarrow> ''?'' | Some n \<Rightarrow> n)
      in fit nbuf (if 0 \<le> wr_module w
                   then name @ '', module '' @ int_str (wr_module w) @ '', slave '' @ int_str (wr_slave w) else name))"

section \<open>What a handler gets\<close>

lemma fit_length: "length (fit (Suc n) s) \<le> n"
  by (simp add: fit_def)

text \<open>At most 255 characters, and a short message without its newline.\<close>

lemma logf_handler:
  obtains message where "modbusmq_logf lt True now level s = Some (To_Handler level message)" "length message \<le> 255"
    "length s \<le> 254 \<Longrightarrow> s = l @ [CHR 0x0A] \<Longrightarrow> message = l"
proof -
  let ?m = "fit 256 s"
  let ?r = "if ?m \<noteq> [] \<and> last ?m = CHR 0x0A then butlast ?m else ?m"
  have "length ?m \<le> 255" using fit_length [of 255 s] by simp
  then have "length ?r \<le> 255" by auto
  moreover have "?r = l" if "length s \<le> 254" "s = l @ [CHR 0x0A]" using that by (simp add: fit_def)
  moreover have "modbusmq_logf lt True now level s = Some (To_Handler level ?r)"
    by (simp add: modbusmq_logf_def)
  ultimately show thesis using that by blast
qed

end
