(* ===== verification/Fuel_Facts.thy ===== *)
theory Fuel_Facts
  imports Bridge Tools
begin

text \<open>
  The definitions with fuel have enough of it: a scan that succeeds leaves less text than it was
  given, so more fuel than the text is long changes nothing, and the other two loops have run to
  their end.
\<close>

section \<open>A scan takes something\<close>

lemma scan_sign_length: "scan_sign src = (neg, s) \<Longrightarrow> length s \<le> length src"
  using length_dropWhile_le [of is_space src] by (auto simp: scan_sign_def Let_def)

lemma scan_digits_shorter:
  assumes "scan_digits base s = Some (v, rest)"
  shows "length rest < length s"
proof -
  have "takeWhile (is_digit_of base) s \<noteq> []" "rest = drop (length (takeWhile (is_digit_of base) s)) s"
    using assms by (auto simp: scan_digits_def Let_def split: if_splits)
  then show ?thesis using length_takeWhile_le [of "is_digit_of base" s] by (cases s) auto
qed

lemma strtoul10_shorter:
  assumes "strtoul10 text = Some (v, rest)"
  shows "length rest < length text"
proof -
  obtain neg s where s: "scan_sign text = (neg, s)" by fastforce
  then obtain n where "scan_digits 10 s = Some (n, rest)" using assms by (auto simp: strtoul10_def)
  then show ?thesis using scan_digits_shorter scan_sign_length [OF s] by fastforce
qed

lemma scan_mantissa_shorter:
  assumes "scan_mantissa base s = Some (m, k, rest)"
  shows "length rest < length s"
proof -
  define a where "a = takeWhile (is_digit_of base) s"
  define s1 where "s1 = drop (length a) s"
  define b where "b = (if take 1 s1 = ''.'' then takeWhile (is_digit_of base) (drop 1 s1) else [])"
  have r: "rest = (if take 1 s1 = ''.'' then drop (Suc (length b)) s1 else s1)" and ne: "a \<noteq> [] \<or> b \<noteq> []"
    using assms by (auto simp: scan_mantissa_def a_def s1_def b_def Let_def split: if_splits)
  have s: "length s = length a + length s1"
    using length_takeWhile_le [of "is_digit_of base" s] by (simp add: s1_def a_def)
  show ?thesis
  proof (cases "take 1 s1 = ''.''")
    case True
    then have "0 < length s1" by (cases s1) simp_all
    moreover have "length rest = length s1 - Suc (length b)" using True r by simp
    ultimately show ?thesis using s by linarith
  next
    case False
    then show ?thesis using r s ne by (simp add: b_def)
  qed
qed

lemma scan_exponent_length: "scan_exponent mark s = (e, rest) \<Longrightarrow> length rest \<le> length s"
  by (force simp: scan_exponent_def Let_def split: list.splits option.splits if_splits dest!: scan_digits_shorter)

lemma strcase_prefix_length: "strcase_prefix p s \<Longrightarrow> length p \<le> length s"
  by (metis strcase_prefix_def length_map length_take min.cobounded1)

lemma scan_number_shorter:
  assumes "map_option (\<lambda>(m, k, r). let (e, r1) = scan_exponent mark r in (f m k e, r1)) (scan_mantissa base s) = Some (d, rest)"
  shows "length rest < length s"
proof -
  obtain m k r where m: "scan_mantissa base s = Some (m, k, r)" using assms by auto
  obtain e r1 where e: "scan_exponent mark r = (e, r1)" by fastforce
  have "rest = r1" using assms m e by simp
  then show ?thesis using scan_mantissa_shorter [OF m] scan_exponent_length [OF e] by simp
qed

lemma strtod_shorter:
  assumes "strtod src = Some (d, rest)"
  shows "length rest < length src"
proof -
  obtain neg s where s: "scan_sign src = (neg, s)" by fastforce
  have dropped: "length (drop (length w) s) < length s" if "strcase_prefix w s" "w \<noteq> []" for w
    using strcase_prefix_length [OF that(1)] that(2) by (cases w) auto
  consider "strcase_prefix ''infinity'' s" "rest = drop 8 s"
    | "strcase_prefix ''inf'' s" "rest = drop 3 s"
    | "strcase_prefix ''nan'' s" "rest = drop 3 s"
    | "map_option (\<lambda>(m, k, r). let (e, r1) = scan_exponent (CHR ''p'') r
          in (fround binary64 neg (of_nat m * 2 powi (e - 4 * int k)), r1)) (scan_mantissa 16 (drop 2 s)) = Some (d, rest)"
    | "map_option (\<lambda>(m, k, r). let (e, r1) = scan_exponent (CHR ''e'') r
          in (fround binary64 neg (of_nat m * 10 powi (e - int k)), r1)) (scan_mantissa 10 s) = Some (d, rest)"
    using assms unfolding strtod_def s Let_def [of "(neg, s)"] prod.case
    by (simp only: split: if_split_asm) (simp_all only: option.inject prod.inject)
  then have "length rest < length s \<or> length rest < length (drop 2 s)"
  proof cases
    case 1 then show ?thesis using dropped [of "''infinity''"] by (simp add: eval_nat_numeral)
  next
    case 2 then show ?thesis using dropped [of "''inf''"] by (simp add: eval_nat_numeral)
  next
    case 3 then show ?thesis using dropped [of "''nan''"] by (simp add: eval_nat_numeral)
  next
    case 4 from scan_number_shorter [OF 4] show ?thesis ..
  next
    case 5 from scan_number_shorter [OF 5] show ?thesis ..
  qed
  then show ?thesis using scan_sign_length [OF s] by auto
qed

section \<open>More fuel changes nothing\<close>

lemma block_numbers_fuel:
  "length p < fuel \<Longrightarrow> block_numbers (Suc fuel) nmax payload p vs = block_numbers fuel nmax payload p vs"
proof (induction fuel arbitrary: p vs)
  case (Suc fuel)
  let ?p = "dropWhile (is_blank_of (CHR '','' # line_blanks)) p"
  have "block_numbers (Suc fuel) nmax payload rest ws = block_numbers fuel nmax payload rest ws"
    if "strtod ?p = Some (d, rest)" for d rest ws
    using strtod_shorter [OF that] Suc length_dropWhile_le [of "is_blank_of (CHR '','' # line_blanks)" p] by simp
  then show ?case
    by (auto simp: block_numbers.simps(2) [of "Suc fuel" nmax payload p vs] block_numbers.simps(2) [of fuel nmax payload p vs]
        Let_def simp del: block_numbers.simps split: option.split)
qed simp

lemma encode_version_fuel:
  "length p < fuel \<Longrightarrow> encode_version_loop (Suc fuel) p out n i stride = encode_version_loop fuel p out n i stride"
proof (induction fuel arbitrary: p out i)
  case (Suc fuel)
  have "encode_version_loop (Suc fuel) p' out' n j stride = encode_version_loop fuel p' out' n j stride"
    if "strtoul10 p = Some (v, rest)" "length p' \<le> length rest" for v rest p' out' j
    using strtoul10_shorter [OF that(1)] that(2) Suc by simp
  then show ?case
    by (auto simp: encode_version_loop.simps(2) [of "Suc fuel" p out n i stride]
        encode_version_loop.simps(2) [of fuel p out n i stride] Let_def
        simp del: encode_version_loop.simps split: option.split list.split)
qed simp

lemma query_values_fuel:
  "nbytes \<le> fuel \<Longrightarrow> 0 < chunk \<Longrightarrow> query_values (Suc fuel) data chunk nbytes = query_values fuel data chunk nbytes"
  by (induction fuel arbitrary: data nbytes) auto

text \<open>The loop over the tens of a divisor ends because there are none left.\<close>

lemma peel_tens_done:
  "r < 10 ^ fuel \<Longrightarrow> peel_tens fuel r tens = (r', tens') \<Longrightarrow> \<not> (1 < r' \<and> r' mod 10 = 0)"
proof (induction fuel arbitrary: r tens)
  case (Suc fuel)
  have "r < 10 * 10 ^ fuel" using Suc.prems(1) by simp
  then have "r div 10 < 10 ^ fuel" by linarith
  then show ?case using Suc.IH [of "r div 10"] Suc.prems(2) by (auto split: if_splits)
qed auto

end
