(* ===== verification/Spec2Isabelle.thy ===== *)
theory Spec2Isabelle
  imports Link_Props Exchange_Props Poll_Props Raw_Props Connect Loop_Facts Publish Config_Parse Send Codec_Props Tools Server_Props Config_Facts Bridge_Props Ack_Props Log Fuel_Facts
begin

text \<open>
  A model of modbusmq: a Modbus client library in C (lib/), the bridge between a Modbus bus and an
  MQTT broker built on it (programs/modbusmq.c), a virtual Modbus server for tests
  (programs/modbusmq_server.c) and two command line tools (programs/modbusmq_config.c,
  programs/modbusmq_query.c). The definitions carry the names of the C functions they model.
\<close>

section \<open>The program and its parts\<close>

text \<open>
  A context (\<open>modbusmq_context_t\<close>) owns one descriptor, a transport, a queue of requests and a list
  of subscriptions. A pass of an application's main loop asks \<open>modbusmq_loop_prepare\<close> what to wait
  for, which also posts the polls that are due, waits in \<open>poll\<close>, and calls
  \<open>modbusmq_loop_write_read\<close>, which moves the request at the head of the queue one step on: write
  what is left of it, read what has come of the response, match it, check it, report it and take
  it off. Values that arrive for a subscription are decoded by the channels of its input,
  compared with what was published last, and published; messages from the broker are encoded
  into writes and posted; the answer to a write becomes an ack.

  The theories, in the order they build on each other:

  \<^item> \<open>Prelude\<close>: integer types, bytes of words, the collections of rewrite rules. \<open>Text\<close>, \<open>Scan\<close>,
    \<open>Ieee\<close>: what the sources use of the C library and of \<open>float\<close> and \<open>double\<close>.
  \<^item> \<open>Frame\<close>, \<open>Context\<close>: frames, messages, the configuration and the context (lib/modbusmq.h,
    modbusmq_internal.h, modbusmq_config.h).
  \<^item> \<open>Crc\<close>, \<open>Rtu\<close>, \<open>Tcp\<close>, \<open>Line\<close>, \<open>Transport\<close>: the two transports and the table of their operations
    (lib/modbusmq_rtu.c, modbusmq_tcp.c), with the request builders of lib/modbusmq.c.
  \<^item> \<open>Connect\<close>, \<open>Opening\<close>: connect strings, new contexts, opening ports and sockets.
  \<^item> \<open>Queue\<close>, \<open>Backoff\<close>, \<open>Reply\<close>, \<open>Loop\<close>, \<open>Send\<close>, \<open>Subscribe\<close>, \<open>Rounds\<close>, \<open>Raw\<close>: the event loop of
    lib/modbusmq.c with its queue, the backoff of silent slaves, reports, the blocking call,
    subscriptions, polling in its three modes, and requests given as text.
  \<^item> \<open>Codec\<close>, \<open>Publish\<close>, \<open>Encode\<close>: channels from bytes to values and texts, when a value is
    published, and the way back to registers.
  \<^item> \<open>Config_Keys\<close>, \<open>Config\<close>, \<open>Config_Parse\<close>: the configuration file (lib/modbusmq_config.c).
  \<^item> \<open>Log\<close>: log lines (lib/modbusmq_log.c) and the names used in them.
  \<^item> \<open>Ack\<close>, \<open>Bridge\<close>: the bridge. \<open>Respond\<close>, \<open>Server\<close>: the virtual server. \<open>Tools\<close>: the tools.

  A theory \<open>X_Facts\<close> has the lemmas about the component \<open>X\<close>; \<open>Assembly\<close>, \<open>Stale\<close>, \<open>Exchange\<close>,
  \<open>Builders_Facts\<close>, \<open>Scale_Facts\<close> and \<open>Readback\<close> those about one behaviour that several components
  share in. The properties are in the theories \<open>X_Props\<close> and in \<open>Config_Facts\<close>.
\<close>

section \<open>How the code is modelled\<close>

text \<open>
  Structures are records and enumerations datatypes with the names of the C ones, prefixed where
  fields clash. A function that changes an object returns the changed object next to its return
  code. Linked lists are lists, head first. Machine integers are words where the code relies on
  their width (bytes, registers, counters, times); an \<open>int\<close> whose values stay small is an integer.

  What comes from outside is part of the state or an argument, so every step is a function. A
  context carries its clock, one reading for each call of \<open>millitime\<close>, the bytes waiting on the
  line and those that come while a flush waits for silence, the room for writing and whether the
  descriptor fails. What \<open>poll\<close>, \<open>select\<close>, \<open>accept\<close>, the calls that open a link, and the mosquitto
  library return is given per pass (\<open>bridge_round\<close>, \<open>select_round\<close>, \<open>poll_round\<close>, \<open>rtu_calls\<close>,
  \<open>address\<close>). Time zone and locale are the record \<open>libc_time\<close>, the texts of \<open>errno\<close> a function.

  Callbacks are recorded as events in the order they are made; the bridge runs them at the end of
  the call (\<open>run_callbacks\<close>), which is the same since its callbacks do not call back into the
  library's state. Errors are values: a negative return code as in C, \<open>None\<close> or \<open>Inl\<close> where the
  result has nothing else. Behaviour C leaves undefined is a value of its own (\<open>None\<close>, \<open>Undefined\<close>,
  \<open>Bridge_Undefined\<close>), so that a theorem about a result says there is none of it.

  Floating point numbers are exact: a sign and a rational magnitude, infinities and NaN, each
  operation rounded once to nearest even. The payload of a NaN is not kept, and a conversion to
  \<open>int\<close> of a value outside its range is the lowest \<open>int\<close>, as on x86.

  Every loop is total. Structural recursion covers most; \<open>modbusmq_read\<close> and the drains recurse on
  what is left to read, the text scanners on the text that is left. Where a definition has fuel
  (\<open>block_numbers\<close>, \<open>encode_version_loop\<close>, \<open>peel_tens\<close>, \<open>query_values\<close>), it is the length of the
  text or the number of bytes, of which each round takes at least one, and ten for the decimal
  digits of an \<open>int\<close>; \<open>Fuel_Facts\<close> proves that more would change nothing. \<open>modbusmq_send\<close> and the tools
  run over the list of rounds they are given; the main loops of the bridge and the server are one
  pass each, and \<open>bridge_reaches\<close> and \<open>exchange_step\<close> are the runs made of them.
\<close>

section \<open>What is proved\<close>

text \<open>
  \<^item> The transports. \<open>Rtu_Facts\<close>, \<open>Tcp_Facts\<close> and \<open>Builders_Facts\<close>: the bytes of every request, the
    exact condition under which a response is accepted, what the CRC cannot miss, the way of the
    values of a write into the frame and back. \<open>Line_Facts\<close>: a read moves bytes from the line into
    the frame and loses none, and a flush drains to silence. \<open>Transport_Facts\<close> states the contract of a
    transport as the locale \<open>transport\<close> and proves it of both.
  \<^item> The exchange. The locale \<open>event_loop\<close> (\<open>Loop_Facts\<close>) is one entry of \<open>modbusmq_loop_write_read\<close>
    over a transport, \<open>response_stream\<close> (\<open>Assembly\<close>) any number of them while a response arrives in
    pieces; both are interpreted for RTU and for TCP. However the response is cut, the request
    completes with exactly its bytes; a late answer of an earlier request in front of it is
    stepped over (\<open>Stale\<close>). \<open>Exchange\<close> has the exchange as a transition system, where bytes, time
    and the moods of the descriptor come in any order, and its invariant.
  \<^item> Queue and polling. The locale \<open>request_queue\<close> (\<open>Queue\<close>) says what an insertion keeps of
    the queue; its interpretation \<open>rq\<close> gives the order in which requests are served.
    \<open>Rounds_Facts\<close>: no timer has two polls in the queue, in any mode; a round posts each poll once
    and rounds do not overlap; the deep tier gives every slave its turn. \<open>Backoff_Facts\<close>: the
    backoff refines a machine of two states, with its schedule as a formula.
  \<^item> Values. \<open>Codec_Facts\<close>, \<open>Ieee_Facts\<close>, \<open>Scale_Facts\<close>, \<open>Readback\<close>: a channel reads what was
    received and nothing else, a scaled write is in range or refused, and a value that was read
    writes the registers it was read from.
  \<^item> The configuration. \<open>Config_Facts\<close>: what is accepted is well formed, and the channels of a block
    write tile its registers.
  \<^item> The bridge. \<open>Ack_Facts\<close>: whatever takes a request off the queue reports it, so that no client
    waits for an answer that will not come, from the start of the bridge through any passes of
    its main loop; the ack itself reads back as JSON with the members of the outcome.
  \<^item> The virtual server. \<open>Respond_Facts\<close>, \<open>Server_Facts\<close>: the library takes its answers, the bits of
    a coil read are the channels that are on, writes are echoed, and no descriptor is lost.

  Some theorems show the code failing what it means to do: a TCP exception without its code passes
  as a good response, a raw coil write hands packed bits to a builder that takes a byte per
  coil, the server answers functions it does not know as register reads and drops the rest of
  an answer the socket took in part.
\<close>

section \<open>Not modelled\<close>

text \<open>
  \<^item> The test programs.
  \<^item> What is printed to the terminal, usage texts, and the places where other functions log. The
    making of a log line is modelled in \<open>Log\<close>.
  \<^item> Memory: allocation succeeds, what is freed is gone, and the checks of arguments for NULL have
    no counterpart except where a callback or a descriptor may be missing.
  \<^item> System calls and the mosquitto library. What they return is a parameter, as said above. Calls
    that change nothing the program looks at, \<open>tcdrain\<close>, \<open>usleep\<close> and switching RTS among them,
    have no effect; signals are not delivered.
\<close>

end
